(* ===== verification/Prelude.thy ===== *)
theory Prelude
  imports Complex_Main
begin

text \<open>
  Shared vocabulary of the development. Both programs compute with C++ \<open>double\<close>s; the
  model reads every \<open>double\<close> as a real number and every arithmetic operation as the exact
  real operation. An operation whose IEEE result is not a finite number (a division by
  zero, the square root of a negative number) is not a real number at all: the model
  makes it the error value of a run (\<open>Inl\<close>), so that a run that would print
  \<open>nan\<close> or \<open>inf\<close> is told apart from one that prints numbers. Out-of-range array
  accesses (undefined behaviour in C, an exception in Armadillo) are errors too.
  This theory holds the error type, the checked arithmetic, bounds-checked arrays, the
  list-of-rows matrices with their entry-wise builder \<open>mat_of\<close>, the output record of
  both discretizers and the sum and polynomial lemmas the components share.
\<close>

named_theorems mat_simps "entry-wise and shape equations of the matrix operations"

type_synonym vec = "real list"
type_synonym mat = "real list list"

datatype fp_error =
    DivByZero
  | SqrtOfNegative
  | IndexOutOfRange
  | NegativeArraySize
  | DimensionMismatch

type_synonym 'a result = "fp_error + 'a"

text \<open>The output of both discretizers: the grid \<open>vZ\<close> and the matrix \<open>mPI\<close>.\<close>

record markov_chain =
  mc_grid :: vec
  mc_trans :: mat

subsection \<open>Sequencing of fallible steps\<close>

definition bindE :: "'a result \<Rightarrow> ('a \<Rightarrow> 'b result) \<Rightarrow> 'b result" where
  "bindE r f = (case r of Inl e \<Rightarrow> Inl e | Inr x \<Rightarrow> f x)"

lemma bindE_Inl [simp]: "bindE (Inl e) f = Inl e"
  by (simp add: bindE_def)

lemma bindE_Inr [simp]: "bindE (Inr x) f = f x"
  by (simp add: bindE_def)

lemma bindE_cong [fundef_cong]:
  "r = r' \<Longrightarrow> (\<And>x. r' = Inr x \<Longrightarrow> f x = f' x) \<Longrightarrow> bindE r f = bindE r' f'"
  by (auto simp: bindE_def split: sum.splits)

lemma bindE_eq_Inr_iff: "bindE r f = Inr y \<longleftrightarrow> (\<exists>x. r = Inr x \<and> f x = Inr y)"
  by (cases r) simp_all

subsection \<open>Checked floating-point operations\<close>

definition fdiv :: "real \<Rightarrow> real \<Rightarrow> real result" where
  "fdiv x y = (if y = 0 then Inl DivByZero else Inr (x / y))"

definition fsqrt :: "real \<Rightarrow> real result" where
  "fsqrt x = (if x < 0 then Inl SqrtOfNegative else Inr (sqrt x))"

lemma fdiv_nz [simp]: "y \<noteq> 0 \<Longrightarrow> fdiv x y = Inr (x / y)"
  by (simp add: fdiv_def)

lemma fdiv_zero [simp]: "fdiv x 0 = Inl DivByZero"
  by (simp add: fdiv_def)

lemma fsqrt_nonneg [simp]: "0 \<le> x \<Longrightarrow> fsqrt x = Inr (sqrt x)"
  by (simp add: fsqrt_def)

lemma fsqrt_neg [simp]: "x < 0 \<Longrightarrow> fsqrt x = Inl SqrtOfNegative"
  by (simp add: fsqrt_def)

subsection \<open>C arrays with bounds checks\<close>

text \<open>
  A C array of \<open>double\<close> is a list; the index is the C \<open>int\<close>. Reading or writing
  outside \<open>0 \<le> i < length\<close> is undefined behaviour, modelled as an error. A fresh
  variable-length array holds unspecified values (\<open>undefined\<close>); a negative length is
  undefined behaviour at the declaration.
\<close>

definition arr_get :: "vec \<Rightarrow> int \<Rightarrow> real result" where
  "arr_get xs i = (if 0 \<le> i \<and> i < int (length xs) then Inr (xs ! nat i) else Inl IndexOutOfRange)"

definition arr_set :: "vec \<Rightarrow> int \<Rightarrow> real \<Rightarrow> vec result" where
  "arr_set xs i v =
     (if 0 \<le> i \<and> i < int (length xs) then Inr (xs[nat i := v]) else Inl IndexOutOfRange)"

definition alloc_vec :: "int \<Rightarrow> vec result" where
  "alloc_vec n = (if n < 0 then Inl NegativeArraySize else Inr (replicate (nat n) undefined))"

definition mat_set :: "mat \<Rightarrow> int \<Rightarrow> int \<Rightarrow> real \<Rightarrow> mat result" where
  "mat_set M i j v =
     (if 0 \<le> i \<and> i < int (length M) \<and> 0 \<le> j \<and> j < int (length (M ! nat i))
      then Inr (M[nat i := (M ! nat i)[nat j := v]]) else Inl IndexOutOfRange)"

definition alloc_mat :: "int \<Rightarrow> int \<Rightarrow> mat result" where
  "alloc_mat r c =
     (if r < 0 \<or> c < 0 then Inl NegativeArraySize
      else Inr (replicate (nat r) (replicate (nat c) undefined)))"

subsection \<open>Matrices as lists of rows\<close>

definition mat_of :: "nat \<Rightarrow> nat \<Rightarrow> (nat \<Rightarrow> nat \<Rightarrow> real) \<Rightarrow> mat" where
  "mat_of r c f = map (\<lambda>i. map (\<lambda>j. f i j) [0..<c]) [0..<r]"

definition is_mat :: "nat \<Rightarrow> nat \<Rightarrow> mat \<Rightarrow> bool" where
  "is_mat r c M \<longleftrightarrow> length M = r \<and> (\<forall>i<r. length (M ! i) = c)"

text \<open>A row-stochastic \<open>n \<times> n\<close> matrix: every entry non-negative, every row sums to 1.\<close>

definition stochastic :: "nat \<Rightarrow> mat \<Rightarrow> bool" where
  "stochastic n M \<longleftrightarrow>
     is_mat n n M \<and> (\<forall>i<n. (\<forall>j<n. 0 \<le> M ! i ! j) \<and> (\<Sum>j<n. M ! i ! j) = 1)"

lemma length_mat_of [simp, mat_simps]: "length (mat_of r c f) = r"
  by (simp add: mat_of_def)

lemma length_mat_of_row [simp, mat_simps]: "i < r \<Longrightarrow> length (mat_of r c f ! i) = c"
  by (simp add: mat_of_def)

lemma mat_of_nth [simp, mat_simps]: "i < r \<Longrightarrow> j < c \<Longrightarrow> mat_of r c f ! i ! j = f i j"
  by (simp add: mat_of_def)

lemma is_mat_mat_of [simp, mat_simps]: "is_mat r c (mat_of r c f)"
  by (simp add: is_mat_def)

lemma mat_of_cong:
  "(\<And>i j. i < r \<Longrightarrow> j < c \<Longrightarrow> f i j = g i j) \<Longrightarrow> mat_of r c f = mat_of r c g"
  by (simp add: mat_of_def)

lemma mat_of_cong_simp:
  "r = r' \<Longrightarrow> c = c' \<Longrightarrow> (\<And>i j. i < r' =simp=> j < c' =simp=> f i j = g i j)
    \<Longrightarrow> mat_of r c f = mat_of r' c' g"
  by (simp add: mat_of_def simp_implies_def)

lemma mat_of_eqI:
  assumes "is_mat r c M" and "\<And>i j. i < r \<Longrightarrow> j < c \<Longrightarrow> M ! i ! j = f i j"
  shows "M = mat_of r c f"
  using assms by (auto simp: is_mat_def intro!: nth_equalityI)

lemma mat_of_self: "is_mat r c M \<Longrightarrow> mat_of r c (\<lambda>i j. M ! i ! j) = M"
  by (rule mat_of_eqI [symmetric]) simp_all

lemma stochasticI:
  assumes "is_mat n n M"
    and "\<And>i j. i < n \<Longrightarrow> j < n \<Longrightarrow> 0 \<le> M ! i ! j"
    and "\<And>i. i < n \<Longrightarrow> (\<Sum>j<n. M ! i ! j) = 1"
  shows "stochastic n M"
  using assms by (simp add: stochastic_def)

lemma stochastic_le_one:
  assumes "stochastic n M" "i < n" "j < n"
  shows "M ! i ! j \<le> 1"
proof -
  have "M ! i ! j \<le> (\<Sum>k<n. M ! i ! k)"
    using assms by (intro member_le_sum) (auto simp: stochastic_def)
  then show ?thesis using assms by (simp add: stochastic_def)
qed

lemma arr_get_nat [simp]: "i < length xs \<Longrightarrow> arr_get xs (int i) = Inr (xs ! i)"
  by (simp add: arr_get_def)

lemma arr_set_nat [simp]: "i < length xs \<Longrightarrow> arr_set xs (int i) v = Inr (xs[i := v])"
  by (simp add: arr_set_def)

lemma mat_set_mat_of [mat_simps]:
  assumes "i < r" "j < c"
  shows "mat_set (mat_of r c f) (int i) (int j) v =
           Inr (mat_of r c (\<lambda>a b. if a = i \<and> b = j then v else f a b))"
  using assms by (auto simp: mat_set_def mat_of_def intro!: nth_equalityI simp: nth_list_update)

lemma replicate_mat_of: "replicate r (replicate c x) = mat_of r c (\<lambda>_ _. x)"
  by (simp add: mat_of_def map_replicate_const)

subsection \<open>Finite sums over an index range\<close>

text \<open>Sums whose summand is zero outside \<open>[a, a + m)\<close> reduce to that range.\<close>

lemma sum_shift_window:
  fixes g :: "nat \<Rightarrow> real"
  assumes "a + m \<le> n"
  shows "(\<Sum>j<n. if a \<le> j \<and> j < a + m then g (j - a) else 0) = (\<Sum>j<m. g j)"
proof -
  have "(\<Sum>j<n. if a \<le> j \<and> j < a + m then g (j - a) else 0)
      = (\<Sum>j\<in>{a..<a + m}. g (j - a))"
    using assms by (intro sum.mono_neutral_cong_right) auto
  also have "\<dots> = (\<Sum>j<m. g j)"
    by (simp add: sum.atLeastLessThan_shift_0 atLeast0LessThan)
  finally show ?thesis .
qed

lemma telescope_prefix:
  fixes F :: "nat \<Rightarrow> real"
  shows "J \<le> k \<Longrightarrow> (\<Sum>j<Suc J. if j = 0 then F 0 else if j = Suc k then 1 - F k else F j - F (j - 1)) = F J"
  by (induction J) simp_all

lemma telescope_row:
  fixes F :: "nat \<Rightarrow> real"
  shows "(\<Sum>j<Suc (Suc k). if j = 0 then F 0 else if j = Suc k then 1 - F k else F j - F (j - 1)) = 1"
  using telescope_prefix [of k k F] by simp

lemma equispaced_reflect:
  assumes "k < n" "(real n - 1) * d = 2 * z"
  shows "- z + real (n - 1 - k) * d = - (- z + real k * d)"
proof -
  have "real (n - 1 - k) * d = (real n - 1) * d - real k * d"
    using assms(1) by (simp add: of_nat_diff algebra_simps)
  then show ?thesis using assms(2) by simp
qed

lemma stochastic_mat_of:
  assumes "\<And>i j. i < n \<Longrightarrow> j < n \<Longrightarrow> 0 \<le> f i j" "\<And>i. i < n \<Longrightarrow> (\<Sum>j<n. f i j) = 1"
  shows "stochastic n (mat_of n n f)"
  using assms by (intro stochasticI) simp_all

subsection \<open>Pascal's rule with weights\<close>

lemma pascal_weighted:
  fixes a b :: real
  assumes "j < k + 3"
  shows "a * (if j < k + 2 then real (Suc k choose j) * a ^ (Suc k - j) * b ^ j else 0)
         + b * (if 1 \<le> j then real (Suc k choose (j - 1)) * a ^ (Suc (Suc k) - j) * b ^ (j - 1) else 0)
         = real (Suc (Suc k) choose j) * a ^ (Suc (Suc k) - j) * b ^ j"
proof -
  consider "j = 0" | "j = k + 2" | j' where "j = Suc j'" "j' \<le> k" using assms by (cases j) (auto simp: less_Suc_eq_le le_Suc_eq)
  then show ?thesis
  proof cases
    case 1
    then show ?thesis by simp
  next
    case 2
    then show ?thesis by simp
  next
    case 3
    have e: "Suc (Suc k) - Suc j' = Suc (k - j')" "Suc k - Suc j' = k - j'" "Suc k - j' = Suc (k - j')"
      using 3(2) by simp_all
    have "real (Suc (Suc k) choose Suc j') = real (Suc k choose j') + real (Suc k choose Suc j')"
      by simp
    then show ?thesis using 3 by (simp add: e algebra_simps)
  qed
qed

subsection \<open>Positivity of quadratics\<close>

lemma quad_pos:
  fixes a b c t :: real
  assumes "0 < c" "b\<^sup>2 < 4 * a * c"
  shows "0 < a + b * t + c * t\<^sup>2"
proof -
  have "4 * c * (a + b * t + c * t\<^sup>2) = (2 * c * t + b)\<^sup>2 + (4 * a * c - b\<^sup>2)"
    by (simp add: algebra_simps power2_eq_square)
  also have "\<dots> > 0" using assms(2) by (simp add: add_nonneg_pos)
  finally show ?thesis using assms(1) by (simp add: zero_less_mult_iff)
qed

end
