(* ===== verification/NormalCDF.thy ===== *)
theory NormalCDF
  imports Prelude
begin

text \<open>
  The standard normal CDF \<open>phi\<close> of \<^verbatim>\<open>src/tauchen.cpp\<close> (lines 130--151), the
  Abramowitz--Stegun approximation 7.1.26 of \<open>erf\<close>: on \<open>x = |x0| / sqrt 2\<close>,
  \<open>t = 1 / (1 + p x)\<close>, \<open>y = 1 - P(t) exp(-x\<^sup>2)\<close> with the quintic \<open>P\<close> in Horner form,
  and \<open>phi x0 = (1 + sign(x0) y) / 2\<close>. The function is total: \<open>1 + p x \<ge> 1\<close>.
  The lemmas show, over the reals: \<open>P\<close> is strictly increasing (its derivative is a sum
  of two positive quadratics), hence \<open>phi\<close> is strictly increasing, lies strictly between
  0 and 1, is point-symmetric about \<open>(0, 1/2)\<close> away from 0, and at 0 takes the value
  \<open>(1 + 10\<^sup>-\<^sup>9) / 2\<close>, because the five constants sum to \<open>0.999999999\<close>.
\<close>

definition phi :: "real \<Rightarrow> real" where
  "phi x0 =
    (let a1 = 0.254829592; a2 = -0.284496736; a3 = 1.421413741;
         a4 = -1.453152027; a5 = 1.061405429; p = 0.3275911;
         sign = (if x0 < 0 then -1 else 1 :: int);
         x = \<bar>x0\<bar> / sqrt 2;
         t = 1 / (1 + p * x);
         y = 1 - (((((a5 * t + a4) * t) + a3) * t + a2) * t + a1) * t * exp (- x * x)
     in 0.5 * (1 + real_of_int sign * y))"

text \<open>The polynomial of line 148 and the error-function part \<open>y\<close> as functions of their own.\<close>

definition as_poly :: "real \<Rightarrow> real" where
  "as_poly t =
     (((((1.061405429 * t + -1.453152027) * t) + 1.421413741) * t + -0.284496736) * t
       + 0.254829592) * t"

definition as_erf :: "real \<Rightarrow> real" where
  "as_erf x = 1 - as_poly (1 / (1 + 0.3275911 * x)) * exp (- x * x)"

definition as_dpoly :: "real \<Rightarrow> real" where
  "as_dpoly t = 0.254829592 + 2 * -0.284496736 * t + 3 * 1.421413741 * t\<^sup>2
     + 4 * -1.453152027 * t ^ 3 + 5 * 1.061405429 * t ^ 4"

lemma phi_as_erf:
  "phi x = 0.5 * (1 + (if x < 0 then -1 else 1) * as_erf (\<bar>x\<bar> / sqrt 2))"
  by (simp add: phi_def as_erf_def as_poly_def Let_def)

subsection \<open>The polynomial\<close>

lemma as_dpoly_pos: "0 < as_dpoly t"
proof -
  have q1: "0 < 0.254829592 + (2 * -0.284496736) * t + 1 * t\<^sup>2"
    by (rule quad_pos) (simp_all add: power2_eq_square)
  have q2: "0 < (3 * 1.421413741 - 1) + (4 * -1.453152027) * t + (5 * 1.061405429) * t\<^sup>2"
    by (rule quad_pos) (simp_all add: power2_eq_square)
  have "0 \<le> t\<^sup>2 * ((3 * 1.421413741 - 1) + (4 * -1.453152027) * t + (5 * 1.061405429) * t\<^sup>2)"
    using q2 by simp
  moreover have "as_dpoly t = (0.254829592 + (2 * -0.284496736) * t + 1 * t\<^sup>2)
     + t\<^sup>2 * ((3 * 1.421413741 - 1) + (4 * -1.453152027) * t + (5 * 1.061405429) * t\<^sup>2)"
    by (simp add: as_dpoly_def algebra_simps power2_eq_square power3_eq_cube power4_eq_xxxx)
  ultimately show ?thesis using q1 by linarith
qed

lemma as_poly_deriv: "DERIV as_poly t :> as_dpoly t"
  unfolding as_poly_def as_dpoly_def
  by (auto intro!: derivative_eq_intros
      simp: algebra_simps power2_eq_square power3_eq_cube power4_eq_xxxx)

lemma as_poly_strict_mono: "s < t \<Longrightarrow> as_poly s < as_poly t"
  using DERIV_pos_imp_increasing [of s t as_poly] as_poly_deriv as_dpoly_pos by blast

lemma as_poly_0 [simp]: "as_poly 0 = 0"
  by (simp add: as_poly_def)

lemma as_poly_1 [simp]: "as_poly 1 = 0.999999999"
  by (simp add: as_poly_def)

lemma as_poly_pos: "0 < t \<Longrightarrow> 0 < as_poly t"
  using as_poly_strict_mono [of 0 t] by simp

lemma as_poly_lt_1: "t \<le> 1 \<Longrightarrow> as_poly t < 1"
  using as_poly_strict_mono [of t 1] by (cases "t = 1") auto

subsection \<open>The error-function part\<close>

lemma as_t_bounds:
  assumes "0 \<le> x"
  shows "0 < 1 / (1 + 0.3275911 * x)" and "1 / (1 + 0.3275911 * x) \<le> (1::real)"
  using assms by simp_all

lemma as_t_strict_anti:
  assumes "0 \<le> x" "x < y"
  shows "1 / (1 + 0.3275911 * y) < 1 / (1 + 0.3275911 * (x::real))"
  using assms by (simp add: divide_strict_left_mono)

lemma as_erf_strict_mono:
  assumes "0 \<le> x" "x < y"
  shows "as_erf x < as_erf y"
proof -
  let ?tx = "1 / (1 + 0.3275911 * x)" and ?ty = "1 / (1 + 0.3275911 * y)"
  have "0 < ?ty" using assms as_t_bounds(1) [of y] by simp
  then have Py: "0 < as_poly ?ty" by (rule as_poly_pos)
  have Pxy: "as_poly ?ty < as_poly ?tx"
    using as_t_strict_anti [OF assms] by (rule as_poly_strict_mono)
  have Exy: "exp (- y * y) \<le> exp (- x * x)"
    using assms by (simp add: mult_mono)
  have "as_poly ?ty * exp (- y * y) < as_poly ?tx * exp (- y * y)"
    using Pxy by simp
  also have "\<dots> \<le> as_poly ?tx * exp (- x * x)"
    using Py Pxy Exy by (intro mult_left_mono) simp_all
  finally show ?thesis by (simp add: as_erf_def)
qed

lemma as_erf_pos: "0 \<le> x \<Longrightarrow> 0 < as_erf x"
proof -
  assume "0 \<le> x"
  have "as_erf 0 = 1 - 0.999999999" by (simp add: as_erf_def)
  then have "0 < as_erf 0" by simp
  then show "0 < as_erf x"
    using as_erf_strict_mono [of 0 x] \<open>0 \<le> x\<close> by (cases "x = 0") auto
qed

lemma as_erf_lt_1: "0 \<le> x \<Longrightarrow> as_erf x < 1"
proof -
  assume "0 \<le> x"
  then have "0 < as_poly (1 / (1 + 0.3275911 * x))"
    by (intro as_poly_pos) simp
  then show ?thesis by (simp add: as_erf_def)
qed

lemma as_erf_abs_mono:
  "\<bar>x\<bar> < \<bar>y\<bar> \<Longrightarrow> as_erf (\<bar>x\<bar> / sqrt 2) < as_erf (\<bar>y\<bar> / sqrt 2)"
  by (rule as_erf_strict_mono) (simp_all add: divide_strict_right_mono)

subsection \<open>Properties of phi\<close>

lemma phi_neg: "x < 0 \<Longrightarrow> phi x = 1 / 2 - as_erf (\<bar>x\<bar> / sqrt 2) / 2"
  by (simp add: phi_as_erf)

lemma phi_nonneg_arg: "0 \<le> x \<Longrightarrow> phi x = 1 / 2 + as_erf (\<bar>x\<bar> / sqrt 2) / 2"
  by (simp add: phi_as_erf)

lemma as_erf_arg_bounds: "0 < as_erf (\<bar>x\<bar> / sqrt 2)" "as_erf (\<bar>x\<bar> / sqrt 2) < 1"
  by (simp_all add: as_erf_pos as_erf_lt_1)

lemma phi_lt: "x < y \<Longrightarrow> phi x < phi y"
proof -
  assume xy: "x < y"
  show "phi x < phi y"
  proof (cases "y < 0")
    case True
    then have "\<bar>y\<bar> < \<bar>x\<bar>" using xy by simp
    then have "as_erf (\<bar>y\<bar> / sqrt 2) < as_erf (\<bar>x\<bar> / sqrt 2)" by (rule as_erf_abs_mono)
    moreover have "x < 0" using True xy by simp
    ultimately show ?thesis using phi_neg [OF \<open>x < 0\<close>] phi_neg [OF True] by linarith
  next
    case ny: False
    show ?thesis
    proof (cases "x < 0")
      case True
      then show ?thesis
        using ny phi_neg [OF True] phi_nonneg_arg [of y] as_erf_arg_bounds [of x]
          as_erf_arg_bounds [of y] by linarith
    next
      case False
      then have "\<bar>x\<bar> < \<bar>y\<bar>" using xy by simp
      then have "as_erf (\<bar>x\<bar> / sqrt 2) < as_erf (\<bar>y\<bar> / sqrt 2)" by (rule as_erf_abs_mono)
      then show ?thesis using phi_nonneg_arg [of x] phi_nonneg_arg [of y] False ny by linarith
    qed
  qed
qed

lemma phi_mono: "x \<le> y \<Longrightarrow> phi x \<le> phi y"
  using phi_lt [of x y] by (cases "x = y") auto

lemma phi_in_01: "0 < phi x \<and> phi x < 1"
  using phi_as_erf [of x] as_erf_arg_bounds [of x] by (cases "x < 0") simp_all

lemma phi_reflect: "x \<noteq> 0 \<Longrightarrow> phi (- x) = 1 - phi x"
proof (cases "x < 0")
  case True
  then show ?thesis using phi_neg [OF True] phi_nonneg_arg [of "- x"] by simp
next
  case False
  moreover assume "x \<noteq> 0"
  ultimately have "- x < 0" by simp
  then show ?thesis using phi_neg [of "- x"] phi_nonneg_arg [of x] False by simp
qed

text \<open>The defect of the point symmetry: \<open>0\<close> away from \<open>0\<close>, \<open>10\<^sup>-\<^sup>9\<close> at \<open>0\<close>.\<close>

lemma phi_reflect_error: "0 \<le> phi (- x) - (1 - phi x) \<and> phi (- x) - (1 - phi x) \<le> 1 / 10 ^ 9"
  by (cases "x = 0") (simp_all add: phi_reflect, simp add: phi_def)

text \<open>
  C20. The approximation is strictly increasing on the whole real line, like the CDF it
  approximates; the jump at 0 goes upwards (from \<open>(1 - 10\<^sup>-\<^sup>9)/2\<close> to
  \<open>(1 + 10\<^sup>-\<^sup>9)/2\<close>).
\<close>

theorem phi_strict_mono: "x < y \<Longrightarrow> phi x < phi y"
  by (rule phi_lt)

lemma phi_strict_mono_witness: "(-1::real) < 2 \<and> phi (-1) < phi 2"
  using phi_strict_mono [of "-1" 2] by simp

text \<open>C21. Every value of the approximation is a probability strictly between 0 and 1.\<close>

theorem phi_bounds: "0 < phi x \<and> phi x < 1"
  by (rule phi_in_01)

text \<open>
  C29. Away from 0 the approximation is point-symmetric:
  \<open>phi (-x) = 1 - phi x\<close> for every \<open>x \<noteq> 0\<close>.
\<close>

theorem phi_symmetric: "x \<noteq> 0 \<Longrightarrow> phi (- x) = 1 - phi x"
  by (rule phi_reflect)

lemma phi_symmetric_witness: "(1::real) \<noteq> 0 \<and> phi (- 1) = 1 - phi 1"
  using phi_symmetric [of 1] by simp

end
