(* ===== verification/Display.thy ===== *)
theory Display
  imports Prelude
begin

text \<open>
  The output of both programs: \<open>std::cout << std::fixed << std::setprecision(4) << x\<close>
  prints a \<open>double\<close> as an optional minus sign (for every negative value, also one
  that rounds to zero), the integer part in decimal, a point and exactly four decimals,
  the value rounded to the nearest multiple of \<open>10\<^sup>-\<^sup>4\<close> with ties to even
  (\<open>fixed4\<close>). The grid is printed as numbers each followed by a blank
  (\<open>print_grid\<close>), the matrix row by row, entries separated by blanks and each row
  ended by a newline (\<open>print_matrix\<close>); every element is read with the index checks
  of the arrays. \<open>read_fixed\<close> reads such a number back; the lemmas show that reading
  the printed text gives exactly the rounded value, which is within \<open>0.00005\<close> of the
  value printed.
\<close>

definition digit_char :: "nat \<Rightarrow> char" where
  "digit_char d = ''0123456789'' ! d"

fun string_of_nat :: "nat \<Rightarrow> string" where
  "string_of_nat n = (if n < 10 then [digit_char n]
     else string_of_nat (n div 10) @ [digit_char (n mod 10)])"

declare string_of_nat.simps [simp del]

definition pad4 :: "nat \<Rightarrow> string" where
  "pad4 r = (if r < 10 then ''000'' else if r < 100 then ''00'' else if r < 1000 then ''0'' else [])
              @ string_of_nat r"

text \<open>Rounding to the nearest integer, halfway cases to the even neighbour.\<close>

definition round_half_even :: "real \<Rightarrow> int" where
  "round_half_even y =
     (let f = \<lfloor>y\<rfloor>; r = y - of_int f
      in if r < 1 / 2 then f else if 1 / 2 < r then f + 1 else if even f then f else f + 1)"

definition fixed4 :: "real \<Rightarrow> string" where
  "fixed4 x =
     (let k = nat (round_half_even (\<bar>x\<bar> * 10000))
      in (if x < 0 then ''-'' else []) @ string_of_nat (k div 10000) @ ''.'' @ pad4 (k mod 10000))"

definition nl :: char where
  "nl = CHR ''\<newline>''"

text \<open>Reading a printed number back.\<close>

definition is_digit :: "char \<Rightarrow> bool" where
  "is_digit c \<longleftrightarrow> c \<in> set ''0123456789''"

definition digit_of :: "char \<Rightarrow> nat" where
  "digit_of c = length (takeWhile (\<lambda>x. x \<noteq> c) ''0123456789'')"

definition digits_val :: "string \<Rightarrow> nat option" where
  "digits_val s =
     (if s \<noteq> [] \<and> list_all is_digit s then Some (foldl (\<lambda>a c. 10 * a + digit_of c) 0 s) else None)"

definition read_unsigned :: "string \<Rightarrow> real option" where
  "read_unsigned t =
     (let ip = takeWhile (\<lambda>c. c \<noteq> CHR ''.'') t; fp = drop (Suc (length ip)) t
      in case (digits_val ip, digits_val fp) of
           (Some a, Some b) \<Rightarrow> Some (real a + real b / 10 ^ length fp)
         | _ \<Rightarrow> None)"

definition read_fixed :: "string \<Rightarrow> real option" where
  "read_fixed s =
     (if s \<noteq> [] \<and> hd s = CHR ''-'' then map_option uminus (read_unsigned (tl s)) else read_unsigned s)"

text \<open>The value the printed text stands for.\<close>

definition round4 :: "real \<Rightarrow> real" where
  "round4 x = (if x < 0 then -1 else 1) * real (nat (round_half_even (\<bar>x\<bar> * 10000))) / 10000"

text \<open>The loops of the display, with their checked element reads.\<close>

primrec mapE :: "('a \<Rightarrow> 'b result) \<Rightarrow> 'a list \<Rightarrow> 'b list result" where
  "mapE f [] = Inr []"
| "mapE f (x # xs) = bindE (f x) (\<lambda>y. bindE (mapE f xs) (\<lambda>ys. Inr (y # ys)))"

definition mat_get :: "mat \<Rightarrow> int \<Rightarrow> int \<Rightarrow> real result" where
  "mat_get M i j = (if 0 \<le> i \<and> i < int (length M) then arr_get (M ! nat i) j else Inl IndexOutOfRange)"

definition print_grid :: "int \<Rightarrow> vec \<Rightarrow> string result" where
  "print_grid N v =
     bindE (mapE (\<lambda>i. bindE (arr_get v (int i)) (\<lambda>x. Inr (fixed4 x @ '' ''))) [0..<nat N])
       (\<lambda>ss. Inr (concat ss))"

definition print_matrix :: "int \<Rightarrow> mat \<Rightarrow> string result" where
  "print_matrix N M =
     bindE (mapE (\<lambda>i. mapE (\<lambda>j. bindE (mat_get M (int i) (int j)) (\<lambda>x.
              Inr (fixed4 x @ [if int j = N - 1 then nl else CHR '' '']))) [0..<nat N]) [0..<nat N])
       (\<lambda>ss. Inr (concat (map concat ss)))"

definition print_chain :: "int \<Rightarrow> markov_chain \<Rightarrow> string result" where
  "print_chain N c =
     bindE (print_grid N (mc_grid c)) (\<lambda>g.
     bindE (print_matrix N (mc_trans c)) (\<lambda>t.
     Inr (''Grids are'' @ [nl] @ g @ [nl, CHR '' '', nl] @ ''Transition Prob Matrix is '' @ [nl] @ t)))"

text \<open>The text of a row and of the whole output, and reading it back.\<close>

definition row_text :: "vec \<Rightarrow> string" where
  "row_text r = concat (map (\<lambda>x. fixed4 x @ '' '') (butlast r)) @ fixed4 (last r)"

definition chain_text :: "vec \<Rightarrow> mat \<Rightarrow> string" where
  "chain_text v M = ''Grids are'' @ [nl] @ concat (map (\<lambda>x. fixed4 x @ '' '') v) @ [nl, CHR '' '', nl]
     @ ''Transition Prob Matrix is '' @ [nl] @ concat (map (\<lambda>r. row_text r @ [nl]) M)"

fun split_on :: "char \<Rightarrow> string \<Rightarrow> string list" where
  "split_on c [] = [[]]"
| "split_on c (x # xs) =
     (if x = c then [] # split_on c xs else (case split_on c xs of w # ws \<Rightarrow> (x # w) # ws | [] \<Rightarrow> [[x]]))"

definition read_chain :: "string \<Rightarrow> (vec \<times> mat) option" where
  "read_chain s =
     (case split_on nl s of
        h # g # b # t # rows \<Rightarrow>
          (case (those (map read_fixed (butlast (split_on (CHR '' '') g))),
                 those (map (\<lambda>r. those (map read_fixed (split_on (CHR '' '') r))) (butlast rows))) of
             (Some v, Some M) \<Rightarrow> Some (v, M)
           | _ \<Rightarrow> None)
      | _ \<Rightarrow> None)"

subsection \<open>Printing decimal digits\<close>

lemma string_of_nat_digit [simp]: "n < 10 \<Longrightarrow> string_of_nat n = [digit_char n]"
  by (simp add: string_of_nat.simps)

lemma string_of_nat_more [simp]:
  "10 \<le> n \<Longrightarrow> string_of_nat n = string_of_nat (n div 10) @ [digit_char (n mod 10)]"
  by (simp add: string_of_nat.simps)

lemma digit_char_cases:
  fixes d :: nat
  shows "d < 10 \<Longrightarrow> d = 0 \<or> d = 1 \<or> d = 2 \<or> d = 3 \<or> d = 4 \<or> d = 5 \<or> d = 6 \<or> d = 7 \<or> d = 8 \<or> d = 9"
  by arith

lemma is_digit_digit_char [simp]: "d < 10 \<Longrightarrow> is_digit (digit_char d)"
  unfolding is_digit_def digit_char_def by (rule nth_mem) simp

lemma digit_of_digit_char [simp]: "d < 10 \<Longrightarrow> digit_of (digit_char d) = d"
  by (drule digit_char_cases) (auto simp: digit_of_def digit_char_def)

lemma not_digit_point [simp]: "\<not> is_digit (CHR ''.'')" "\<not> is_digit (CHR ''-'')"
  by (simp_all add: is_digit_def)

lemma string_of_nat_digits: "list_all is_digit (string_of_nat n) \<and> string_of_nat n \<noteq> []"
  by (induction n rule: string_of_nat.induct) (simp add: string_of_nat.simps)

lemma foldl_string_of_nat: "foldl (\<lambda>a c. 10 * a + digit_of c) 0 (string_of_nat n) = n"
  by (induction n rule: string_of_nat.induct) (simp add: string_of_nat.simps)

lemma digits_val_string_of_nat [simp]: "digits_val (string_of_nat n) = Some n"
  using string_of_nat_digits [of n] by (simp add: digits_val_def foldl_string_of_nat)

lemma length_string_of_nat:
  "n < 10 ^ Suc k \<Longrightarrow> k = 0 \<or> 10 ^ k \<le> n \<Longrightarrow> length (string_of_nat n) = Suc k"
proof (induction k arbitrary: n)
  case 0
  then show ?case by simp
next
  case (Suc k)
  then have n: "10 ^ Suc k \<le> n" by simp
  moreover have "10 \<le> (10::nat) ^ Suc k" by simp
  ultimately have "10 \<le> n" by (rule order_trans [rotated])
  moreover have "n div 10 < 10 ^ Suc k" using Suc.prems(1) by (simp add: div_less_iff_less_mult mult.commute)
  moreover have "10 ^ k \<le> n div 10" using div_le_mono [OF n, of 10] by simp
  ultimately show ?case using Suc.IH [of "n div 10"] by simp
qed

lemma pad4_props:
  assumes "r < 10000"
  shows "length (pad4 r) = 4 \<and> digits_val (pad4 r) = Some r \<and> list_all is_digit (pad4 r)"
proof -
  let ?f = "\<lambda>a c. 10 * a + digit_of c"
  have z: "digit_of (CHR ''0'') = 0" "is_digit (CHR ''0'')" by (simp_all add: digit_of_def is_digit_def)
  have l: "length (string_of_nat r) = (if r < 10 then 1 else if r < 100 then 2 else if r < 1000 then 3 else 4)"
    using length_string_of_nat [of r 0] length_string_of_nat [of r 1] length_string_of_nat [of r 2]
      length_string_of_nat [of r 3] assms by simp
  have "foldl ?f 0 (pad4 r) = foldl ?f 0 (string_of_nat r)"
    by (simp add: pad4_def z)
  then show ?thesis using l string_of_nat_digits [of r]
    by (simp add: pad4_def digits_val_def foldl_string_of_nat z)
qed

lemma digits_no_point: "list_all is_digit s \<Longrightarrow> takeWhile (\<lambda>c. c \<noteq> CHR ''.'') (s @ CHR ''.'' # t) = s"
  by (induction s) auto

lemma round_half_even_near: "\<bar>of_int (round_half_even y) - y\<bar> \<le> 1 / 2"
proof -
  have "of_int \<lfloor>y\<rfloor> \<le> y" "y < of_int \<lfloor>y\<rfloor> + 1" by linarith+
  then show ?thesis
    unfolding round_half_even_def Let_def by (simp split: if_split add: abs_le_iff)
qed

lemma round_half_even_nonneg: "0 \<le> y \<Longrightarrow> 0 \<le> round_half_even y"
  unfolding round_half_even_def Let_def by simp

lemma read_unsigned_digits:
  "list_all is_digit ds \<Longrightarrow> read_unsigned (ds @ CHR ''.'' # fs) =
     (case (digits_val ds, digits_val fs) of (Some a, Some b) \<Rightarrow> Some (real a + real b / 10 ^ length fs)
      | _ \<Rightarrow> None)"
  by (simp add: read_unsigned_def digits_no_point)

lemma read_fixed_fixed4: "read_fixed (fixed4 x) = Some (round4 x)"
proof -
  define k where "k = nat (round_half_even (\<bar>x\<bar> * 10000))"
  define q where "q = k div 10000"
  define r where "r = k mod 10000"
  have P: "length (pad4 r) = 4" "digits_val (pad4 r) = Some r"
    using pad4_props [of r] by (simp_all add: r_def)
  have D: "list_all is_digit (string_of_nat q)" "string_of_nat q \<noteq> []"
    using string_of_nat_digits [of q] by simp_all
  have hd: "hd (string_of_nat q @ CHR ''.'' # pad4 r) \<noteq> CHR ''-''"
    using D by (cases "string_of_nat q") auto
  have U: "read_unsigned (string_of_nat q @ CHR ''.'' # pad4 r) = Some (real k / 10000)"
  proof -
    have "k = q * 10000 + r" by (simp add: q_def r_def)
    then have "real q + real r / 10 ^ 4 = real k / 10000" by simp
    then show ?thesis using P by (simp add: read_unsigned_digits [OF D(1)])
  qed
  have f: "fixed4 x = (if x < 0 then CHR ''-'' # (string_of_nat q @ CHR ''.'' # pad4 r)
                      else string_of_nat q @ CHR ''.'' # pad4 r)"
    by (simp add: fixed4_def k_def q_def r_def Let_def)
  have R: "round4 x = (if x < 0 then -1 else 1) * real k / 10000" by (simp add: round4_def k_def)
  show ?thesis
    using hd U by (cases "x < 0") (simp_all add: f read_fixed_def R)
qed

lemma round4_near: "\<bar>round4 x - x\<bar> \<le> 1 / 20000"
proof -
  have k: "real (nat (round_half_even (\<bar>x\<bar> * 10000))) = of_int (round_half_even (\<bar>x\<bar> * 10000))"
    using round_half_even_nonneg [of "\<bar>x\<bar> * 10000"] by simp
  have "\<bar>of_int (round_half_even (\<bar>x\<bar> * 10000)) - \<bar>x\<bar> * 10000\<bar> \<le> 1 / 2"
    by (rule round_half_even_near)
  then have e: "\<bar>real (nat (round_half_even (\<bar>x\<bar> * 10000))) / 10000 - \<bar>x\<bar>\<bar> \<le> 1 / 20000"
    unfolding k by (simp add: abs_le_iff field_simps)
  show ?thesis
  proof (cases "x < 0")
    case True
    then have "round4 x - x = - (real (nat (round_half_even (\<bar>x\<bar> * 10000))) / 10000 - \<bar>x\<bar>)"
      by (simp add: round4_def)
    then show ?thesis using e by (simp only: abs_minus_cancel)
  next
    case False
    then have "round4 x - x = real (nat (round_half_even (\<bar>x\<bar> * 10000))) / 10000 - \<bar>x\<bar>"
      by (simp add: round4_def)
    then show ?thesis using e by (simp only:)
  qed
qed

lemma round_half_even_eqI:
  assumes "of_int k - 1 / 2 < y" "y < of_int k + 1 / 2"
  shows "round_half_even y = k"
proof (cases "of_int k \<le> y")
  case True
  then have "\<lfloor>y\<rfloor> = k" using assms by (intro floor_unique) simp_all
  then show ?thesis using assms by (simp add: round_half_even_def Let_def)
next
  case False
  then have "\<lfloor>y\<rfloor> = k - 1" using assms by (intro floor_unique) simp_all
  then show ?thesis using assms False by (simp add: round_half_even_def Let_def)
qed

lemma fixed4_eqI:
  assumes "of_int k - 1 / 2 < \<bar>x\<bar> * 10000" "\<bar>x\<bar> * 10000 < of_int k + 1 / 2"
  shows "fixed4 x = (if x < 0 then ''-'' else []) @ string_of_nat (nat k div 10000) @ ''.'' @ pad4 (nat k mod 10000)"
  using round_half_even_eqI [OF assms] by (simp add: fixed4_def Let_def)

subsection \<open>The display loops\<close>

lemma mapE_Inr: "(\<And>x. x \<in> set xs \<Longrightarrow> f x = Inr (g x)) \<Longrightarrow> mapE f xs = Inr (map g xs)"
  by (induction xs) simp_all

lemma map_upt_nth: "length v = n \<Longrightarrow> map (\<lambda>i. f (v ! i)) [0..<n] = map f v"
  by (rule nth_equalityI) simp_all

lemma print_grid_ok:
  assumes "length v = nat N"
  shows "print_grid N v = Inr (concat (map (\<lambda>x. fixed4 x @ '' '') v))"
proof -
  have "mapE (\<lambda>i. bindE (arr_get v (int i)) (\<lambda>x. Inr (fixed4 x @ '' ''))) [0..<nat N]
      = Inr (map (\<lambda>i. fixed4 (v ! i) @ '' '') [0..<nat N])"
    by (rule mapE_Inr) (use assms in simp)
  then show ?thesis using map_upt_nth [OF assms, of "\<lambda>x. fixed4 x @ '' ''"] by (simp add: print_grid_def)
qed

lemma row_loop_text:
  assumes "length r = n" "0 < n"
  shows "concat (map (\<lambda>j. fixed4 (r ! j) @ [if j = n - 1 then nl else CHR '' '']) [0..<n]) = row_text r @ [nl]"
proof -
  have u: "[0..<n] = [0..<n - 1] @ [n - 1]" using assms(2) by (metis Suc_diff_1 upt_Suc_append zero_le)
  have "map (\<lambda>j. fixed4 (r ! j) @ [if j = n - 1 then nl else CHR '' '']) [0..<n - 1]
      = map (\<lambda>x. fixed4 x @ '' '') (butlast r)"
    using assms(1) by (intro nth_equalityI) (simp_all add: nth_butlast)
  moreover have "r \<noteq> []" using assms by auto
  then have "r ! (n - 1) = last r" using assms(1) by (simp add: last_conv_nth)
  ultimately show ?thesis by (simp add: u row_text_def)
qed

lemma print_matrix_ok:
  assumes "is_mat (nat N) (nat N) M" "0 < N"
  shows "print_matrix N M = Inr (concat (map (\<lambda>r. row_text r @ [nl]) M))"
proof -
  let ?n = "nat N"
  let ?row = "\<lambda>i. map (\<lambda>j. fixed4 (M ! i ! j) @ [if j = ?n - 1 then nl else CHR '' '']) [0..<?n]"
  have l: "length M = ?n" "\<And>i. i < ?n \<Longrightarrow> length (M ! i) = ?n" using assms(1) by (simp_all add: is_mat_def)
  have e: "\<And>j. (int j = N - 1) = (j = ?n - 1)" using assms(2) by auto
  have "mapE (\<lambda>i. mapE (\<lambda>j. bindE (mat_get M (int i) (int j)) (\<lambda>x.
              Inr (fixed4 x @ [if int j = N - 1 then nl else CHR '' '']))) [0..<?n]) [0..<?n]
      = Inr (map ?row [0..<?n])"
    using l assms(2) by (intro mapE_Inr) (auto simp: mat_get_def e)
  moreover have "map (\<lambda>i. concat (?row i)) [0..<?n] = map (\<lambda>r. row_text r @ [nl]) M"
  proof -
    have "map (\<lambda>i. concat (?row i)) [0..<?n] = map (\<lambda>i. row_text (M ! i) @ [nl]) [0..<?n]"
      using l(2) assms(2) by (intro map_cong refl row_loop_text) simp_all
    then show ?thesis using map_upt_nth [OF l(1), of "\<lambda>r. row_text r @ [nl]"] by simp
  qed
  ultimately show ?thesis by (simp add: print_matrix_def comp_def)
qed

lemma print_chain_ok:
  assumes "length (mc_grid c) = nat N" "is_mat (nat N) (nat N) (mc_trans c)" "0 < N"
  shows "print_chain N c = Inr (chain_text (mc_grid c) (mc_trans c))"
  using assms by (simp add: print_chain_def print_grid_ok print_matrix_ok chain_text_def)

subsection \<open>Reading the output back\<close>

lemma split_on_append: "c \<notin> set w \<Longrightarrow> split_on c (w @ c # rest) = w # split_on c rest"
  by (induction w) auto

lemma split_on_no_sep: "c \<notin> set w \<Longrightarrow> split_on c w = [w]"
  by (induction w) auto

lemma split_on_concat:
  "(\<And>x. x \<in> set xs \<Longrightarrow> c \<notin> set (f x)) \<Longrightarrow>
     split_on c (concat (map (\<lambda>x. f x @ [c]) xs) @ w) = map f xs @ split_on c w"
  by (induction xs) (simp_all add: split_on_append)

lemma digits_not_in: "list_all is_digit s \<Longrightarrow> \<not> is_digit c \<Longrightarrow> c \<notin> set s"
  by (auto simp: list_all_iff)

lemma fixed4_chars: "\<not> is_digit c \<Longrightarrow> c \<noteq> CHR ''-'' \<Longrightarrow> c \<noteq> CHR ''.'' \<Longrightarrow> c \<notin> set (fixed4 x)"
  using digits_not_in [OF conjunct1 [OF string_of_nat_digits]] digits_not_in [OF conjunct2 [OF conjunct2 [OF pad4_props]]]
  by (auto simp: fixed4_def Let_def)

lemma blank_nl_not_digit: "\<not> is_digit (CHR '' '')" "\<not> is_digit nl"
  unfolding is_digit_def nl_def by code_simp+

lemma nl_char: "nl \<noteq> CHR ''-''" "nl \<noteq> CHR ''.''" "nl \<noteq> CHR '' ''"
  by (simp_all add: nl_def)

lemma fixed4_no_blank: "CHR '' '' \<notin> set (fixed4 x)" "nl \<notin> set (fixed4 x)"
  by (rule fixed4_chars, simp_all add: blank_nl_not_digit nl_char)+

lemma those_map_Some: "those (map (\<lambda>x. Some (f x)) xs) = Some (map f xs)"
  by (induction xs) simp_all

lemma read_fixed_map: "those (map (\<lambda>x. read_fixed (fixed4 x)) v) = Some (map round4 v)"
  by (simp add: read_fixed_fixed4 those_map_Some)

lemma split_row_text: "r \<noteq> [] \<Longrightarrow> split_on (CHR '' '') (row_text r) = map fixed4 r"
proof -
  assume "r \<noteq> []"
  then have "r = butlast r @ [last r]" by simp
  then have "map fixed4 r = map fixed4 (butlast r) @ [fixed4 (last r)]" by (metis map_append list.map)
  then show ?thesis
    using split_on_concat [of "butlast r" "CHR '' ''" fixed4 "fixed4 (last r)"]
    by (simp add: row_text_def split_on_no_sep fixed4_no_blank)
qed

lemma no_nl_grid: "nl \<notin> set (concat (map (\<lambda>x. fixed4 x @ '' '') v))"
  using nl_char by (auto simp: fixed4_no_blank)

lemma no_nl_row: "nl \<notin> set (row_text r)"
  using nl_char by (auto simp: row_text_def fixed4_no_blank)

lemma read_chain_text:
  assumes "\<And>r. r \<in> set M \<Longrightarrow> r \<noteq> []"
  shows "read_chain (chain_text v M) = Some (map round4 v, map (map round4) M)"
proof -
  let ?G = "concat (map (\<lambda>x. fixed4 x @ '' '') v)"
  have lines: "split_on nl (chain_text v M)
      = ''Grids are'' # ?G # '' '' # ''Transition Prob Matrix is '' # (map row_text M @ [[]])"
    using split_on_concat [of M nl row_text "[]"] no_nl_row no_nl_grid
    by (simp add: chain_text_def split_on_append nl_def)
  have g: "split_on (CHR '' '') ?G = map fixed4 v @ [[]]"
    using split_on_concat [of v "CHR '' ''" fixed4 "[]"] by (simp add: fixed4_no_blank)
  have rows: "those (map (\<lambda>r. those (map read_fixed (split_on (CHR '' '') r))) (map row_text M))
      = Some (map (map round4) M)"
  proof -
    have "map (\<lambda>r. those (map read_fixed (split_on (CHR '' '') r))) (map row_text M)
        = map (\<lambda>r. Some (map round4 r)) M"
      using assms by (simp add: split_row_text read_fixed_map comp_def)
    then show ?thesis by (simp only: those_map_Some)
  qed
  show ?thesis using lines g rows by (simp add: read_chain_def read_fixed_map comp_def)
qed

text \<open>
  Printing and reading back: the text \<open>fixed4 x\<close> that \<open>std::fixed\<close> with precision 4
  prints reads back as the value rounded to four decimals, and that value is within
  \<open>0.00005\<close> of \<open>x\<close>.
\<close>

lemma fixed4_roundtrip: "read_fixed (fixed4 x) = Some (round4 x) \<and> \<bar>round4 x - x\<bar> \<le> 1 / 20000"
  by (rule conjI [OF read_fixed_fixed4 round4_near])

end
