(* ===== verification/Tauchen.thy ===== *)
theory Tauchen
  imports NormalCDF Display
begin

text \<open>
  Tauchen's method, \<^verbatim>\<open>src/tauchen.cpp\<close> lines 40--88. The parameters \<open>N, m, rho,
  sig_e\<close> of lines 40--43 are arguments; \<open>N\<close> is the C \<open>int\<close>. Section 2 of the code
  (lines 50--62) computes \<open>sig_z\<close>, the end points and the step \<open>d\<close>, writes both
  ends of the grid array \<open>vZ\<close> and fills the interior by \<open>vZ[i] = vZ[i-1] + d\<close>
  (\<open>grid_fill\<close>); section 3 (lines 68--88) fills \<open>mPI[i][j]\<close> in two nested loops
  (\<open>fill_rows\<close>, \<open>fill_row\<close>) with the entry of lines 74--85 (\<open>tauchen_entry\<close>).
  Every division and every array access is checked (see \<open>Prelude\<close>), so a run is
  \<open>Inl\<close> exactly where the C program would print non-numbers or access out of range.
  \<open>tauchen_grid\<close> and \<open>tauchen_prob\<close> are the closed forms of the spec (4.2, steps
  3--4); the lemmas show that the loops compute them, when the run fails, and that
  the matrix is row-stochastic.
\<close>

subsection \<open>The loops of the code\<close>

function grid_fill :: "real \<Rightarrow> int \<Rightarrow> nat \<Rightarrow> vec \<Rightarrow> vec result" where
  "grid_fill d N i vZ =
     (if int i < N - 1 then
        bindE (arr_get vZ (int i - 1)) (\<lambda>prev.
        bindE (arr_set vZ (int i) (prev + d)) (\<lambda>vZ'.
        grid_fill d N (Suc i) vZ'))
      else Inr vZ)"
  by pat_completeness auto
termination
  by (relation "measure (\<lambda>(d, N, i, vZ). nat (N - 1 - int i))") auto

definition tauchen_entry :: "real \<Rightarrow> real \<Rightarrow> vec \<Rightarrow> real \<Rightarrow> int \<Rightarrow> int \<Rightarrow> int \<Rightarrow> real result" where
  "tauchen_entry rho sig_e vZ d N i j =
     bindE (arr_get vZ i) (\<lambda>zi.
     (if j = 0 then
        bindE (arr_get vZ 0) (\<lambda>z0.
        bindE (fdiv (z0 + d / 2 - rho * zi) sig_e) (\<lambda>a. Inr (phi a)))
      else if j = N - 1 then
        bindE (arr_get vZ (N - 1)) (\<lambda>zn.
        bindE (fdiv (zn - d / 2 - rho * zi) sig_e) (\<lambda>a. Inr (1 - phi a)))
      else
        bindE (arr_get vZ j) (\<lambda>zj.
        bindE (fdiv (zj + d / 2 - rho * zi) sig_e) (\<lambda>a.
        bindE (fdiv (zj - d / 2 - rho * zi) sig_e) (\<lambda>b. Inr (phi a - phi b))))))"

function fill_row :: "real \<Rightarrow> real \<Rightarrow> vec \<Rightarrow> real \<Rightarrow> int \<Rightarrow> nat \<Rightarrow> nat \<Rightarrow> mat \<Rightarrow> mat result" where
  "fill_row rho sig_e vZ d N i j mPI =
     (if int j < N then
        bindE (tauchen_entry rho sig_e vZ d N (int i) (int j)) (\<lambda>v.
        bindE (mat_set mPI (int i) (int j) v) (\<lambda>mPI'.
        fill_row rho sig_e vZ d N i (Suc j) mPI'))
      else Inr mPI)"
  by pat_completeness auto
termination
  by (relation "measure (\<lambda>(rho, sig_e, vZ, d, N, i, j, mPI). nat (N - int j))") auto

function fill_rows :: "real \<Rightarrow> real \<Rightarrow> vec \<Rightarrow> real \<Rightarrow> int \<Rightarrow> nat \<Rightarrow> mat \<Rightarrow> mat result" where
  "fill_rows rho sig_e vZ d N i mPI =
     (if int i < N then
        bindE (fill_row rho sig_e vZ d N i 0 mPI) (\<lambda>mPI'.
        fill_rows rho sig_e vZ d N (Suc i) mPI')
      else Inr mPI)"
  by pat_completeness auto
termination
  by (relation "measure (\<lambda>(rho, sig_e, vZ, d, N, i, mPI). nat (N - int i))") auto

declare grid_fill.simps [simp del] fill_row.simps [simp del] fill_rows.simps [simp del]

subsection \<open>The whole program\<close>

definition tauchen :: "int \<Rightarrow> real \<Rightarrow> real \<Rightarrow> real \<Rightarrow> markov_chain result" where
  "tauchen N m rho sig_e =
     bindE (fdiv (sig_e ^ 2) (1 - rho ^ 2)) (\<lambda>var_z.
     bindE (fsqrt var_z) (\<lambda>sig_z.
     (let z_max = m * sig_z; z_min = - z_max in
     bindE (fdiv (z_max - z_min) (real_of_int (N - 1))) (\<lambda>d.
     bindE (alloc_vec N) (\<lambda>vZ0.
     bindE (arr_set vZ0 0 z_min) (\<lambda>vZ1.
     bindE (arr_set vZ1 (N - 1) z_max) (\<lambda>vZ2.
     bindE (grid_fill d N 1 vZ2) (\<lambda>vZ.
     bindE (alloc_mat N N) (\<lambda>mPI0.
     bindE (fill_rows rho sig_e vZ d N 0 mPI0) (\<lambda>mPI.
     Inr \<lparr>mc_grid = vZ, mc_trans = mPI\<rparr>))))))))))"

text \<open>The program with its display (lines 94--114): the run, then the printing loops.\<close>

definition tauchen_output :: "int \<Rightarrow> real \<Rightarrow> real \<Rightarrow> real \<Rightarrow> string result" where
  "tauchen_output N m rho sig_e = bindE (tauchen N m rho sig_e) (print_chain N)"

text \<open>
  \<open>main\<close> itself (lines 30--117): the parameters of lines 39--42, the run, the display;
  its result is the text it writes to \<open>std::cout\<close> before \<open>return 0\<close>.
\<close>

definition tauchen_main :: "string result" where
  "tauchen_main = tauchen_output 5 3 0.95 0.007"

subsection \<open>The closed forms of the spec\<close>

definition tauchen_grid :: "nat \<Rightarrow> real \<Rightarrow> real \<Rightarrow> vec" where
  "tauchen_grid n z_min d = map (\<lambda>k. z_min + real k * d) [0..<n]"

definition tauchen_prob :: "real \<Rightarrow> real \<Rightarrow> vec \<Rightarrow> real \<Rightarrow> nat \<Rightarrow> nat \<Rightarrow> nat \<Rightarrow> real" where
  "tauchen_prob rho sig_e vZ d n i j =
     (if j = 0 then phi ((vZ ! 0 + d / 2 - rho * vZ ! i) / sig_e)
      else if j = n - 1 then 1 - phi ((vZ ! (n - 1) - d / 2 - rho * vZ ! i) / sig_e)
      else phi ((vZ ! j + d / 2 - rho * vZ ! i) / sig_e)
         - phi ((vZ ! j - d / 2 - rho * vZ ! i) / sig_e))"

definition tauchen_spec :: "int \<Rightarrow> real \<Rightarrow> real \<Rightarrow> real \<Rightarrow> markov_chain" where
  "tauchen_spec N m rho sig_e =
     (let n = nat N; z_max = m * sqrt (sig_e ^ 2 / (1 - rho ^ 2));
          d = (z_max - - z_max) / real_of_int (N - 1); vZ = tauchen_grid n (- z_max) d
      in \<lparr>mc_grid = vZ, mc_trans = mat_of n n (tauchen_prob rho sig_e vZ d n)\<rparr>)"

text \<open>The probability of moving from \<open>z\<^sub>i\<close> to a point at most \<open>z\<^sub>j\<close> in the closed form.\<close>

definition tauchen_cdf :: "real \<Rightarrow> real \<Rightarrow> real \<Rightarrow> real \<Rightarrow> nat \<Rightarrow> nat \<Rightarrow> real" where
  "tauchen_cdf rho sig_e z0 d i j = phi ((z0 + real j * d + d / 2 - rho * (z0 + real i * d)) / sig_e)"

subsection \<open>The loops compute the closed forms\<close>

lemma grid_fill_step:
  assumes "int i < N - 1" "1 \<le> i" "i < length vZ" "vZ ! (i - 1) + d = v"
  shows "grid_fill d N i vZ = grid_fill d N (Suc i) (vZ[i := v])"
  using assms by (simp add: grid_fill.simps [of d N i vZ] arr_get_def nat_diff_distrib)

lemma grid_fill_stop:
  assumes "\<not> int i < N - 1" "int i \<le> N - 1" "length vZ = nat N"
    and "\<forall>k<i. vZ ! k = z0 + real k * d"
  shows "grid_fill d N i vZ =
           Inr (map (\<lambda>k. if k < nat N - 1 then z0 + real k * d else vZ ! k) [0..<nat N])"
proof -
  have "i = nat N - 1" using assms by linarith
  then have "vZ = map (\<lambda>k. if k < nat N - 1 then z0 + real k * d else vZ ! k) [0..<nat N]"
    using assms(3,4) by (intro nth_equalityI) auto
  then show ?thesis using assms(1) by (simp add: grid_fill.simps [of d N i vZ])
qed

lemma grid_fill_eq:
  assumes "length vZ = nat N" "1 \<le> i" "int i \<le> N - 1"
    and "\<forall>k<i. vZ ! k = z0 + real k * d"
  shows "grid_fill d N i vZ =
           Inr (map (\<lambda>k. if k < nat N - 1 then z0 + real k * d else vZ ! k) [0..<nat N])"
  using assms
proof (induction d N i vZ rule: grid_fill.induct)
  case (1 d N i vZ)
  show ?case
  proof (cases "int i < N - 1")
    case True
    let ?vZ' = "vZ[i := z0 + real i * d]"
    have lt: "i < length vZ" using True "1.prems"(1) by linarith
    have prev: "vZ ! (i - 1) + d = z0 + real i * d"
      using "1.prems"(2,4) by (simp add: of_nat_diff algebra_simps)
    have "\<forall>k<Suc i. ?vZ' ! k = z0 + real k * d"
      using lt "1.prems"(4) by (auto simp: nth_list_update less_Suc_eq)
    moreover have get: "arr_get vZ (int i - 1) = Inr (vZ ! (i - 1))"
      using lt "1.prems"(2) by (simp add: arr_get_def nat_diff_distrib)
    moreover have set: "arr_set vZ (int i) (vZ ! (i - 1) + d) = Inr ?vZ'"
      using lt prev by simp
    ultimately have "grid_fill d N (Suc i) ?vZ' =
        Inr (map (\<lambda>k. if k < nat N - 1 then z0 + real k * d else ?vZ' ! k) [0..<nat N])"
      using True "1.prems"(1) by (intro "1.IH" [OF True get set]) simp_all
    also have "map (\<lambda>k. if k < nat N - 1 then z0 + real k * d else ?vZ' ! k) [0..<nat N]
        = map (\<lambda>k. if k < nat N - 1 then z0 + real k * d else vZ ! k) [0..<nat N]"
      using True by (intro map_cong) auto
    finally show ?thesis
      using grid_fill_step [OF True "1.prems"(2) lt prev] by simp
  next
    case False
    then show ?thesis using "1.prems" by (intro grid_fill_stop) simp_all
  qed
qed

lemma tauchen_entry_eq:
  assumes "length vZ = n" "i < n" "j < n" "sig_e \<noteq> 0"
  shows "tauchen_entry rho sig_e vZ d (int n) (int i) (int j) = Inr (tauchen_prob rho sig_e vZ d n i j)"
proof -
  have last: "arr_get vZ (int n - 1) = Inr (vZ ! (n - 1))"
    using assms by (simp add: arr_get_def nat_diff_distrib)
  have "int j = int n - 1 \<longleftrightarrow> j = n - 1" using assms(3) by linarith
  moreover have "arr_get vZ 0 = Inr (vZ ! 0)" using assms by (simp add: arr_get_def)
  ultimately show ?thesis using assms last
    by (simp add: tauchen_entry_def tauchen_prob_def)
qed


lemma fill_row_eq:
  assumes "M = mat_of n n f" "N = int n" "i < n" "length vZ = n" "sig_e \<noteq> 0"
  shows "fill_row rho sig_e vZ d N i j M =
    Inr (mat_of n n (\<lambda>a b. if a = i \<and> j \<le> b then tauchen_prob rho sig_e vZ d n a b else f a b))"
  using assms
proof (induction rho sig_e vZ d N i j M arbitrary: f rule: fill_row.induct)
  case (1 rho sig_e vZ d N i j M f)
  let ?P = "tauchen_prob rho sig_e vZ d n"
  show ?case
  proof (cases "int j < N")
    case True
    let ?f' = "\<lambda>a b. if a = i \<and> b = j then ?P i j else f a b"
    have j: "j < n" using True "1.prems"(2) by simp
    have entry: "tauchen_entry rho sig_e vZ d N (int i) (int j) = Inr (?P i j)"
      using "1.prems" j by (simp add: tauchen_entry_eq)
    have set: "mat_set M (int i) (int j) (?P i j) = Inr (mat_of n n ?f')"
      using "1.prems"(1,3) j by (simp add: mat_set_mat_of)
    have "fill_row rho sig_e vZ d N i j M = fill_row rho sig_e vZ d N i (Suc j) (mat_of n n ?f')"
      using True entry set by (simp add: fill_row.simps [of rho sig_e vZ d N i j])
    also have "\<dots> = Inr (mat_of n n (\<lambda>a b. if a = i \<and> Suc j \<le> b then ?P a b else ?f' a b))"
      using "1.IH" [OF True entry set] "1.prems" by simp
    also have "mat_of n n (\<lambda>a b. if a = i \<and> Suc j \<le> b then ?P a b else ?f' a b)
        = mat_of n n (\<lambda>a b. if a = i \<and> j \<le> b then ?P a b else f a b)"
      by (rule mat_of_cong) auto
    finally show ?thesis .
  next
    case False
    then have "mat_of n n (\<lambda>a b. if a = i \<and> j \<le> b then ?P a b else f a b) = mat_of n n f"
      using "1.prems"(2) by (intro mat_of_cong) auto
    then show ?thesis using False "1.prems"(1) by (simp add: fill_row.simps [of rho sig_e vZ d N i j])
  qed
qed

lemma fill_rows_eq:
  assumes "M = mat_of n n f" "N = int n" "length vZ = n" "sig_e \<noteq> 0"
  shows "fill_rows rho sig_e vZ d N i M =
    Inr (mat_of n n (\<lambda>a b. if i \<le> a then tauchen_prob rho sig_e vZ d n a b else f a b))"
  using assms
proof (induction rho sig_e vZ d N i M arbitrary: f rule: fill_rows.induct)
  case (1 rho sig_e vZ d N i M f)
  let ?P = "tauchen_prob rho sig_e vZ d n"
  show ?case
  proof (cases "int i < N")
    case True
    let ?f' = "\<lambda>a b. if a = i then ?P a b else f a b"
    have row: "fill_row rho sig_e vZ d N i 0 M = Inr (mat_of n n ?f')"
      using True "1.prems" fill_row_eq [of M n f N i vZ sig_e rho d 0] by simp
    have "fill_rows rho sig_e vZ d N i M = fill_rows rho sig_e vZ d N (Suc i) (mat_of n n ?f')"
      using True row by (simp add: fill_rows.simps [of rho sig_e vZ d N i])
    also have "\<dots> = Inr (mat_of n n (\<lambda>a b. if Suc i \<le> a then ?P a b else ?f' a b))"
      using "1.IH" [OF True row] "1.prems" by simp
    also have "mat_of n n (\<lambda>a b. if Suc i \<le> a then ?P a b else ?f' a b)
        = mat_of n n (\<lambda>a b. if i \<le> a then ?P a b else f a b)"
      by (rule mat_of_cong) auto
    finally show ?thesis .
  next
    case False
    then have "mat_of n n (\<lambda>a b. if i \<le> a then ?P a b else f a b) = mat_of n n f"
      using "1.prems"(2) by (intro mat_of_cong) auto
    then show ?thesis using False "1.prems"(1) by (simp add: fill_rows.simps [of rho sig_e vZ d N i])
  qed
qed


lemma tauchen_eq_spec:
  assumes "2 \<le> N" "\<bar>rho\<bar> < 1" "sig_e \<noteq> 0"
  shows "tauchen N m rho sig_e = Inr (tauchen_spec N m rho sig_e)"
proof -
  define n where "n = nat N"
  define z where "z = m * sqrt (sig_e ^ 2 / (1 - rho ^ 2))"
  define d where "d = 2 * z / (real n - 1)"
  define vZ2 where "vZ2 = ((replicate n undefined)[0 := - z])[n - 1 := z]"
  define vZ where "vZ = tauchen_grid n (- z) d"
  have n: "2 \<le> n" "N = int n" using assms(1) by (simp_all add: n_def)
  have rho: "0 < 1 - rho ^ 2" using assms(2) abs_square_less_1 [of rho] by simp
  have s1: "arr_set (replicate n undefined) 0 (- z) = Inr ((replicate n undefined)[0 := - z])"
    using n by (simp add: arr_set_def)
  have s2: "arr_set ((replicate n undefined)[0 := - z]) (N - 1) z = Inr vZ2"
    using n by (simp add: arr_set_def vZ2_def nat_diff_distrib)
  have last: "vZ2 ! (n - 1) = - z + real (n - 1) * d"
    using n by (simp add: vZ2_def d_def of_nat_diff)
  have "grid_fill d N 1 vZ2 =
      Inr (map (\<lambda>k. if k < nat N - 1 then - z + real k * d else vZ2 ! k) [0..<nat N])"
    using n by (intro grid_fill_eq) (simp_all add: vZ2_def)
  also have "map (\<lambda>k. if k < nat N - 1 then - z + real k * d else vZ2 ! k) [0..<nat N] = vZ"
  proof -
    have "\<And>k. k < n \<Longrightarrow> \<not> k < n - 1 \<Longrightarrow> k = n - 1" by arith
    then have "\<And>k. k < n \<Longrightarrow> \<not> k < n - 1 \<Longrightarrow> vZ2 ! k = - z + real k * d"
      using last by blast
    then show ?thesis using n by (auto simp: tauchen_grid_def vZ_def)
  qed
  finally have g: "grid_fill d N 1 vZ2 = Inr vZ" .
  have am: "alloc_mat N N = Inr (mat_of n n (\<lambda>_ _. undefined))"
    using n by (simp add: alloc_mat_def replicate_mat_of)
  have fr: "fill_rows rho sig_e vZ d N 0 (mat_of n n (\<lambda>_ _. undefined))
      = Inr (mat_of n n (tauchen_prob rho sig_e vZ d n))"
    using fill_rows_eq [of "mat_of n n (\<lambda>_ _. undefined)" n _ N vZ sig_e rho d 0] n assms(3)
    by (simp add: vZ_def tauchen_grid_def)
  have "tauchen N m rho sig_e = Inr \<lparr>mc_grid = vZ, mc_trans = mat_of n n (tauchen_prob rho sig_e vZ d n)\<rparr>"
    using rho n s1 s2 g am fr
    by (simp add: tauchen_def alloc_vec_def z_def [symmetric] d_def [symmetric] vZ2_def [symmetric] n_def [symmetric])
  moreover have "real_of_int N = real n" using n by simp
  ultimately show ?thesis
    by (simp add: tauchen_spec_def Let_def z_def [symmetric] d_def vZ_def n_def [symmetric])
qed


lemma tauchen_grid_nth [simp]: "k < n \<Longrightarrow> tauchen_grid n z0 d ! k = z0 + real k * d"
  by (simp add: tauchen_grid_def)

lemma length_tauchen_grid [simp]: "length (tauchen_grid n z0 d) = n"
  by (simp add: tauchen_grid_def)

lemma tauchen_prob_diff:
  assumes "n = Suc (Suc k)" "i < n" "j < n"
  shows "tauchen_prob rho sig_e (tauchen_grid n z0 d) d n i j =
    (if j = 0 then tauchen_cdf rho sig_e z0 d i 0 else if j = Suc k then 1 - tauchen_cdf rho sig_e z0 d i k
     else tauchen_cdf rho sig_e z0 d i j - tauchen_cdf rho sig_e z0 d i (j - 1))"
proof -
  have "z0 + real (Suc k) * d - d / 2 = z0 + real k * d + d / 2" by (simp add: algebra_simps)
  moreover have "0 < j \<Longrightarrow> z0 + real j * d - d / 2 = z0 + real (j - 1) * d + d / 2"
    by (simp add: of_nat_diff algebra_simps)
  ultimately show ?thesis using assms
    by (auto simp: tauchen_prob_def tauchen_cdf_def ac_simps)
qed

lemma tauchen_prob_prefix_sum:
  assumes "n = Suc (Suc k)" "i < n" "J \<le> k"
  shows "(\<Sum>j<Suc J. tauchen_prob rho sig_e (tauchen_grid n z0 d) d n i j) = tauchen_cdf rho sig_e z0 d i J"
proof -
  have "(\<Sum>j<Suc J. tauchen_prob rho sig_e (tauchen_grid n z0 d) d n i j)
      = (\<Sum>j<Suc J. if j = 0 then tauchen_cdf rho sig_e z0 d i 0 else if j = Suc k then 1 - tauchen_cdf rho sig_e z0 d i k
          else tauchen_cdf rho sig_e z0 d i j - tauchen_cdf rho sig_e z0 d i (j - 1))"
    using assms by (intro sum.cong refl tauchen_prob_diff) auto
  also have "\<dots> = tauchen_cdf rho sig_e z0 d i J" using assms(3) by (rule telescope_prefix)
  finally show ?thesis .
qed

lemma tauchen_prob_row_sum:
  assumes "2 \<le> n" "i < n"
  shows "(\<Sum>j<n. tauchen_prob rho sig_e (tauchen_grid n z0 d) d n i j) = 1"
proof -
  obtain k where k: "n = Suc (Suc k)" using assms(1) by (metis add_2_eq_Suc le_Suc_ex)
  have "(\<Sum>j<n. tauchen_prob rho sig_e (tauchen_grid n z0 d) d n i j)
      = (\<Sum>j<Suc k. tauchen_prob rho sig_e (tauchen_grid n z0 d) d n i j)
        + tauchen_prob rho sig_e (tauchen_grid n z0 d) d n i (Suc k)"
    using k by simp
  also have "\<dots> = 1"
    using tauchen_prob_prefix_sum [OF k assms(2) order_refl] tauchen_prob_diff [OF k assms(2), of "Suc k"] k
    by simp
  finally show ?thesis .
qed

lemma tauchen_prob_nonneg:
  assumes "0 < sig_e" "0 \<le> d" "i < n" "j < n"
  shows "0 \<le> tauchen_prob rho sig_e (tauchen_grid n z0 d) d n i j"
proof -
  have "(z0 + real j * d - d / 2 - rho * (z0 + real i * d)) / sig_e
      \<le> (z0 + real j * d + d / 2 - rho * (z0 + real i * d)) / sig_e"
    using assms(1,2) by (simp add: divide_right_mono)
  then show ?thesis
    using assms phi_mono phi_in_01 by (auto simp: tauchen_prob_def less_imp_le)
qed

lemma tauchen_cdf_anti:
  assumes "0 < sig_e" "0 \<le> d" "0 \<le> rho" "i \<le> i'"
  shows "tauchen_cdf rho sig_e z0 d i' J \<le> tauchen_cdf rho sig_e z0 d i J"
proof -
  have "rho * (real i * d) \<le> rho * (real i' * d)"
    using assms(2-4) by (intro mult_left_mono mult_right_mono) simp_all
  then have "(z0 + real J * d + d / 2 - rho * (z0 + real i' * d)) / sig_e
      \<le> (z0 + real J * d + d / 2 - rho * (z0 + real i * d)) / sig_e"
    using assms(1) by (intro divide_right_mono) (simp_all add: algebra_simps)
  then show ?thesis unfolding tauchen_cdf_def by (rule phi_mono)
qed

lemma tauchen_main_zmax:
  defines "z \<equiv> 3 * sqrt ((0.007::real) ^ 2 / (1 - 0.95 ^ 2))"
  shows "0.06725 < z" "z < 0.0673"
proof -
  have "(0.06725 / 3)\<^sup>2 < (0.007::real) ^ 2 / (1 - 0.95 ^ 2)" by (simp add: power2_eq_square)
  then have "0.06725 / 3 < sqrt ((0.007::real) ^ 2 / (1 - 0.95 ^ 2))" by (rule real_less_rsqrt)
  then show "0.06725 < z" by (simp add: z_def)
  have "sqrt ((0.007::real) ^ 2 / (1 - 0.95 ^ 2)) < sqrt ((0.0673 / 3)\<^sup>2)"
    by (simp only: real_sqrt_less_iff) (simp add: power2_eq_square)
  then show "z < 0.0673" by (simp add: z_def)
qed

lemma tauchen_grid_5: "tauchen_grid 5 (- z) ((z - - z) / real_of_int (5 - 1)) = [- z, - (z / 2), 0, z / 2, z]"
  by (simp add: tauchen_grid_def upt_rec field_simps)

lemma grid_fill_length: "grid_fill d N i vZ = Inr vZ' \<Longrightarrow> length vZ' = length vZ"
proof (induction d N i vZ rule: grid_fill.induct)
  case (1 d N i vZ)
  then show ?case
    by (subst (asm) grid_fill.simps)
       (auto simp: bindE_eq_Inr_iff arr_set_def split: if_splits)
qed

lemma fill_rows_div0:
  assumes "0 < n" "length vZ = n" "is_mat n n M"
  shows "fill_rows rho 0 vZ d (int n) 0 M = Inl DivByZero"
  using assms
  by (simp add: fill_rows.simps [of rho 0 vZ d "int n" 0] fill_row.simps [of rho 0 vZ d "int n" 0 0]
      tauchen_entry_def arr_get_def)

lemma tauchen_Inr_valid:
  assumes "tauchen N m rho sig_e = Inr c"
  shows "2 \<le> N \<and> \<bar>rho\<bar> < 1 \<and> sig_e \<noteq> 0"
proof -
  have N: "2 \<le> N" and r: "rho\<^sup>2 \<noteq> 1" and v: "\<not> sig_e\<^sup>2 / (1 - rho\<^sup>2) < 0"
    using assms by (auto simp: tauchen_def Let_def bindE_eq_Inr_iff fdiv_def fsqrt_def
        alloc_vec_def arr_set_def alloc_mat_def split: if_splits)
  have run: "\<exists>d vZ2 vZ mPI. length vZ2 = nat N \<and> grid_fill d N 1 vZ2 = Inr vZ \<and>
       fill_rows rho sig_e vZ d N 0 (replicate (nat N) (replicate (nat N) undefined)) = Inr mPI"
    using assms by (auto simp: tauchen_def Let_def bindE_eq_Inr_iff fdiv_def fsqrt_def
        alloc_vec_def arr_set_def alloc_mat_def split: if_splits) force
  have s: "sig_e \<noteq> 0"
  proof
    assume s0: "sig_e = 0"
    from run obtain d vZ2 vZ mPI where l: "length vZ2 = nat N"
      and g: "grid_fill d N 1 vZ2 = Inr vZ"
      and f: "fill_rows rho sig_e vZ d N 0 (replicate (nat N) (replicate (nat N) undefined)) = Inr mPI"
      by blast
    have "length vZ = nat N" using grid_fill_length [OF g] l by simp
    then have "fill_rows rho 0 vZ d (int (nat N)) 0 (mat_of (nat N) (nat N) (\<lambda>_ _. undefined))
        = Inl DivByZero"
      using N by (intro fill_rows_div0) simp_all
    with f s0 N show False by (simp add: replicate_mat_of)
  qed
  have "\<bar>rho\<bar> < 1"
  proof (rule ccontr)
    assume "\<not> \<bar>rho\<bar> < 1"
    then have "1 - rho\<^sup>2 < 0" using r abs_square_less_1 [of rho] by auto
    moreover have "0 < sig_e\<^sup>2" using s by simp
    ultimately show False using v by (simp add: divide_pos_neg)
  qed
  then show ?thesis using N s by simp
qed


subsection \<open>Properties of the program\<close>

lemma tauchen_Inr_shape:
  assumes "tauchen N m rho sig_e = Inr c"
  shows "2 \<le> N \<and> length (mc_grid c) = nat N \<and> is_mat (nat N) (nat N) (mc_trans c)"
proof -
  have v: "2 \<le> N" "\<bar>rho\<bar> < 1" "sig_e \<noteq> 0" using tauchen_Inr_valid [OF assms] by simp_all
  then have "c = tauchen_spec N m rho sig_e" using assms tauchen_eq_spec [of N rho sig_e m] by simp
  then show ?thesis using v(1) by (simp add: tauchen_spec_def Let_def)
qed

text \<open>C1. Refinement: on valid parameters the C loops compute the spec's closed form.\<close>

theorem tauchen_implements_spec:
  "2 \<le> N \<Longrightarrow> \<bar>rho\<bar> < 1 \<Longrightarrow> sig_e \<noteq> 0 \<Longrightarrow> tauchen N m rho sig_e = Inr (tauchen_spec N m rho sig_e)"
  by (rule tauchen_eq_spec)

lemma tauchen_implements_spec_witness:
  "2 \<le> (3::int) \<and> \<bar>0::real\<bar> < 1 \<and> (1::real) \<noteq> 0 \<and> tauchen 3 1 0 1 = Inr (tauchen_spec 3 1 0 1)"
  using tauchen_implements_spec [of 3 0 1 1] by simp

text \<open>C22. Errors: exactly the parameters the run cannot handle fail.\<close>

theorem tauchen_error_iff:
  "(\<exists>e. tauchen N m rho sig_e = Inl e) \<longleftrightarrow> N < 2 \<or> 1 \<le> \<bar>rho\<bar> \<or> sig_e = 0"
proof
  assume "\<exists>e. tauchen N m rho sig_e = Inl e"
  then show "N < 2 \<or> 1 \<le> \<bar>rho\<bar> \<or> sig_e = 0"
    using tauchen_eq_spec [of N rho sig_e m] by fastforce
next
  assume bad: "N < 2 \<or> 1 \<le> \<bar>rho\<bar> \<or> sig_e = 0"
  show "\<exists>e. tauchen N m rho sig_e = Inl e"
  proof (cases "tauchen N m rho sig_e")
    case (Inr c)
    then show ?thesis using tauchen_Inr_valid [OF Inr] bad by simp
  qed simp
qed

lemma tauchen_error_iff_witness: "\<exists>e. tauchen 1 3 0.95 0.007 = Inl e"
  using tauchen_error_iff [of 1 3 "0.95" "0.007"] by simp

text \<open>C2. On valid parameters with \<open>sig_e > 0\<close> and \<open>m \<ge> 0\<close> the matrix is row-stochastic.\<close>

theorem tauchen_stochastic:
  assumes "2 \<le> N" "\<bar>rho\<bar> < 1" "0 < sig_e" "0 \<le> m"
  shows "\<exists>c. tauchen N m rho sig_e = Inr c \<and> stochastic (nat N) (mc_trans c)"
proof -
  define n where "n = nat N"
  define z where "z = m * sqrt (sig_e ^ 2 / (1 - rho ^ 2))"
  define d where "d = (z - - z) / real_of_int (N - 1)"
  have n: "2 \<le> n" using assms(1) by (simp add: n_def)
  have "0 < 1 - rho ^ 2" using assms(2) abs_square_less_1 [of rho] by simp
  then have "0 \<le> z" using assms(4) by (simp add: z_def)
  then have d: "0 \<le> d" using assms(1) by (simp add: d_def)
  have "stochastic n (mat_of n n (tauchen_prob rho sig_e (tauchen_grid n (- z) d) d n))"
    using n d assms(3) by (intro stochastic_mat_of tauchen_prob_nonneg tauchen_prob_row_sum) simp_all
  then show ?thesis
    using tauchen_eq_spec [of N rho sig_e m] assms
    by (simp add: tauchen_spec_def Let_def n_def z_def d_def)
qed

lemma tauchen_stochastic_witness:
  "2 \<le> (5::int) \<and> \<bar>0.95::real\<bar> < 1 \<and> (0::real) < 0.007 \<and> (0::real) \<le> 3 \<and>
   (\<exists>c. tauchen 5 3 0.95 0.007 = Inr c \<and> stochastic 5 (mc_trans c))"
  using tauchen_stochastic [of 5 "0.95" "0.007" 3] by simp

text \<open>
  C31. The grid has \<open>N\<close> points, is symmetric about 0 and, for \<open>m > 0\<close>, strictly
  increasing.
\<close>

theorem tauchen_grid_shape:
  assumes "tauchen N m rho sig_e = Inr c" "0 < m"
  shows "length (mc_grid c) = nat N \<and>
    (\<forall>k<nat N. mc_grid c ! (nat N - 1 - k) = - (mc_grid c ! k)) \<and>
    (\<forall>j k. j < k \<and> k < nat N \<longrightarrow> mc_grid c ! j < mc_grid c ! k)"
proof -
  define n where "n = nat N"
  define z where "z = m * sqrt (sig_e ^ 2 / (1 - rho ^ 2))"
  define d where "d = (z - - z) / real_of_int (N - 1)"
  have v: "2 \<le> N" "\<bar>rho\<bar> < 1" "sig_e \<noteq> 0" using tauchen_Inr_valid [OF assms(1)] by simp_all
  then have "c = tauchen_spec N m rho sig_e"
    using assms(1) tauchen_eq_spec [of N rho sig_e m] by simp
  then have g: "mc_grid c = tauchen_grid n (- z) d"
    by (simp add: tauchen_spec_def Let_def n_def z_def d_def)
  have N: "real_of_int (N - 1) = real n - 1" "2 \<le> n" using v(1) by (simp_all add: n_def)
  have "0 < 1 - rho ^ 2" using v(2) abs_square_less_1 [of rho] by simp
  then have "0 < z" using v(3) assms(2) by (simp add: z_def)
  then have d: "0 < d" using N by (simp add: d_def)
  have "(real n - 1) * d = 2 * z" using N by (simp add: d_def)
  note sym = equispaced_reflect [OF _ this]
  have "- z + real j * d < - z + real k * d" if "j < k" for j k
    using d that by simp
  then show ?thesis using g sym by (simp add: n_def [symmetric])
qed

lemma tauchen_grid_shape_witness:
  "\<exists>c. tauchen 5 3 0.95 0.007 = Inr c \<and> (0::real) < 3 \<and> length (mc_grid c) = 5 \<and>
      mc_grid c ! 4 = - (mc_grid c ! 0) \<and> mc_grid c ! 0 < mc_grid c ! 1"
proof -
  obtain c where c: "tauchen 5 3 0.95 0.007 = Inr c"
    using tauchen_eq_spec [of 5 "0.95" "0.007" 3] by simp
  then show ?thesis using tauchen_grid_shape [OF c] by fastforce
qed

text \<open>
  C26. The code does not check the signs of \<open>sig_e\<close> and \<open>m\<close>. When they are opposite
  (\<open>sig_e < 0 < m\<close> or \<open>m < 0 < sig_e\<close>) and \<open>N \<ge> 3\<close>, \<open>|rho| < 1\<close>, the run succeeds and
  the entry of column 1 in every row is negative: \<open>d / sig_e < 0\<close>, so the upper edge
  of the bin lies below the lower one. (With both negative the two sign changes cancel.)
\<close>

theorem tauchen_negative_entries:
  assumes "3 \<le> N" "\<bar>rho\<bar> < 1" "(sig_e < 0 \<and> 0 < m) \<or> (0 < sig_e \<and> m < 0)"
  shows "\<exists>c. tauchen N m rho sig_e = Inr c \<and> (\<forall>i<nat N. mc_trans c ! i ! 1 < 0)"
proof -
  define n where "n = nat N"
  define S where "S = sqrt (sig_e ^ 2 / (1 - rho ^ 2))"
  define z where "z = m * S"
  define d where "d = (z - - z) / real_of_int (N - 1)"
  define vZ where "vZ = tauchen_grid n (- z) d"
  have s: "sig_e \<noteq> 0" using assms(3) by auto
  have n: "3 \<le> n" "real_of_int (N - 1) = real n - 1" using assms(1) by (simp_all add: n_def)
  have "0 < 1 - rho ^ 2" using assms(2) abs_square_less_1 [of rho] by simp
  then have S: "0 < S" using s by (simp add: S_def)
  have "m / sig_e < 0" using assms(3) by (auto simp: divide_less_0_iff)
  moreover have "d / sig_e = (2 * S / (real n - 1)) * (m / sig_e)"
    using n(2) by (simp add: d_def z_def)
  moreover have "0 < 2 * S / (real n - 1)" using S n(1) by simp
  ultimately have ds: "d / sig_e < 0" by (metis mult_pos_neg)
  have neg: "tauchen_prob rho sig_e vZ d n i 1 < 0" if "i < n" for i
  proof -
    define B where "B = (vZ ! 1 - d / 2 - rho * vZ ! i) / sig_e"
    have "(vZ ! 1 + d / 2 - rho * vZ ! i) / sig_e = B + d / sig_e"
      using s by (simp add: B_def field_simps)
    then have "phi ((vZ ! 1 + d / 2 - rho * vZ ! i) / sig_e) < phi B"
      using ds by (simp add: phi_lt)
    moreover have "(1::nat) \<noteq> n - 1" using n(1) by arith
    ultimately show ?thesis by (simp add: tauchen_prob_def B_def)
  qed
  have c: "tauchen_spec N m rho sig_e = \<lparr>mc_grid = vZ, mc_trans = mat_of n n (tauchen_prob rho sig_e vZ d n)\<rparr>"
    by (simp add: tauchen_spec_def Let_def n_def S_def z_def d_def vZ_def)
  have "\<forall>i<nat N. mc_trans (tauchen_spec N m rho sig_e) ! i ! 1 < 0"
    using neg n(1) unfolding c by (simp add: n_def [symmetric])
  moreover have "tauchen N m rho sig_e = Inr (tauchen_spec N m rho sig_e)"
    using assms(1,2) s by (intro tauchen_eq_spec) simp_all
  ultimately show ?thesis by blast
qed

lemma tauchen_negative_entries_witness:
  "3 \<le> (3::int) \<and> \<bar>0::real\<bar> < 1 \<and> (((-1::real) < 0 \<and> (0::real) < 1) \<or> ((0::real) < -1 \<and> (1::real) < 0)) \<and>
   (\<exists>c. tauchen 3 1 0 (-1) = Inr c \<and> mc_trans c ! 2 ! 1 < 0)"
proof -
  have "\<exists>c. tauchen 3 1 0 (-1) = Inr c \<and> (\<forall>i<nat 3. mc_trans c ! i ! 1 < 0)"
    by (rule tauchen_negative_entries) simp_all
  then obtain c where c: "tauchen 3 1 0 (-1) = Inr c" and r: "\<forall>i<nat 3. mc_trans c ! i ! 1 < 0" by blast
  have "mc_trans c ! 2 ! 1 < 0" using r [rule_format, of 2] by simp
  with c show ?thesis by simp
qed

text \<open>
  C19. For \<open>rho \<ge> 0\<close> (and the hypotheses of the stochastic property) the chain is
  monotone: a higher current state never makes low next states more likely, i.e. row
  \<open>i'\<close> first-order stochastically dominates row \<open>i\<close> for \<open>i \<le> i'\<close>; the partial row sums
  are \<open>phi\<close> values that decrease in the current state.
\<close>

theorem tauchen_monotone:
  assumes "2 \<le> N" "\<bar>rho\<bar> < 1" "0 < sig_e" "0 \<le> m" "0 \<le> rho"
  shows "\<exists>c. tauchen N m rho sig_e = Inr c \<and>
    (\<forall>i i' J. i \<le> i' \<and> i' < nat N \<and> J < nat N \<longrightarrow>
       (\<Sum>j<Suc J. mc_trans c ! i' ! j) \<le> (\<Sum>j<Suc J. mc_trans c ! i ! j))"
proof -
  define n where "n = nat N"
  define z where "z = m * sqrt (sig_e ^ 2 / (1 - rho ^ 2))"
  define d where "d = (z - - z) / real_of_int (N - 1)"
  have n: "2 \<le> n" using assms(1) by (simp add: n_def)
  then obtain k where k: "n = Suc (Suc k)" by (metis add_2_eq_Suc le_Suc_ex)
  have "0 < 1 - rho ^ 2" using assms(2) abs_square_less_1 [of rho] by simp
  then have "0 \<le> z" using assms(4) by (simp add: z_def)
  then have d: "0 \<le> d" using assms(1) by (simp add: d_def)
  let ?P = "tauchen_prob rho sig_e (tauchen_grid n (- z) d) d n"
  have mono: "(\<Sum>j<Suc J. ?P i' j) \<le> (\<Sum>j<Suc J. ?P i j)" if "i \<le> i'" "i' < n" "J < n" for i i' J
  proof (cases "J \<le> k")
    case True
    then show ?thesis using that tauchen_prob_prefix_sum [OF k] tauchen_cdf_anti [OF assms(3) d assms(5)]
      by simp
  next
    case False
    then have "Suc J = n" using that(3) k by simp
    then show ?thesis using that tauchen_prob_row_sum [of n] k by simp
  qed
  have row: "(\<Sum>j<Suc J. mat_of n n ?P ! i ! j) = (\<Sum>j<Suc J. ?P i j)" if "i < n" "J < n" for i J
    using that by (intro sum.cong) simp_all
  have c: "tauchen N m rho sig_e = Inr \<lparr>mc_grid = tauchen_grid n (- z) d, mc_trans = mat_of n n ?P\<rparr>"
    using tauchen_eq_spec [of N rho sig_e m] assms(1-3)
    by (simp add: tauchen_spec_def Let_def n_def z_def d_def)
  show ?thesis
  proof (intro exI conjI allI impI, fact c)
    fix i i' J assume a: "i \<le> i' \<and> i' < nat N \<and> J < nat N"
    then have "i < n" "i' < n" "J < n" by (simp_all add: n_def)
    then show "(\<Sum>j<Suc J. mc_trans \<lparr>mc_grid = tauchen_grid n (- z) d, mc_trans = mat_of n n ?P\<rparr> ! i' ! j)
        \<le> (\<Sum>j<Suc J. mc_trans \<lparr>mc_grid = tauchen_grid n (- z) d, mc_trans = mat_of n n ?P\<rparr> ! i ! j)"
      using mono [of i i' J] a by (simp only: markov_chain.select_convs row)
  qed
qed

lemma tauchen_monotone_witness:
  "2 \<le> (5::int) \<and> \<bar>0.95::real\<bar> < 1 \<and> (0::real) < 0.007 \<and> (0::real) \<le> 3 \<and> (0::real) \<le> 0.95 \<and>
   (\<exists>c. tauchen 5 3 0.95 0.007 = Inr c \<and>
    (\<forall>i i' J. i \<le> i' \<and> i' < 5 \<and> J < 5 \<longrightarrow>
       (\<Sum>j<Suc J. mc_trans c ! i' ! j) \<le> (\<Sum>j<Suc J. mc_trans c ! i ! j)))"
  using tauchen_monotone [of 5 "0.95" "0.007" 3] by simp

text \<open>
  C15. The display of every successful run never reads outside the arrays, and reading
  its text back gives the grid and the matrix, each value rounded to four decimals.
\<close>

theorem tauchen_output_roundtrip:
  assumes "tauchen N m rho sig_e = Inr c"
  shows "\<exists>s. tauchen_output N m rho sig_e = Inr s \<and>
           read_chain s = Some (map round4 (mc_grid c), map (map round4) (mc_trans c))"
proof -
  have sh: "2 \<le> N" "length (mc_grid c) = nat N" "is_mat (nat N) (nat N) (mc_trans c)"
    using tauchen_Inr_shape [OF assms] by simp_all
  have "\<And>r. r \<in> set (mc_trans c) \<Longrightarrow> r \<noteq> []"
    using sh(1,3) by (auto simp: is_mat_def in_set_conv_nth)
  then show ?thesis
    using assms print_chain_ok [OF sh(2,3)] sh(1) read_chain_text by (simp add: tauchen_output_def)
qed

lemma tauchen_output_roundtrip_witness:
  "\<exists>s. tauchen_output 3 1 0 1 = Inr s \<and> read_chain s =
     Some (map round4 (mc_grid (tauchen_spec 3 1 0 1)), map (map round4) (mc_trans (tauchen_spec 3 1 0 1)))"
  using tauchen_output_roundtrip [of 3 1 0 1 "tauchen_spec 3 1 0 1"] tauchen_eq_spec [of 3 0 1 1] by simp

text \<open>
  C28. The run with the file's parameters (\<open>N = 5\<close>, \<open>rho = 0.95\<close>, \<open>sig_e = 0.007\<close>,
  \<open>m = 3\<close>) prints the grid line \<open>-0.0673 -0.0336 0.0000 0.0336 0.0673\<close>, the values
  of the spec's example.
\<close>

theorem tauchen_main_printed_grid:
  "\<exists>rest. tauchen_main = Inr (''Grids are'' @ [nl] @ ''-0.0673 -0.0336 0.0000 0.0336 0.0673 ''
     @ [nl, CHR '' '', nl] @ ''Transition Prob Matrix is '' @ [nl] @ rest)"
proof -
  define z where "z = 3 * sqrt ((0.007::real) ^ 2 / (1 - 0.95 ^ 2))"
  have b: "0.06725 < z" "z < 0.0673" unfolding z_def by (rule tauchen_main_zmax)+
  obtain c where c: "tauchen 5 3 0.95 0.007 = Inr c" and g: "mc_grid c = [- z, - (z / 2), 0, z / 2, z]"
  proof
    show "tauchen 5 3 0.95 0.007 = Inr (tauchen_spec 5 3 0.95 0.007)" by (rule tauchen_eq_spec) simp_all
    show "mc_grid (tauchen_spec 5 3 0.95 0.007) = [- z, - (z / 2), 0, z / 2, z]"
      using tauchen_grid_5 [of z] by (simp add: tauchen_spec_def Let_def z_def)
  qed
  have sh: "length (mc_grid c) = nat 5" "is_mat (nat 5) (nat 5) (mc_trans c)"
    using tauchen_Inr_shape [OF c] by simp_all
  have f: "fixed4 (- z) = ''-0.0673''" "fixed4 (- (z / 2)) = ''-0.0336''" "fixed4 (z / 2) = ''0.0336''"
      "fixed4 z = ''0.0673''" "fixed4 0 = ''0.0000''"
    using b fixed4_eqI [of 673 "- z"] fixed4_eqI [of 336 "- (z / 2)"] fixed4_eqI [of 336 "z / 2"] fixed4_eqI [of 673 z]
    by (simp_all add: pad4_def digit_char_def fixed4_def round_half_even_def)
  show ?thesis
    using c print_chain_ok [OF sh] by (simp add: tauchen_main_def tauchen_output_def chain_text_def g f)
qed

end
