(* ===== verification/TauchenChain.thy ===== *)
theory TauchenChain
  imports Tauchen
begin

text \<open>
  What the matrix of Tauchen's method (\<open>tauchen_spec\<close> of \<open>Tauchen\<close>, which the loops of
  \<^verbatim>\<open>src/tauchen.cpp\<close> compute) is beyond being stochastic: under \<open>z \<mapsto> -z\<close> it is
  symmetric up to the defect of \<open>phi\<close> at 0 (\<open>10\<^sup>-\<^sup>9\<close>), a bound that is
  attained, and for \<open>rho = 0\<close> (i.i.d. shocks) every row is the same distribution.
\<close>

subsection \<open>Reflection of the closed form\<close>

lemma tauchen_prob_reflect:
  assumes "2 \<le> n" "i < n" "j < n" "(real n - 1) * d = 2 * z"
  defines "vZ \<equiv> tauchen_grid n (- z) d"
  shows "\<bar>tauchen_prob rho s vZ d n (n - 1 - i) (n - 1 - j) - tauchen_prob rho s vZ d n i j\<bar> \<le> 1 / 10 ^ 9"
proof -
  have r: "vZ ! (n - 1 - k) = - (vZ ! k)" if "k < n" for k
    using that equispaced_reflect [OF that assms(4)] by (simp add: vZ_def)
  define A where "A = (vZ ! j + d / 2 - rho * vZ ! i) / s"
  define B where "B = (vZ ! j - d / 2 - rho * vZ ! i) / s"
  have a': "(vZ ! (n - 1 - j) + d / 2 - rho * vZ ! (n - 1 - i)) / s = - B"
    and b': "(vZ ! (n - 1 - j) - d / 2 - rho * vZ ! (n - 1 - i)) / s = - A"
    unfolding A_def B_def minus_divide_left using r [OF assms(2)] r [OF assms(3)]
    by (simp_all add: algebra_simps)
  have ends: "n - 1 - j = 0 \<longleftrightarrow> j = n - 1" "n - 1 - j = n - 1 \<longleftrightarrow> j = 0" "n - 1 \<noteq> 0"
    using assms(1,3) by arith+
  have refl: "tauchen_prob rho s vZ d n (n - 1 - i) (n - 1 - j)
      = (if j = 0 then 1 - phi (- A) else if j = n - 1 then phi (- B) else phi (- B) - phi (- A))"
    using a' b' ends by (auto simp: tauchen_prob_def)
  have orig: "tauchen_prob rho s vZ d n i j
      = (if j = 0 then phi A else if j = n - 1 then 1 - phi B else phi A - phi B)"
    by (auto simp: tauchen_prob_def A_def B_def)
  note e = phi_reflect_error [of A] phi_reflect_error [of B]
  consider "j = 0" | "j \<noteq> 0" "j = n - 1" | "j \<noteq> 0" "j \<noteq> n - 1" by blast
  then show ?thesis
  proof cases
    case 1
    then show ?thesis unfolding refl orig abs_le_iff using e by simp
  next
    case 2
    then show ?thesis unfolding refl orig abs_le_iff using e by simp
  next
    case 3
    then have "tauchen_prob rho s vZ d n (n - 1 - i) (n - 1 - j) - tauchen_prob rho s vZ d n i j
        = (phi (- B) - (1 - phi B)) - (phi (- A) - (1 - phi A))"
      unfolding refl orig by simp
    then show ?thesis unfolding abs_le_iff using e by linarith
  qed
qed

subsection \<open>Properties of the printed chain\<close>

text \<open>
  C9. For \<open>N \<ge> 2\<close>, \<open>|rho| < 1\<close> and \<open>sig_e \<noteq> 0\<close> the run succeeds and the matrix is
  centro-symmetric up to \<open>10\<^sup>-\<^sup>9\<close>: moving between the points opposite \<open>z\<^sub>i\<close> and \<open>z\<^sub>j\<close>
  has the probability of moving from \<open>z\<^sub>i\<close> to \<open>z\<^sub>j\<close>, up to the defect of \<open>phi\<close> at 0.
\<close>

theorem tauchen_centro_symmetric:
  assumes "2 \<le> N" "\<bar>rho\<bar> < 1" "sig_e \<noteq> 0"
  shows "\<exists>c. tauchen N m rho sig_e = Inr c \<and>
    (\<forall>i<nat N. \<forall>j<nat N. \<bar>mc_trans c ! (nat N - 1 - i) ! (nat N - 1 - j) - mc_trans c ! i ! j\<bar> \<le> 1 / 10 ^ 9)"
proof -
  define n where "n = nat N"
  define z where "z = m * sqrt (sig_e ^ 2 / (1 - rho ^ 2))"
  define d where "d = (z - - z) / real_of_int (N - 1)"
  have n: "2 \<le> n" "real_of_int (N - 1) = real n - 1" using assms(1) by (simp_all add: n_def)
  then have dz: "(real n - 1) * d = 2 * z" by (simp add: d_def)
  have "\<bar>mat_of n n (tauchen_prob rho sig_e (tauchen_grid n (- z) d) d n) ! (n - 1 - i) ! (n - 1 - j)
        - mat_of n n (tauchen_prob rho sig_e (tauchen_grid n (- z) d) d n) ! i ! j\<bar> \<le> 1 / 10 ^ 9"
    if "i < n" "j < n" for i j
    using tauchen_prob_reflect [OF n(1) that dz] that by simp
  moreover have "tauchen_spec N m rho sig_e = \<lparr>mc_grid = tauchen_grid n (- z) d,
      mc_trans = mat_of n n (tauchen_prob rho sig_e (tauchen_grid n (- z) d) d n)\<rparr>"
    by (simp add: tauchen_spec_def Let_def n_def z_def d_def)
  ultimately show ?thesis
    using tauchen_eq_spec [OF assms, of m] by (simp add: n_def [symmetric])
qed

lemma tauchen_centro_symmetric_witness:
  "2 \<le> (5::int) \<and> \<bar>0.95::real\<bar> < 1 \<and> (0.007::real) \<noteq> 0 \<and>
   (\<exists>c. tauchen 5 3 0.95 0.007 = Inr c \<and> \<bar>mc_trans c ! 4 ! 3 - mc_trans c ! 0 ! 1\<bar> \<le> 1 / 10 ^ 9)"
proof -
  have "\<exists>c. tauchen 5 3 0.95 0.007 = Inr c \<and> (\<forall>i<nat 5. \<forall>j<nat 5.
      \<bar>mc_trans c ! (nat 5 - 1 - i) ! (nat 5 - 1 - j) - mc_trans c ! i ! j\<bar> \<le> 1 / 10 ^ 9)"
    by (rule tauchen_centro_symmetric) simp_all
  then obtain c where c: "tauchen 5 3 0.95 0.007 = Inr c" and r: "\<forall>i<nat 5. \<forall>j<nat 5.
      \<bar>mc_trans c ! (nat 5 - 1 - i) ! (nat 5 - 1 - j) - mc_trans c ! i ! j\<bar> \<le> 1 / 10 ^ 9"
    by blast
  have "\<bar>mc_trans c ! 4 ! 3 - mc_trans c ! 0 ! 1\<bar> \<le> 1 / 10 ^ 9" using r [rule_format, of 0 1] by simp
  then show ?thesis using c by simp
qed

text \<open>
  C10. The bound is attained: for \<open>N = 3\<close>, \<open>m = 1\<close>, \<open>rho = 1/2\<close>, \<open>sig_e = 1\<close> a bin edge of
  row 2 falls on 0, and the entries \<open>(2, 1)\<close> and \<open>(0, 1)\<close>, equal for the true normal CDF,
  differ by exactly \<open>10\<^sup>-\<^sup>9\<close>.
\<close>

theorem tauchen_centro_defect:
  "\<exists>c. tauchen 3 1 (1 / 2) 1 = Inr c \<and> mc_trans c ! 2 ! 1 - mc_trans c ! 0 ! 1 = 1 / 10 ^ 9"
proof -
  define z :: real where "z = sqrt (4 / 3)"
  have z: "0 < z" by (simp add: z_def)
  have spec: "tauchen_spec 3 1 (1 / 2) 1 = \<lparr>mc_grid = tauchen_grid 3 (- z) z,
      mc_trans = mat_of 3 3 (tauchen_prob (1 / 2) 1 (tauchen_grid 3 (- z) z) z 3)\<rparr>"
    by (simp add: tauchen_spec_def Let_def z_def power2_eq_square)
  have "tauchen_prob (1 / 2) 1 (tauchen_grid 3 (- z) z) z 3 2 1 = phi 0 - phi (- z)"
    "tauchen_prob (1 / 2) 1 (tauchen_grid 3 (- z) z) z 3 0 1 = phi z - phi 0"
    by (simp_all add: tauchen_prob_def algebra_simps)
  moreover have "phi (- z) = 1 - phi z" using z by (simp add: phi_reflect)
  moreover have "phi 0 = 0.5000000005" by (simp add: phi_def)
  ultimately show ?thesis
    using tauchen_eq_spec [of 3 "1 / 2" 1 1] spec by simp
qed

text \<open>
  C11. With \<open>rho = 0\<close> the process is i.i.d.: for \<open>N \<ge> 2\<close> and \<open>sig_e \<noteq> 0\<close> the run
  succeeds and every row of the matrix equals the first.
\<close>

theorem tauchen_iid:
  assumes "2 \<le> N" "sig_e \<noteq> 0"
  shows "\<exists>c. tauchen N m 0 sig_e = Inr c \<and> (\<forall>i<nat N. mc_trans c ! i = mc_trans c ! 0)"
proof -
  let ?c = "tauchen_spec N m 0 sig_e"
  have "mc_trans ?c ! i = mc_trans ?c ! 0" if "i < nat N" for i
    using that assms(1) by (simp add: tauchen_spec_def Let_def mat_of_def tauchen_prob_def)
  moreover have "tauchen N m 0 sig_e = Inr ?c" using assms by (intro tauchen_eq_spec) simp_all
  ultimately show ?thesis by blast
qed

lemma tauchen_iid_witness:
  "2 \<le> (3::int) \<and> (1::real) \<noteq> 0 \<and> (\<exists>c. tauchen 3 1 0 1 = Inr c \<and> mc_trans c ! 2 = mc_trans c ! 0)"
proof -
  have "\<exists>c. tauchen 3 1 0 1 = Inr c \<and> (\<forall>i<nat 3. mc_trans c ! i = mc_trans c ! 0)"
    by (rule tauchen_iid) simp_all
  then obtain c where c: "tauchen 3 1 0 1 = Inr c" and r: "\<forall>i<nat 3. mc_trans c ! i = mc_trans c ! 0"
    by blast
  have "mc_trans c ! 2 = mc_trans c ! 0" using r [rule_format, of 2] by simp
  then show ?thesis using c by simp
qed

end
