(* ===== verification/Armadillo.thy ===== *)
theory Armadillo
  imports Prelude
begin

text \<open>
  The part of the Armadillo matrix library that \<^verbatim>\<open>src/rouwenhorst.cpp\<close> calls: a
  dense \<open>arma::mat\<close> is a list of rows (\<open>n_rows\<close>, \<open>n_cols\<close>); \<open>zeros\<close> and the
  constructor \<open>mat(r, c)\<close> (zero-filled, as Armadillo does from version 10.5 on); the
  sub-matrix view \<open>submat(r1, c1, r2, c2)\<close> read (\<open>submat\<close>) and assigned
  (\<open>submat_assign\<close>), both with Armadillo's bounds check and the assignment with its
  size check, which throw \<open>std::logic_error\<close> (here \<open>Inl\<close>); \<open>+\<close> with its size
  check, multiplication by a scalar, \<open>resize\<close> (keeps the overlapping entries, fills with
  zeros), and \<open>linspace\<close>. The library is not part of the repository's sources, so
  these definitions follow the spec and the library's documented behaviour.
  The lemmas give each operation on matrices built by \<open>mat_of\<close>, entry by entry.
\<close>

definition n_rows :: "mat \<Rightarrow> nat" where
  "n_rows M = length M"

definition n_cols :: "mat \<Rightarrow> nat" where
  "n_cols M = (case M of [] \<Rightarrow> 0 | r # _ \<Rightarrow> length r)"

definition zeros :: "nat \<Rightarrow> nat \<Rightarrow> mat" where
  "zeros r c = mat_of r c (\<lambda>_ _. 0)"

definition mat_new :: "nat \<Rightarrow> nat \<Rightarrow> mat" where
  "mat_new r c = zeros r c"

definition submat :: "mat \<Rightarrow> nat \<Rightarrow> nat \<Rightarrow> nat \<Rightarrow> nat \<Rightarrow> mat result" where
  "submat M r1 c1 r2 c2 =
     (if r1 \<le> r2 \<and> c1 \<le> c2 \<and> r2 < n_rows M \<and> c2 < n_cols M
      then Inr (mat_of (Suc r2 - r1) (Suc c2 - c1) (\<lambda>i j. M ! (i + r1) ! (j + c1)))
      else Inl IndexOutOfRange)"

definition submat_assign :: "mat \<Rightarrow> nat \<Rightarrow> nat \<Rightarrow> nat \<Rightarrow> nat \<Rightarrow> mat \<Rightarrow> mat result" where
  "submat_assign M r1 c1 r2 c2 B =
     (if \<not> (r1 \<le> r2 \<and> c1 \<le> c2 \<and> r2 < n_rows M \<and> c2 < n_cols M) then Inl IndexOutOfRange
      else if n_rows B \<noteq> Suc r2 - r1 \<or> n_cols B \<noteq> Suc c2 - c1 then Inl DimensionMismatch
      else Inr (mat_of (n_rows M) (n_cols M) (\<lambda>i j.
             if r1 \<le> i \<and> i \<le> r2 \<and> c1 \<le> j \<and> j \<le> c2 then B ! (i - r1) ! (j - c1)
             else M ! i ! j)))"

definition mat_plus :: "mat \<Rightarrow> mat \<Rightarrow> mat result" where
  "mat_plus A B =
     (if n_rows A = n_rows B \<and> n_cols A = n_cols B
      then Inr (mat_of (n_rows A) (n_cols A) (\<lambda>i j. A ! i ! j + B ! i ! j))
      else Inl DimensionMismatch)"

definition mat_scale :: "real \<Rightarrow> mat \<Rightarrow> mat" where
  "mat_scale s A = map (map (\<lambda>x. s * x)) A"

definition mat_resize :: "mat \<Rightarrow> nat \<Rightarrow> nat \<Rightarrow> mat" where
  "mat_resize M r c = mat_of r c (\<lambda>i j. if i < n_rows M \<and> j < n_cols M then M ! i ! j else 0)"

definition linspace :: "real \<Rightarrow> real \<Rightarrow> nat \<Rightarrow> vec" where
  "linspace a b n =
     (if n = 0 then [] else if n = 1 then [b]
      else map (\<lambda>i. if i = n - 1 then b else a + real i * ((b - a) / real (n - 1))) [0..<n])"

subsection \<open>The operations on matrices built entry-wise\<close>

lemma n_rows_mat_of [simp, mat_simps]: "n_rows (mat_of r c f) = r"
  by (simp add: n_rows_def)

lemma n_cols_mat_of [simp, mat_simps]: "0 < r \<Longrightarrow> n_cols (mat_of r c f) = c"
  by (simp add: n_cols_def mat_of_def upt_conv_Cons)

lemma mat_scale_mat_of [simp, mat_simps]:
  "mat_scale s (mat_of r c f) = mat_of r c (\<lambda>i j. s * f i j)"
  by (simp add: mat_scale_def mat_of_def)

lemma mat_plus_mat_of [mat_simps]:
  "0 < r \<Longrightarrow> mat_plus (mat_of r c f) (mat_of r c g) = Inr (mat_of r c (\<lambda>i j. f i j + g i j))"
  by (simp add: mat_plus_def cong: mat_of_cong_simp)

lemma submat_mat_of [mat_simps]:
  assumes "r1 \<le> r2" "c1 \<le> c2" "r2 < r" "c2 < c"
  shows "submat (mat_of r c f) r1 c1 r2 c2 =
           Inr (mat_of (Suc r2 - r1) (Suc c2 - c1) (\<lambda>i j. f (i + r1) (j + c1)))"
  using assms by (simp add: submat_def cong: mat_of_cong_simp)

lemma submat_assign_mat_of [mat_simps]:
  assumes "r1 \<le> r2" "c1 \<le> c2" "r2 < r" "c2 < c" "R = Suc r2 - r1" "C = Suc c2 - c1"
  shows "submat_assign (mat_of r c f) r1 c1 r2 c2 (mat_of R C g) =
           Inr (mat_of r c (\<lambda>i j. if r1 \<le> i \<and> i \<le> r2 \<and> c1 \<le> j \<and> j \<le> c2
                                 then g (i - r1) (j - c1) else f i j))"
  using assms by (simp add: submat_assign_def, intro mat_of_cong) auto

lemma length_linspace [simp]: "length (linspace a b n) = n"
  by (simp add: linspace_def)

lemma linspace_nth:
  assumes "2 \<le> n" "j < n"
  shows "linspace a b n ! j = a + real j * ((b - a) / real (n - 1))"
proof (cases "j = n - 1")
  case True
  have "real (n - 1) \<noteq> 0" using assms(1) by simp
  then show ?thesis using assms True by (simp add: linspace_def)
next
  case False
  then show ?thesis using assms by (simp add: linspace_def)
qed

lemma linspace_reflect:
  assumes "2 \<le> n" "k < n"
  shows "linspace (- z) z n ! (n - 1 - k) = - (linspace (- z) z n ! k)"
proof -
  define d where "d = (z - - z) / real (n - 1)"
  have dn: "(real n - 1) * d = 2 * z" using assms(1) by (simp add: d_def of_nat_diff)
  have "n - 1 - k < n" using assms(2) by simp
  then show ?thesis
    using linspace_nth [OF assms(1)] assms(2) equispaced_reflect [OF assms(2) dn] by (simp add: d_def)
qed

lemma linspace_strict_mono:
  assumes "2 \<le> n" "a < b" "j < k" "k < n"
  shows "linspace a b n ! j < linspace a b n ! k"
proof -
  define D where "D = (b - a) / real (n - 1)"
  have "0 < D" using assms(1,2) by (simp add: D_def)
  then have "real j * D < real k * D" using assms(3) by (intro mult_strict_right_mono) simp_all
  then show ?thesis
    using linspace_nth [OF assms(1), of j a b] linspace_nth [OF assms(1), of k a b] assms(3,4)
    by (simp add: D_def)
qed

lemma linspace_5: "linspace (- z) z 5 = [- z, - (z / 2), 0, z / 2, z]"
  by (simp add: linspace_def upt_rec field_simps)

end
