(* ===== verification/Rouwenhorst.thy ===== *)
theory Rouwenhorst
  imports Armadillo Display
begin

text \<open>
  Rouwenhorst's method, \<^verbatim>\<open>src/rouwenhorst.cpp\<close> lines 36--110. The six matrices of
  \<open>main\<close> (\<open>mPI_old\<close>, \<open>mPI_new\<close>, \<open>mPI_new1\<close> .. \<open>mPI_new4\<close>) are the fields
  of the record \<open>rw_state\<close>; one pass of the \<open>for\<close> loop of lines 64--84 is
  \<open>rw_body\<close> (statement by statement: five \<open>zeros\<close>, four sub-matrix embeddings, the
  weighted sum, the halving of rows \<open>1 .. i-2\<close>, the \<open>resize\<close> and the assignment), the
  loop itself is \<open>rw_loop\<close>, its states form the inductive \<open>rw_reach\<close>, and \<open>rouwenhorst\<close> is the program: \<open>sig_z\<close>, the
  end points, \<open>p = q = (1 + rho) / 2\<close>, the grid by \<open>linspace\<close>, the \<open>2 \<times> 2\<close>
  start matrix, the loop, and the \<open>N \<times> N\<close> matrix the display loop of lines 97--110
  reads out of \<open>mPI_new\<close> (\<open>read_square\<close>).
  \<open>rw_step\<close> and \<open>rw_matrix\<close> are the recursion of the spec (4.3, step 4): the
  \<open>(k - 1) \<times> (k - 1)\<close> matrix placed at the four offsets of a \<open>k \<times> k\<close> zero matrix
  (\<open>rw_embed\<close>), weighted by \<open>p, 1 - p, 1 - q, q\<close>, interior rows halved.
  \<open>rouwenhorst_output\<close> adds the printing of \<open>Display\<close>. The lemmas show that each pass
  of the loop is one step of the recursion and that the loop computes \<open>rw_matrix\<close>
  (refinement), that every reachable loop state holds the recursion's matrix and runs to
  the loop's exit, which inputs fail, that no Armadillo check throws, what every run and
  its printed text look like, and the exact text printed for the file's parameters and
  for \<open>N = 2\<close>. What the recursion's matrix is (stochastic, its moments, its symmetry) is
  in \<open>RouwenhorstChain\<close>.
\<close>

record rw_state =
  mPI_old :: mat
  mPI_new :: mat
  mPI_new1 :: mat
  mPI_new2 :: mat
  mPI_new3 :: mat
  mPI_new4 :: mat

definition rw_body :: "real \<Rightarrow> real \<Rightarrow> nat \<Rightarrow> rw_state \<Rightarrow> rw_state result" where
  "rw_body p q i s0 =
     (let s = s0\<lparr>mPI_new := zeros i i, mPI_new1 := zeros i i, mPI_new2 := zeros i i,
                 mPI_new3 := zeros i i, mPI_new4 := zeros i i\<rparr> in
      bindE (submat_assign (mPI_new1 s) 0 0 (i - 2) (i - 2) (mPI_old s)) (\<lambda>m1.
      bindE (submat_assign (mPI_new2 s) 0 1 (i - 2) (i - 1) (mPI_old s)) (\<lambda>m2.
      bindE (submat_assign (mPI_new3 s) 1 0 (i - 1) (i - 2) (mPI_old s)) (\<lambda>m3.
      bindE (submat_assign (mPI_new4 s) 1 1 (i - 1) (i - 1) (mPI_old s)) (\<lambda>m4.
      bindE (mat_plus (mat_scale p m1) (mat_scale (1 - p) m2)) (\<lambda>a.
      bindE (mat_plus a (mat_scale (1 - q) m3)) (\<lambda>b.
      bindE (mat_plus b (mat_scale q m4)) (\<lambda>new.
      bindE (submat new 1 0 (i - 2) (i - 1)) (\<lambda>mid.
      bindE (submat_assign new 1 0 (i - 2) (i - 1) (mat_scale 0.5 mid)) (\<lambda>new'.
      (let s = s\<lparr>mPI_new := new', mPI_new1 := m1, mPI_new2 := m2,
                 mPI_new3 := m3, mPI_new4 := m4\<rparr>;
           s = s\<lparr>mPI_old := mat_resize (mPI_old s) i i\<rparr>
       in Inr (s\<lparr>mPI_old := mPI_new s\<rparr>))))))))))))"

function rw_loop :: "real \<Rightarrow> real \<Rightarrow> int \<Rightarrow> nat \<Rightarrow> rw_state \<Rightarrow> rw_state result" where
  "rw_loop p q N i s =
     (if int i < N + 1 then bindE (rw_body p q i s) (\<lambda>s'. rw_loop p q N (Suc i) s')
      else Inr s)"
  by pat_completeness auto
termination
  by (relation "measure (\<lambda>(p, q, N, i, s). nat (N + 1 - int i))") auto

declare rw_loop.simps [simp del]

definition read_square :: "int \<Rightarrow> mat \<Rightarrow> mat result" where
  "read_square N M =
     (if int (n_rows M) < N \<or> int (n_cols M) < N then Inl IndexOutOfRange
      else Inr (mat_of (nat N) (nat N) (\<lambda>i j. M ! i ! j)))"

definition rw_init :: "real \<Rightarrow> real \<Rightarrow> rw_state" where
  "rw_init p q =
     \<lparr>mPI_old = [[p, 1 - p], [1 - q, q]], mPI_new = mat_new 3 3, mPI_new1 = mat_new 3 3,
      mPI_new2 = mat_new 3 3, mPI_new3 = mat_new 3 3, mPI_new4 = mat_new 3 3\<rparr>"

definition rouwenhorst :: "int \<Rightarrow> real \<Rightarrow> real \<Rightarrow> markov_chain result" where
  "rouwenhorst N rho sig_e =
     bindE (fdiv (sig_e ^ 2) (1 - rho ^ 2)) (\<lambda>var_z.
     bindE (fsqrt var_z) (\<lambda>sig_z.
     bindE (fsqrt (real_of_int (N - 1))) (\<lambda>sqrt_n1.
     (let z_max = sig_z * sqrt_n1; z_min = - z_max; p = (1 + rho) / 2; q = p;
          vZ = linspace z_min z_max (nat N)
      in bindE (rw_loop p q N 3 (rw_init p q)) (\<lambda>s.
         bindE (read_square N (mPI_new s)) (\<lambda>M.
         Inr \<lparr>mc_grid = vZ, mc_trans = M\<rparr>))))))"

text \<open>
  The program with its display (lines 90--110): the grid and the \<open>N \<times> N\<close> matrix
  read out of \<open>mPI_new\<close>, printed by the same loops as in \<^verbatim>\<open>tauchen.cpp\<close>.
\<close>

definition rouwenhorst_output :: "int \<Rightarrow> real \<Rightarrow> real \<Rightarrow> string result" where
  "rouwenhorst_output N rho sig_e = bindE (rouwenhorst N rho sig_e) (print_chain N)"

text \<open>
  \<open>main\<close> itself (lines 27--112): the parameters of lines 36--38, the run, the display;
  its result is the text it writes to \<open>std::cout\<close> before \<open>return 0\<close>.
\<close>

definition rouwenhorst_main :: "string result" where
  "rouwenhorst_main = rouwenhorst_output 5 0.95 0.007"

text \<open>
  The loop as a state machine: \<open>rw_reach p q i s\<close> holds of the state \<open>s\<close> before the pass
  with counter \<open>i\<close>, starting from the declarations of lines 55--62 with \<open>i = 3\<close>, one
  rule per pass of the body.
\<close>

inductive rw_reach :: "real \<Rightarrow> real \<Rightarrow> nat \<Rightarrow> rw_state \<Rightarrow> bool" for p q where
  start: "rw_reach p q 3 (rw_init p q)"
| pass: "rw_reach p q i s \<Longrightarrow> rw_body p q i s = Inr s' \<Longrightarrow> rw_reach p q (Suc i) s'"

subsection \<open>The recursion of the spec\<close>

definition rw_embed :: "mat \<Rightarrow> nat \<Rightarrow> nat \<Rightarrow> nat \<Rightarrow> nat \<Rightarrow> real" where
  "rw_embed M a b i j =
     (if a \<le> i \<and> i < a + length M \<and> b \<le> j \<and> j < b + length M then M ! (i - a) ! (j - b) else 0)"

definition rw_step :: "real \<Rightarrow> real \<Rightarrow> mat \<Rightarrow> mat" where
  "rw_step p q M =
     (let n = Suc (length M)
      in mat_of n n (\<lambda>i j. (if 1 \<le> i \<and> i \<le> n - 2 then 0.5 else 1) *
           (p * rw_embed M 0 0 i j + (1 - p) * rw_embed M 0 1 i j
            + (1 - q) * rw_embed M 1 0 i j + q * rw_embed M 1 1 i j)))"

primrec rw_matrix :: "real \<Rightarrow> real \<Rightarrow> nat \<Rightarrow> mat" where
  "rw_matrix p q 0 = [[p, 1 - p], [1 - q, q]]"
| "rw_matrix p q (Suc k) = rw_step p q (rw_matrix p q k)"

text \<open>The output the spec describes for \<open>N \<ge> 3\<close> and \<open>|rho| < 1\<close>.\<close>

definition rouwenhorst_spec :: "int \<Rightarrow> real \<Rightarrow> real \<Rightarrow> markov_chain" where
  "rouwenhorst_spec N rho sig_e =
     (let n = nat N; z_max = sqrt (sig_e ^ 2 / (1 - rho ^ 2)) * sqrt (real_of_int (N - 1));
          p = (1 + rho) / 2
      in \<lparr>mc_grid = linspace (- z_max) z_max n, mc_trans = rw_matrix p p (n - 2)\<rparr>)"

subsection \<open>One pass of the loop is one step of the recursion\<close>

lemma embed_zeros:
  assumes "is_mat k k M" "0 < k" "r2 = a + k - 1" "c2 = b + k - 1" "a \<le> 1" "b \<le> 1"
  shows "submat_assign (zeros (Suc k) (Suc k)) a b r2 c2 M = Inr (mat_of (Suc k) (Suc k) (rw_embed M a b))"
proof -
  have eq: "mat_of k k (\<lambda>x y. M ! x ! y) = M" using assms(1) by (rule mat_of_self)
  have "submat_assign (mat_of (Suc k) (Suc k) (\<lambda>_ _. 0)) a b r2 c2 (mat_of k k (\<lambda>x y. M ! x ! y)) =
      Inr (mat_of (Suc k) (Suc k) (\<lambda>x y. if a \<le> x \<and> x \<le> r2 \<and> b \<le> y \<and> y \<le> c2
                                          then M ! (x - a) ! (y - b) else 0))"
    by (rule submat_assign_mat_of) (use assms in auto)
  also have "\<dots> = Inr (mat_of (Suc k) (Suc k) (rw_embed M a b))"
  proof -
    have "\<And>x. x \<le> r2 \<longleftrightarrow> x < a + k" "\<And>y. y \<le> c2 \<longleftrightarrow> y < b + k"
      using assms(2,3,4) by arith+
    moreover have "length M = k" using assms(1) by (simp add: is_mat_def)
    ultimately show ?thesis by (simp add: rw_embed_def [abs_def])
  qed
  finally show ?thesis by (simp only: zeros_def eq)
qed

lemma length_rw_step [simp]: "length (rw_step p q M) = Suc (length M)"
  by (simp add: rw_step_def Let_def)

lemma rw_body_eq:
  assumes M: "is_mat k k (mPI_old s)" and k: "2 \<le> k"
  shows "\<exists>s'. rw_body p q (Suc k) s = Inr s' \<and> mPI_old s' = rw_step p q (mPI_old s)
           \<and> mPI_new s' = mPI_old s'"
proof -
  let ?M = "mPI_old s" and ?n = "Suc k"
  define F where "F = (\<lambda>i j. p * rw_embed ?M 0 0 i j + (1 - p) * rw_embed ?M 0 1 i j
      + (1 - q) * rw_embed ?M 1 0 i j + q * rw_embed ?M 1 1 i j)"
  have e00: "submat_assign (zeros ?n ?n) 0 0 (?n - 2) (?n - 2) ?M = Inr (mat_of ?n ?n (rw_embed ?M 0 0))"
    using M k by (intro embed_zeros) simp_all
  have e01: "submat_assign (zeros ?n ?n) 0 1 (?n - 2) (?n - 1) ?M = Inr (mat_of ?n ?n (rw_embed ?M 0 1))"
    using M k by (intro embed_zeros) simp_all
  have e10: "submat_assign (zeros ?n ?n) 1 0 (?n - 1) (?n - 2) ?M = Inr (mat_of ?n ?n (rw_embed ?M 1 0))"
    using M k by (intro embed_zeros) simp_all
  have e11: "submat_assign (zeros ?n ?n) 1 1 (?n - 1) (?n - 1) ?M = Inr (mat_of ?n ?n (rw_embed ?M 1 1))"
    using M k by (intro embed_zeros) simp_all
  have mid: "submat (mat_of ?n ?n F) 1 0 (?n - 2) (?n - 1) = Inr (mat_of (k - 1) ?n (\<lambda>i j. F (i + 1) j))"
    using k by (simp add: submat_mat_of)
  have half: "submat_assign (mat_of ?n ?n F) 1 0 (?n - 2) (?n - 1)
      (mat_scale 0.5 (mat_of (k - 1) ?n (\<lambda>i j. F (i + 1) j))) = Inr (rw_step p q ?M)"
  proof -
    have "length ?M = k" using M by (simp add: is_mat_def)
    moreover have "submat_assign (mat_of ?n ?n F) 1 0 (?n - 2) (?n - 1)
        (mat_of (k - 1) ?n (\<lambda>i j. 0.5 * F (i + 1) j)) =
        Inr (mat_of ?n ?n (\<lambda>i j. if 1 \<le> i \<and> i \<le> ?n - 2 \<and> 0 \<le> j \<and> j \<le> ?n - 1
                                then 0.5 * F (i - 1 + 1) (j - 0) else F i j))"
      using k by (intro submat_assign_mat_of) simp_all
    ultimately show ?thesis
      by (auto simp: rw_step_def F_def intro!: mat_of_cong)
  qed
  show ?thesis
    using e00 e01 e10 e11 mid [unfolded F_def] half [unfolded F_def]
    by (simp add: rw_body_def Let_def mat_plus_mat_of)
qed

lemma is_mat_rw_matrix: "is_mat (k + 2) (k + 2) (rw_matrix p q k)"
proof (induction k)
  case 0
  show ?case by (simp add: is_mat_def less_Suc_eq)
next
  case (Suc k)
  then have "length (rw_matrix p q k) = k + 2" by (simp add: is_mat_def)
  then show ?case by (simp add: rw_step_def Let_def)
qed

lemma length_rw_matrix [simp]: "length (rw_matrix p q k) = k + 2"
  using is_mat_rw_matrix [of k p q] by (simp add: is_mat_def)

lemma rw_body_pass:
  assumes "3 \<le> i" "mPI_old s = rw_matrix p q (i - 3)"
  shows "\<exists>s'. rw_body p q i s = Inr s' \<and> mPI_old s' = rw_matrix p q (Suc i - 3) \<and> mPI_new s' = mPI_old s'"
proof -
  have i: "i = Suc (i - 1)" "2 \<le> i - 1" "i - 3 + 2 = i - 1" "Suc i - 3 = Suc (i - 3)" using assms(1) by simp_all
  have "is_mat (i - 1) (i - 1) (mPI_old s)" using is_mat_rw_matrix [of "i - 3" p q] assms(2) i(3) by simp
  from rw_body_eq [OF this i(2), of p q] show ?thesis using assms(2) i(1,4) by (metis rw_matrix.simps(2))
qed

lemma rw_loop_stop: "\<not> int i < N + 1 \<Longrightarrow> rw_loop p q N i s = Inr s"
  by (simp add: rw_loop.simps [of p q N i s])

lemma rw_loop_eq:
  assumes "3 \<le> i" "int i \<le> N + 1" "mPI_old s = rw_matrix p q (i - 3)"
  shows "\<exists>s'. rw_loop p q N i s = Inr s' \<and> mPI_old s' = rw_matrix p q (nat N - 2)
           \<and> (int i \<le> N \<longrightarrow> mPI_new s' = mPI_old s')"
  using assms
proof (induction p q N i s rule: rw_loop.induct)
  case (1 p q N i s)
  show ?case
  proof (cases "int i < N + 1")
    case True
    obtain s1 where b': "rw_body p q i s = Inr s1" and o': "mPI_old s1 = rw_matrix p q (Suc i - 3)"
      and n: "mPI_new s1 = mPI_old s1"
      using rw_body_pass [OF "1.prems"(1,3)] by blast
    have step: "rw_loop p q N i s = rw_loop p q N (Suc i) s1"
      using True b' by (simp add: rw_loop.simps [of p q N i s])
    show ?thesis
    proof (cases "int (Suc i) < N + 1")
      case True
      then show ?thesis using "1.IH" [OF \<open>int i < N + 1\<close> b'] o' step "1.prems"(1) by simp
    next
      case False
      then have "nat N - 2 = Suc i - 3" using \<open>int i < N + 1\<close> "1.prems"(1) by linarith
      then show ?thesis using rw_loop_stop [OF False] step o' n by simp
    qed
  next
    case False
    then have "nat N - 2 = i - 3" using "1.prems"(1,2) by linarith
    then show ?thesis using rw_loop_stop [OF False] False "1.prems"(3) by simp
  qed
qed

subsection \<open>Reachable states of the loop\<close>

lemma rw_init_old: "mPI_old (rw_init p q) = rw_matrix p q 0"
  by (simp add: rw_init_def)

lemma rw_reach_inv:
  "rw_reach p q i s \<Longrightarrow> 3 \<le> i \<and> mPI_old s = rw_matrix p q (i - 3) \<and> (4 \<le> i \<longrightarrow> mPI_new s = mPI_old s)"
proof (induction rule: rw_reach.induct)
  case start
  then show ?case by (simp add: rw_init_old)
next
  case (pass i s s')
  then obtain s'' where "rw_body p q i s = Inr s''" "mPI_old s'' = rw_matrix p q (Suc i - 3)"
      "mPI_new s'' = mPI_old s''"
    using rw_body_pass [of i s p q] by blast
  then show ?case using pass by simp
qed

lemma rw_reach_run:
  assumes "rw_reach p q i s" "int i \<le> N + 1"
  shows "\<exists>s'. rw_loop p q N i s = Inr s' \<and> rw_reach p q (nat (N + 1)) s'"
  using assms
proof (induction "nat (N + 1 - int i)" arbitrary: i s)
  case 0
  then have "nat (N + 1) = i" "\<not> int i < N + 1" by simp_all
  then show ?case using 0 rw_loop_stop [of i N p q s] by simp
next
  case (Suc x)
  then have lt: "int i < N + 1" by simp
  obtain s' where s': "rw_body p q i s = Inr s'"
    using rw_reach_inv [OF Suc.prems(1)] rw_body_pass [of i s p q] by blast
  have r: "rw_reach p q (Suc i) s'" by (rule rw_reach.pass [OF Suc.prems(1) s'])
  have "\<exists>s''. rw_loop p q N (Suc i) s' = Inr s'' \<and> rw_reach p q (nat (N + 1)) s''"
    by (rule Suc.hyps(1)) (use Suc.hyps(2) lt r in simp_all)
  then show ?case using lt s' by (simp add: rw_loop.simps [of p q N i s])
qed

subsection \<open>Runs of the whole program\<close>

lemma read_square_square:
  assumes "is_mat n n M" "0 < n" "N = int n"
  shows "read_square N M = Inr M"
proof -
  have "n_rows M = n" "n_cols M = n"
    using assms(1,2) by (auto simp: is_mat_def n_rows_def n_cols_def neq_Nil_conv split: list.splits)
  then show ?thesis using assms by (simp add: read_square_def mat_of_self)
qed

lemma rw_run_big:
  assumes "3 \<le> N"
  shows "\<exists>s. rw_loop p q N 3 (rw_init p q) = Inr s \<and> mPI_new s = rw_matrix p q (nat N - 2)
           \<and> read_square N (mPI_new s) = Inr (rw_matrix p q (nat N - 2))"
proof -
  obtain s where l: "rw_loop p q N 3 (rw_init p q) = Inr s"
    and o: "mPI_old s = rw_matrix p q (nat N - 2)" and n: "mPI_new s = mPI_old s"
    using rw_loop_eq [of 3 N "rw_init p q" p q] assms by (auto simp: rw_init_old)
  have e: "nat N - 2 + 2 = nat N" using assms by linarith
  have "is_mat (nat N) (nat N) (rw_matrix p q (nat N - 2))"
    using is_mat_rw_matrix [of "nat N - 2" p q, unfolded e] .
  then have "read_square N (rw_matrix p q (nat N - 2)) = Inr (rw_matrix p q (nat N - 2))"
    by (rule read_square_square) (use assms in linarith)+
  then show ?thesis using l o n by simp
qed

lemma rw_run_small:
  assumes "1 \<le> N" "N \<le> 2"
  shows "rw_loop p q N 3 (rw_init p q) = Inr (rw_init p q)
     \<and> read_square N (mPI_new (rw_init p q)) = Inr (mat_of (nat N) (nat N) (\<lambda>_ _. 0))"
proof -
  have "n_rows (mat_new 3 3) = 3" "n_cols (mat_new 3 3) = 3"
    by (simp_all add: mat_new_def zeros_def)
  moreover have "mat_of (nat N) (nat N) (\<lambda>i j. mat_new 3 3 ! i ! j) = mat_of (nat N) (nat N) (\<lambda>_ _. 0)"
    using assms by (intro mat_of_cong) (simp add: mat_new_def zeros_def)
  ultimately show ?thesis
    using assms by (simp add: rw_loop_stop read_square_def rw_init_def)
qed

lemma rw_run_ok:
  assumes "1 \<le> N"
  shows "\<exists>s M. rw_loop p q N 3 (rw_init p q) = Inr s \<and> read_square N (mPI_new s) = Inr M"
proof (cases "3 \<le> N")
  case True
  then show ?thesis using rw_run_big [OF True, of p q] by blast
next
  case False
  then show ?thesis using rw_run_small [OF assms, of p q] by auto
qed

lemma rouwenhorst_eq_spec:
  assumes "3 \<le> N" "\<bar>rho\<bar> < 1"
  shows "rouwenhorst N rho sig_e = Inr (rouwenhorst_spec N rho sig_e)"
proof -
  have "0 < 1 - rho ^ 2" using assms(2) abs_square_less_1 [of rho] by simp
  then show ?thesis
    using rw_run_big [OF assms(1), of "(1 + rho) / 2" "(1 + rho) / 2"] assms(1)
    by (auto simp: rouwenhorst_def rouwenhorst_spec_def Let_def)
qed

lemma rouwenhorst_run_small:
  assumes "1 \<le> N" "N \<le> 2" "\<bar>rho\<bar> < 1"
  shows "\<exists>c. rouwenhorst N rho sig_e = Inr c \<and> mc_trans c = mat_of (nat N) (nat N) (\<lambda>_ _. 0)"
proof -
  have "0 < 1 - rho ^ 2" using assms(3) abs_square_less_1 [of rho] by simp
  then show ?thesis
    using rw_run_small [OF assms(1,2), of "(1 + rho) / 2" "(1 + rho) / 2"] assms(1)
    by (simp add: rouwenhorst_def Let_def)
qed

lemma rouwenhorst_Inr_cond:
  assumes "rouwenhorst N rho sig_e = Inr c"
  shows "1 \<le> N \<and> \<bar>rho\<bar> \<noteq> 1 \<and> (1 < \<bar>rho\<bar> \<longrightarrow> sig_e = 0)"
proof -
  have r: "rho\<^sup>2 \<noteq> 1" and v: "\<not> sig_e\<^sup>2 / (1 - rho\<^sup>2) < 0" and N: "1 \<le> N"
    using assms by (auto simp: rouwenhorst_def Let_def bindE_eq_Inr_iff fdiv_def fsqrt_def
        split: if_splits)
  have "sig_e = 0" if "1 < \<bar>rho\<bar>"
  proof (rule ccontr)
    assume "sig_e \<noteq> 0"
    then have "0 < sig_e\<^sup>2" by simp
    moreover have "1 - rho\<^sup>2 < 0" using that abs_square_less_1 [of rho] abs_square_eq_1 [of rho] by auto
    ultimately show False using v by (simp add: divide_pos_neg)
  qed
  then show ?thesis using r N abs_square_eq_1 [of rho] by auto
qed

lemma rouwenhorst_grid:
  fixes N :: int and rho sig_e :: real
  assumes "1 \<le> N" "\<bar>rho\<bar> < 1"
  defines "z \<equiv> sqrt (sig_e ^ 2 / (1 - rho ^ 2)) * sqrt (real_of_int (N - 1))"
  shows "\<exists>c. rouwenhorst N rho sig_e = Inr c \<and> mc_grid c = linspace (- z) z (nat N)"
proof -
  let ?p = "(1 + rho) / 2"
  obtain s M where "rw_loop ?p ?p N 3 (rw_init ?p ?p) = Inr s" "read_square N (mPI_new s) = Inr M"
    using rw_run_ok [OF assms(1), of ?p ?p] by blast
  moreover have "1 - rho\<^sup>2 \<noteq> 0" "0 \<le> sig_e\<^sup>2 / (1 - rho\<^sup>2)"
    using assms(2) abs_square_less_1 [of rho] by simp_all
  ultimately show ?thesis using assms(1) by (simp add: rouwenhorst_def Let_def z_def)
qed

lemma rouwenhorst_Inr_shape:
  assumes "rouwenhorst N rho sig_e = Inr c"
  shows "1 \<le> N \<and> length (mc_grid c) = nat N \<and> is_mat (nat N) (nat N) (mc_trans c)"
  using assms rouwenhorst_Inr_cond [OF assms]
  by (auto simp: rouwenhorst_def bindE_eq_Inr_iff Let_def read_square_def split: if_splits)

lemma rw_small_zmax:
  defines "z \<equiv> sqrt ((0.007::real) ^ 2 / (1 - 0.95 ^ 2))"
  shows "0.02241 < z" "z < 0.02242"
proof -
  have "(0.02241)\<^sup>2 < (0.007::real) ^ 2 / (1 - 0.95 ^ 2)" by (simp add: power2_eq_square)
  then show "0.02241 < z" unfolding z_def by (rule real_less_rsqrt)
  have "sqrt ((0.007::real) ^ 2 / (1 - 0.95 ^ 2)) < sqrt ((0.02242)\<^sup>2)"
    by (simp only: real_sqrt_less_iff) (simp add: power2_eq_square)
  then show "z < 0.02242" by (simp add: z_def)
qed

lemma rw_matrix_main:
  "rw_matrix (39 / 40) (39 / 40) 3 =
     [[2313441/2560000, 59319/640000, 4563/1280000, 39/640000, 1/2560000],
      [59319/2560000, 579501/640000, 89037/1280000, 1141/640000, 39/2560000],
      [1521/2560000, 29679/640000, 1159763/1280000, 29679/640000, 1521/2560000],
      [39/2560000, 1141/640000, 89037/1280000, 579501/640000, 59319/2560000],
      [1/2560000, 39/640000, 4563/1280000, 59319/640000, 2313441/2560000]]"
  by (simp add: rw_step_def rw_embed_def mat_of_def Let_def upt_rec numeral_eq_Suc)

subsection \<open>Properties of the program\<close>

text \<open>
  C3. Refinement: for \<open>N \<ge> 3\<close> and \<open>|rho| < 1\<close> the Armadillo loop computes the
  spec's recursion started from \<open>[[p, 1 - p], [1 - q, q]]\<close>, \<open>p = q = (1 + rho) / 2\<close>,
  and the grid is \<open>linspace\<close> over \<open>\<plusminus>sig_z sqrt (N - 1)\<close>.
\<close>

theorem rouwenhorst_implements_spec:
  "3 \<le> N \<Longrightarrow> \<bar>rho\<bar> < 1 \<Longrightarrow> rouwenhorst N rho sig_e = Inr (rouwenhorst_spec N rho sig_e)"
  by (rule rouwenhorst_eq_spec)

lemma rouwenhorst_implements_spec_witness:
  "3 \<le> (5::int) \<and> \<bar>0.95::real\<bar> < 1 \<and>
   rouwenhorst 5 0.95 0.007 = Inr (rouwenhorst_spec 5 0.95 0.007)"
  using rouwenhorst_implements_spec [of 5 "0.95" "0.007"] by simp

text \<open>
  C23. Errors: the run fails exactly for \<open>N < 1\<close> (square root of \<open>N - 1\<close>),
  \<open>|rho| = 1\<close> (division by zero) and \<open>|rho| > 1\<close> with \<open>sig_e \<noteq> 0\<close> (square root of
  a negative variance); every other input, \<open>|rho| > 1\<close> with \<open>sig_e = 0\<close> included,
  runs to the end.
\<close>

theorem rouwenhorst_error_iff:
  "(\<exists>e. rouwenhorst N rho sig_e = Inl e) \<longleftrightarrow>
     N < 1 \<or> \<bar>rho\<bar> = 1 \<or> (1 < \<bar>rho\<bar> \<and> sig_e \<noteq> 0)"
proof
  assume "\<exists>e. rouwenhorst N rho sig_e = Inl e"
  then obtain e where err: "rouwenhorst N rho sig_e = Inl e" by blast
  show "N < 1 \<or> \<bar>rho\<bar> = 1 \<or> (1 < \<bar>rho\<bar> \<and> sig_e \<noteq> 0)"
  proof (rule ccontr)
    assume ok: "\<not> (N < 1 \<or> \<bar>rho\<bar> = 1 \<or> (1 < \<bar>rho\<bar> \<and> sig_e \<noteq> 0))"
    have r: "1 - rho\<^sup>2 \<noteq> 0" using ok abs_square_eq_1 [of rho] by auto
    have v: "0 \<le> sig_e\<^sup>2 / (1 - rho\<^sup>2)"
    proof (cases "\<bar>rho\<bar> < 1")
      case True
      then show ?thesis using abs_square_less_1 [of rho] by simp
    next
      case False
      then have "sig_e = 0" using ok by auto
      then show ?thesis by simp
    qed
    obtain s M where "rw_loop ((1 + rho) / 2) ((1 + rho) / 2) N 3 (rw_init ((1 + rho) / 2) ((1 + rho) / 2)) = Inr s"
      and "read_square N (mPI_new s) = Inr M"
      using rw_run_ok [of N "(1 + rho) / 2" "(1 + rho) / 2"] ok by auto
    then show False using err r v ok by (simp add: rouwenhorst_def Let_def)
  qed
next
  assume bad: "N < 1 \<or> \<bar>rho\<bar> = 1 \<or> (1 < \<bar>rho\<bar> \<and> sig_e \<noteq> 0)"
  show "\<exists>e. rouwenhorst N rho sig_e = Inl e"
  proof (cases "rouwenhorst N rho sig_e")
    case (Inr c)
    then show ?thesis using rouwenhorst_Inr_cond [OF Inr] bad by auto
  qed simp
qed

lemma rouwenhorst_error_iff_witness: "\<exists>e. rouwenhorst 5 1 0.007 = Inl e"
  using rouwenhorst_error_iff [of 5 1 "0.007"] by simp

text \<open>
  C24. For \<open>N = 1\<close> and \<open>N = 2\<close> the loop never runs and the display reads the
  zero-initialised \<open>3 \<times> 3\<close> matrix \<open>mPI_new\<close>: the printed matrix is all zeros, not
  a transition matrix (not the \<open>[[1]]\<close> or \<open>[[p, 1 - p], [1 - q, q]]\<close> of the spec).
\<close>

theorem rouwenhorst_small_N:
  assumes "1 \<le> N" "N \<le> 2" "\<bar>rho\<bar> < 1"
  shows "\<exists>c. rouwenhorst N rho sig_e = Inr c \<and> mc_trans c = mat_of (nat N) (nat N) (\<lambda>_ _. 0)
           \<and> \<not> stochastic (nat N) (mc_trans c)"
proof -
  obtain c where c: "rouwenhorst N rho sig_e = Inr c" and z: "mc_trans c = mat_of (nat N) (nat N) (\<lambda>_ _. 0)"
    using rouwenhorst_run_small [OF assms] by blast
  have "0 < nat N" using assms(1) by simp
  then have "\<not> stochastic (nat N) (mat_of (nat N) (nat N) (\<lambda>_ _. 0))"
    by (auto simp: stochastic_def intro: exI [of _ 0])
  then show ?thesis using c z by simp
qed

lemma rouwenhorst_small_N_witness:
  "1 \<le> (2::int) \<and> (2::int) \<le> 2 \<and> \<bar>0.95::real\<bar> < 1 \<and>
   (\<exists>c. rouwenhorst 2 0.95 0.007 = Inr c \<and> mc_trans c = [[0, 0], [0, 0]]
        \<and> \<not> stochastic 2 (mc_trans c))"
  using rouwenhorst_small_N [of 2 "0.95" "0.007"] by (simp add: mat_of_def upt_rec)

text \<open>
  C30. Whatever \<open>p\<close> and \<open>q\<close>, for \<open>N \<ge> 1\<close> none of the Armadillo operations of the
  loop and the display throws: every sub-matrix bound and every size check holds.
\<close>

theorem rouwenhorst_no_exception:
  "1 \<le> N \<Longrightarrow> \<exists>s M. rw_loop p q N 3 (rw_init p q) = Inr s \<and> read_square N (mPI_new s) = Inr M"
  by (rule rw_run_ok)

lemma rouwenhorst_no_exception_witness:
  "1 \<le> (7::int) \<and> (\<exists>s M. rw_loop 2 (-3) 7 3 (rw_init 2 (-3)) = Inr s \<and> read_square 7 (mPI_new s) = Inr M)"
  using rouwenhorst_no_exception [of 7 2 "-3"] by simp

text \<open>
  C32. For \<open>N \<ge> 2\<close>, \<open>|rho| < 1\<close> and \<open>sig_e \<noteq> 0\<close> the grid has \<open>N\<close> points, is symmetric
  about 0 and strictly increasing.
\<close>

theorem rouwenhorst_grid_shape:
  assumes "2 \<le> N" "\<bar>rho\<bar> < 1" "sig_e \<noteq> 0"
  shows "\<exists>c. rouwenhorst N rho sig_e = Inr c \<and> length (mc_grid c) = nat N \<and>
    (\<forall>k<nat N. mc_grid c ! (nat N - 1 - k) = - (mc_grid c ! k)) \<and>
    (\<forall>j k. j < k \<and> k < nat N \<longrightarrow> mc_grid c ! j < mc_grid c ! k)"
proof -
  define z where "z = sqrt (sig_e ^ 2 / (1 - rho ^ 2)) * sqrt (real_of_int (N - 1))"
  obtain c where c: "rouwenhorst N rho sig_e = Inr c" "mc_grid c = linspace (- z) z (nat N)"
    using rouwenhorst_grid [of N rho sig_e] assms(1,2) by (auto simp: z_def)
  have n: "2 \<le> nat N" using assms(1) by linarith
  have "0 < 1 - rho ^ 2" using assms(2) abs_square_less_1 [of rho] by simp
  then have "- z < z" using assms(1,3) by (simp add: z_def)
  then show ?thesis
    using c linspace_reflect [OF n] linspace_strict_mono [OF n] by auto
qed

lemma rouwenhorst_grid_shape_witness:
  "2 \<le> (5::int) \<and> \<bar>0.95::real\<bar> < 1 \<and> (0.007::real) \<noteq> 0 \<and>
   (\<exists>c. rouwenhorst 5 0.95 0.007 = Inr c \<and> length (mc_grid c) = 5 \<and>
    (\<forall>k<5. mc_grid c ! (4 - k) = - (mc_grid c ! k)) \<and>
    (\<forall>j k. j < k \<and> k < 5 \<longrightarrow> mc_grid c ! j < mc_grid c ! k))"
  using rouwenhorst_grid_shape [of 5 "0.95" "0.007"] by simp

text \<open>
  C16. The display of every successful run never reads outside \<open>vZ\<close> or \<open>mPI_new\<close>, and
  reading its text back gives the grid and the matrix rounded to four decimals.
\<close>

theorem rouwenhorst_output_roundtrip:
  assumes "rouwenhorst N rho sig_e = Inr c"
  shows "\<exists>s. rouwenhorst_output N rho sig_e = Inr s \<and>
           read_chain s = Some (map round4 (mc_grid c), map (map round4) (mc_trans c))"
proof -
  have sh: "1 \<le> N" "length (mc_grid c) = nat N" "is_mat (nat N) (nat N) (mc_trans c)"
    using rouwenhorst_Inr_shape [OF assms] by simp_all
  have "\<And>r. r \<in> set (mc_trans c) \<Longrightarrow> r \<noteq> []"
    using sh(1,3) by (auto simp: is_mat_def in_set_conv_nth)
  then show ?thesis
    using assms print_chain_ok [OF sh(2,3)] sh(1) read_chain_text by (simp add: rouwenhorst_output_def)
qed

lemma rouwenhorst_output_roundtrip_witness:
  "\<exists>s. rouwenhorst_output 5 0.95 0.007 = Inr s \<and> read_chain s =
     Some (map round4 (mc_grid (rouwenhorst_spec 5 0.95 0.007)), map (map round4) (mc_trans (rouwenhorst_spec 5 0.95 0.007)))"
  using rouwenhorst_output_roundtrip [of 5 "0.95" "0.007" "rouwenhorst_spec 5 0.95 0.007"]
    rouwenhorst_eq_spec [of 5 "0.95" "0.007"] by simp

text \<open>
  C27. The complete output of the program with the file's parameters (\<open>N = 5\<close>,
  \<open>rho = 0.95\<close>, \<open>sig_e = 0.007\<close>): the grid \<open>\<plusminus>0.0448, \<plusminus>0.0224, 0\<close> and the \<open>5 \<times> 5\<close>
  matrix built from \<open>[[0.975, 0.025], [0.025, 0.975]]\<close>, every line as printed.
\<close>

theorem rouwenhorst_main_output:
  "rouwenhorst_main = Inr (''Grids are'' @ [nl] @ ''-0.0448 -0.0224 0.0000 0.0224 0.0448 ''
     @ [nl, CHR '' '', nl] @ ''Transition Prob Matrix is '' @ [nl]
     @ ''0.9037 0.0927 0.0036 0.0001 0.0000'' @ [nl] @ ''0.0232 0.9055 0.0696 0.0018 0.0000'' @ [nl]
     @ ''0.0006 0.0464 0.9061 0.0464 0.0006'' @ [nl] @ ''0.0000 0.0018 0.0696 0.9055 0.0232'' @ [nl]
     @ ''0.0000 0.0001 0.0036 0.0927 0.9037'' @ [nl])"
proof -
  define s where "s = sqrt ((0.007::real) ^ 2 / (1 - 0.95 ^ 2))"
  have b: "0.02241 < s" "s < 0.02242" unfolding s_def by (rule rw_small_zmax)+
  have "rouwenhorst 5 0.95 0.007 = Inr \<lparr>mc_grid = linspace (- (s * 2)) (s * 2) 5, mc_trans = rw_matrix (39 / 40) (39 / 40) 3\<rparr>"
    using rouwenhorst_eq_spec [of 5 "0.95" "0.007"] by (simp add: rouwenhorst_spec_def Let_def s_def real_sqrt_four)
  then have c: "rouwenhorst 5 0.95 0.007 = Inr \<lparr>mc_grid = [- (2 * s), - s, 0, s, 2 * s], mc_trans = rw_matrix (39 / 40) (39 / 40) 3\<rparr>"
    by (simp add: linspace_5 mult.commute)
  have m: "is_mat 5 5 (rw_matrix (39 / 40) (39 / 40) 3)" using is_mat_rw_matrix [of 3] by simp
  have f: "fixed4 (- (2 * s)) = ''-0.0448''" "fixed4 (- s) = ''-0.0224''" "fixed4 s = ''0.0224''"
      "fixed4 (2 * s) = ''0.0448''"
    using b fixed4_eqI [of 448 "- (2 * s)"] fixed4_eqI [of 224 "- s"] fixed4_eqI [of 224 s] fixed4_eqI [of 448 "2 * s"]
    by (simp_all add: pad4_def digit_char_def)
  have p: "print_chain 5 \<lparr>mc_grid = [- (2 * s), - s, 0, s, 2 * s], mc_trans = rw_matrix (39 / 40) (39 / 40) 3\<rparr>
      = Inr (chain_text [- (2 * s), - s, 0, s, 2 * s] (rw_matrix (39 / 40) (39 / 40) 3))"
    using print_chain_ok [where N = 5 and c = "\<lparr>mc_grid = [- (2 * s), - s, 0, s, 2 * s], mc_trans = rw_matrix (39 / 40) (39 / 40) 3\<rparr>"] m
    by simp
  have e:
      "fixed4 (2313441/2560000) = ''0.9037''"
      "fixed4 (59319/640000) = ''0.0927''"
      "fixed4 (4563/1280000) = ''0.0036''"
      "fixed4 (39/640000) = ''0.0001''"
      "fixed4 (1/2560000) = ''0.0000''"
      "fixed4 (59319/2560000) = ''0.0232''"
      "fixed4 (579501/640000) = ''0.9055''"
      "fixed4 (89037/1280000) = ''0.0696''"
      "fixed4 (1141/640000) = ''0.0018''"
      "fixed4 (39/2560000) = ''0.0000''"
      "fixed4 (1521/2560000) = ''0.0006''"
      "fixed4 (29679/640000) = ''0.0464''"
      "fixed4 (1159763/1280000) = ''0.9061''"
      "fixed4 0 = ''0.0000''"
    by (simp_all add: fixed4_def round_half_even_def Let_def pad4_def digit_char_def)
  show ?thesis
    using c p unfolding rouwenhorst_main_def rouwenhorst_output_def rw_matrix_main
    by (simp add: chain_text_def row_text_def f e)
qed

text \<open>
  C25. With \<open>N = 2\<close> (and the file's \<open>rho\<close>, \<open>sig_e\<close>) the program prints the grid
  \<open>-0.0224 0.0224\<close> and an all-zero matrix instead of \<open>[[0.975, 0.025], [0.025, 0.975]]\<close>.
\<close>

theorem rouwenhorst_output_N2:
  "rouwenhorst_output 2 0.95 0.007 = Inr (''Grids are'' @ [nl] @ ''-0.0224 0.0224 '' @ [nl, CHR '' '', nl]
     @ ''Transition Prob Matrix is '' @ [nl] @ ''0.0000 0.0000'' @ [nl] @ ''0.0000 0.0000'' @ [nl])"
proof -
  define z where "z = sqrt ((0.007::real) ^ 2 / (1 - 0.95 ^ 2))"
  have b: "0.02241 < z" "z < 0.02242" unfolding z_def by (rule rw_small_zmax)+
  obtain c where c: "rouwenhorst 2 0.95 0.007 = Inr c" "mc_trans c = mat_of 2 2 (\<lambda>_ _. 0)"
    using rouwenhorst_run_small [of 2 "0.95" "0.007"] by auto
  obtain c' where c': "rouwenhorst 2 0.95 0.007 = Inr c'" "mc_grid c' = linspace (- z) z 2"
    using rouwenhorst_grid [of 2 "0.95" "0.007"] by (auto simp: z_def)
  have g: "mc_grid c = [- z, z]" using c c' by (simp add: linspace_def upt_rec)
  have f: "fixed4 (- z) = ''-0.0224''" "fixed4 z = ''0.0224''"
    using b fixed4_eqI [of 224 "- z"] fixed4_eqI [of 224 z] by (simp_all add: pad4_def digit_char_def)
  have f0: "fixed4 0 = ''0.0000''"
    by (simp add: fixed4_def round_half_even_def pad4_def digit_char_def)
  have "print_chain 2 c = Inr (chain_text (mc_grid c) (mc_trans c))"
    by (rule print_chain_ok) (simp_all add: g c(2))
  then show ?thesis
    using c(1) by (simp add: rouwenhorst_output_def chain_text_def g c(2) f f0 row_text_def mat_of_def upt_rec)
qed

text \<open>
  C17. Invariant of the loop state: every state the loop reaches before the pass with
  counter \<open>i\<close> holds in \<open>mPI_old\<close> the \<open>(i - 1) \<times> (i - 1)\<close> matrix of the recursion, and
  after the first pass \<open>mPI_new\<close> equals \<open>mPI_old\<close>.
\<close>

theorem rw_reach_invariant:
  "rw_reach p q i s \<Longrightarrow> 3 \<le> i \<and> mPI_old s = rw_matrix p q (i - 3) \<and> (4 \<le> i \<longrightarrow> mPI_new s = mPI_old s)"
  by (rule rw_reach_inv)

lemma rw_reach_invariant_witness:
  "\<exists>s. rw_reach (39 / 40) (39 / 40) 4 s \<and> mPI_old s = rw_matrix (39 / 40) (39 / 40) 1 \<and> mPI_new s = mPI_old s"
proof -
  obtain s where s: "rw_body (39 / 40) (39 / 40) 3 (rw_init (39 / 40) (39 / 40)) = Inr s"
    using rw_body_pass [of 3 "rw_init (39 / 40) (39 / 40)" "39 / 40" "39 / 40"] by (auto simp: rw_init_old)
  have r: "rw_reach (39 / 40) (39 / 40) 4 s"
    using rw_reach.pass [OF rw_reach.start s] by (simp add: numeral_eq_Suc)
  show ?thesis using r rw_reach_invariant [OF r] by auto
qed

text \<open>
  C18. Liveness: from every reachable state with counter at most \<open>N + 1\<close> the loop runs to
  its exit \<open>i = N + 1\<close> with no exception, in a reachable state.
\<close>

theorem rw_loop_exits:
  "rw_reach p q i s \<Longrightarrow> int i \<le> N + 1 \<Longrightarrow> \<exists>s'. rw_loop p q N i s = Inr s' \<and> rw_reach p q (nat (N + 1)) s'"
  by (rule rw_reach_run)

lemma rw_loop_exits_witness:
  "\<exists>s'. rw_loop (39 / 40) (39 / 40) 5 3 (rw_init (39 / 40) (39 / 40)) = Inr s' \<and> rw_reach (39 / 40) (39 / 40) 6 s'"
  using rw_loop_exits [OF rw_reach.start, of 5] by simp

end
