(* ===== verification/RouwenhorstChain.thy ===== *)
theory RouwenhorstChain
  imports Rouwenhorst
begin

text \<open>
  What the matrix of Rouwenhorst's recursion (\<open>rw_matrix\<close> of \<open>Rouwenhorst\<close>) is, and so,
  through the refinement proved there, what \<^verbatim>\<open>src/rouwenhorst.cpp\<close> prints: every row is
  a probability distribution (the embeddings keep the row sums, the halving corrects the
  double count); row \<open>i\<close> has the mean and variance of the AR(1) process started at grid
  point \<open>z\<^sub>i\<close>; the first and last rows are binomial distributions; and for \<open>p = q\<close> the
  chain is symmetric under \<open>z \<mapsto> -z\<close>. The row lemmas share one lemma,
  \<open>rw_step_row_wsum\<close>, that gives any weighted row sum of a step from the same sums of
  the previous matrix.
\<close>

subsection \<open>Row sums and signs of the recursion\<close>

lemma rw_embed_row_wsum:
  assumes "length M = k" "b \<le> 1"
  shows "(\<Sum>j<Suc k. w j * rw_embed M a b i j) =
           (if a \<le> i \<and> i < a + k then (\<Sum>j<k. w (j + b) * M ! (i - a) ! j) else 0)"
proof (cases "a \<le> i \<and> i < a + k")
  case True
  then have "(\<Sum>j<Suc k. w j * rw_embed M a b i j)
      = (\<Sum>j<Suc k. if b \<le> j \<and> j < b + k then w (j - b + b) * M ! (i - a) ! (j - b) else 0)"
    using assms(1) by (intro sum.cong) (auto simp: rw_embed_def)
  also have "\<dots> = (\<Sum>j<k. w (j + b) * M ! (i - a) ! j)"
    using assms(2) by (intro sum_shift_window) simp
  finally show ?thesis using True by simp
next
  case False
  then have "\<And>j. rw_embed M a b i j = 0" using assms(1) by (auto simp: rw_embed_def)
  then show ?thesis using False by auto
qed

lemma rw_step_entry:
  "i < Suc (length M) \<Longrightarrow> j < Suc (length M) \<Longrightarrow> rw_step p q M ! i ! j =
     (if 1 \<le> i \<and> i \<le> length M - 1 then 0.5 else 1) *
     (p * rw_embed M 0 0 i j + (1 - p) * rw_embed M 0 1 i j
      + (1 - q) * rw_embed M 1 0 i j + q * rw_embed M 1 1 i j)"
  by (simp add: rw_step_def Let_def)

lemma rw_step_row_wsum:
  fixes w :: "nat \<Rightarrow> real" and R :: "nat \<Rightarrow> nat \<Rightarrow> real"
  assumes "length M = k" "i < Suc k"
    and "\<And>a b. a \<le> 1 \<Longrightarrow> b \<le> 1 \<Longrightarrow> a \<le> i \<Longrightarrow> i < a + k \<Longrightarrow> (\<Sum>j<k. w (j + b) * M ! (i - a) ! j) = R a b"
  shows "(\<Sum>j<Suc k. w j * rw_step p q M ! i ! j) = (if 1 \<le> i \<and> i \<le> k - 1 then 0.5 else 1) *
           (p * (if i < k then R 0 0 else 0) + (1 - p) * (if i < k then R 0 1 else 0)
            + (1 - q) * (if 1 \<le> i then R 1 0 else 0) + q * (if 1 \<le> i then R 1 1 else 0))"
proof -
  let ?h = "if 1 \<le> i \<and> i \<le> k - 1 then 0.5 else (1::real)"
  let ?T = "\<lambda>a b. \<Sum>j<Suc k. w j * rw_embed M a b i j"
  have T: "?T a b = (if a \<le> i \<and> i < a + k then R a b else 0)" if "a \<le> 1" "b \<le> 1" for a b
    using rw_embed_row_wsum [OF assms(1) that(2), of w a i] assms(3) [OF that] by simp
  have T0: "?T 0 b = (if i < k then R 0 b else 0)" if "b \<le> 1" for b
    using T [OF _ that, of 0] by simp
  have T1: "?T 1 b = (if 1 \<le> i then R 1 b else 0)" if "b \<le> 1" for b
    using T [OF order_refl that] assms(2) by simp
  have "(\<Sum>j<Suc k. w j * rw_step p q M ! i ! j) = (\<Sum>j<Suc k. ?h *
      (p * (w j * rw_embed M 0 0 i j) + (1 - p) * (w j * rw_embed M 0 1 i j)
       + (1 - q) * (w j * rw_embed M 1 0 i j) + q * (w j * rw_embed M 1 1 i j)))"
    using assms(1,2) by (intro sum.cong) (simp_all add: rw_step_entry algebra_simps)
  also have "\<dots> = ?h * (p * ?T 0 0 + (1 - p) * ?T 0 1 + (1 - q) * ?T 1 0 + q * ?T 1 1)"
    by (simp only: sum.distrib sum_distrib_left [symmetric])
  finally show ?thesis
    by (simp only: T0 [OF zero_le_one] T0 [OF order_refl] T1 [OF zero_le_one] T1 [OF order_refl])
qed

lemma rw_step_row_sum:
  assumes "length M = k" "0 < k" "\<And>r. r < k \<Longrightarrow> (\<Sum>j<k. M ! r ! j) = 1" "i < Suc k"
  shows "(\<Sum>j<Suc k. rw_step p q M ! i ! j) = 1"
proof -
  have "(\<Sum>j<Suc k. 1 * rw_step p q M ! i ! j) = (if 1 \<le> i \<and> i \<le> k - 1 then 0.5 else 1) *
           (p * (if i < k then 1 else 0) + (1 - p) * (if i < k then 1 else 0)
            + (1 - q) * (if 1 \<le> i then 1 else 0) + q * (if 1 \<le> i then 1 else 0))"
    by (rule rw_step_row_wsum [OF assms(1,4)]) (use assms(3) in auto)
  then show ?thesis using assms(2,4) by (auto simp: algebra_simps)
qed


lemma rw_step_nonneg:
  assumes "length M = k" "\<And>r c. r < k \<Longrightarrow> c < k \<Longrightarrow> 0 \<le> M ! r ! c"
    and "0 \<le> p" "p \<le> 1" "0 \<le> q" "q \<le> 1" "i < Suc k" "j < Suc k"
  shows "0 \<le> rw_step p q M ! i ! j"
proof -
  have "0 \<le> rw_embed M a b i j" if "a \<le> 1" "b \<le> 1" for a b
    using assms(1,2) that by (auto simp: rw_embed_def)
  then show ?thesis using assms by (simp add: rw_step_entry)
qed

lemma rw_matrix_row_sum: "i < k + 2 \<Longrightarrow> (\<Sum>j<k + 2. rw_matrix p q k ! i ! j) = 1"
proof (induction k arbitrary: i)
  case 0
  then show ?case by (auto simp: less_Suc_eq numeral_2_eq_2)
next
  case (Suc k)
  then show ?case using rw_step_row_sum [where M = "rw_matrix p q k" and k = "k + 2"] by simp
qed

lemma rw_matrix_nonneg:
  "0 \<le> p \<Longrightarrow> p \<le> 1 \<Longrightarrow> 0 \<le> q \<Longrightarrow> q \<le> 1 \<Longrightarrow> i < k + 2 \<Longrightarrow> j < k + 2
     \<Longrightarrow> 0 \<le> rw_matrix p q k ! i ! j"
proof (induction k arbitrary: i j)
  case 0
  then show ?case by (auto simp: less_Suc_eq numeral_2_eq_2)
next
  case (Suc k)
  then show ?case using rw_step_nonneg [where M = "rw_matrix p q k" and k = "k + 2"] by simp
qed

lemma rw_matrix_stochastic:
  "0 \<le> p \<Longrightarrow> p \<le> 1 \<Longrightarrow> 0 \<le> q \<Longrightarrow> q \<le> 1 \<Longrightarrow> stochastic (k + 2) (rw_matrix p q k)"
  by (intro stochasticI is_mat_rw_matrix rw_matrix_nonneg rw_matrix_row_sum)

subsection \<open>The conditional mean and variance\<close>

text \<open>
  Row \<open>i\<close> of the \<open>n \<times> n\<close> matrix has mean index \<open>(n - 1)(1 - p) + (p + q - 1) i\<close>; on the
  equispaced grid with \<open>p = q\<close> this is the AR(1) conditional mean \<open>(2p - 1) z\<^sub>i\<close>. Its
  second moment gives the variance \<open>(n - 1 - i) p (1 - p) + i q (1 - q)\<close> in index units,
  \<open>(n - 1) p (1 - p)\<close> for \<open>p = q\<close>, which on the grid is \<open>4 z\<^sup>2 p (1 - p) / (n - 1)\<close>.
\<close>

lemma rw_step_row_moment:
  assumes "length M = k" "0 < k" "\<And>r. r < k \<Longrightarrow> (\<Sum>j<k. M ! r ! j) = 1"
    and "\<And>r. r < k \<Longrightarrow> (\<Sum>j<k. real j * M ! r ! j) = (real k - 1) * (1 - p) + (p + q - 1) * real r"
    and "i < Suc k"
  shows "(\<Sum>j<Suc k. real j * rw_step p q M ! i ! j) = real k * (1 - p) + (p + q - 1) * real i"
proof -
  define F where "F r = (real k - 1) * (1 - p) + (p + q - 1) * real r" for r
  have R: "(\<Sum>j<k. real (j + b) * M ! (i - a) ! j) = F (i - a) + real b"
    if "a \<le> 1" "b \<le> 1" "a \<le> i" "i < a + k" for a b
  proof -
    have r: "i - a < k" using that by simp
    show ?thesis
      using assms(3,4) [OF r] by (simp add: F_def algebra_simps sum.distrib sum_distrib_left [symmetric])
  qed
  have "(\<Sum>j<Suc k. real j * rw_step p q M ! i ! j) = (if 1 \<le> i \<and> i \<le> k - 1 then 0.5 else 1) *
           (p * (if i < k then F i else 0) + (1 - p) * (if i < k then F i + 1 else 0)
            + (1 - q) * (if 1 \<le> i then F (i - 1) else 0) + q * (if 1 \<le> i then F (i - 1) + 1 else 0))"
    using rw_step_row_wsum [OF assms(1,5) R] by simp
  also have "\<dots> = real k * (1 - p) + (p + q - 1) * real i"
  proof -
    consider "i = 0" | "i = k" | "1 \<le> i" "i < k" using assms(2,5) by linarith
    then show ?thesis
    proof cases
      case 1
      then show ?thesis using assms(2) by (simp add: F_def algebra_simps)
    next
      case 2
      moreover have "\<not> k \<le> k - Suc 0" using assms(2) by simp
      ultimately show ?thesis using assms(2) by (simp add: F_def algebra_simps of_nat_diff)
    next
      case 3
      moreover have "i \<le> k - Suc 0" using 3 by simp
      ultimately show ?thesis by (simp add: F_def algebra_simps of_nat_diff)
    qed
  qed
  finally show ?thesis .
qed


lemma rw_matrix_row_moment:
  "i < k + 2 \<Longrightarrow> (\<Sum>j<k + 2. real j * rw_matrix p q k ! i ! j) = (real k + 1) * (1 - p) + (p + q - 1) * real i"
proof (induction k arbitrary: i)
  case 0
  then show ?case by (auto simp: less_Suc_eq numeral_2_eq_2 algebra_simps)
next
  case (Suc k)
  have "(\<Sum>j<Suc (k + 2). real j * rw_step p q (rw_matrix p q k) ! i ! j)
      = real (k + 2) * (1 - p) + (p + q - 1) * real i"
    by (rule rw_step_row_moment) (use Suc rw_matrix_row_sum in auto)
  then show ?case by (simp add: algebra_simps)
qed

lemma rw_grid_mean:
  assumes "2 \<le> n" "i < n"
  shows "(\<Sum>j<n. rw_matrix p p (n - 2) ! i ! j * linspace (- z) z n ! j)
           = (2 * p - 1) * linspace (- z) z n ! i"
proof -
  define d where "d = 2 * z / real (n - 1)"
  have n: "n - 2 + 2 = n" using assms(1) by simp
  have dn: "d * real (n - 1) = 2 * z" using assms(1) by (simp add: d_def)
  have nth: "\<And>j. j < n \<Longrightarrow> linspace (- z) z n ! j = - z + real j * d"
    using linspace_nth [OF assms(1)] by (simp add: d_def)
  let ?M = "rw_matrix p p (n - 2)"
  have "(\<Sum>j<n. ?M ! i ! j * linspace (- z) z n ! j) = (\<Sum>j<n. - z * ?M ! i ! j + d * (real j * ?M ! i ! j))"
  proof (intro sum.cong refl)
    fix j assume "j \<in> {..<n}"
    then have "linspace (- z) z n ! j = - z + real j * d" by (simp add: nth)
    then show "?M ! i ! j * linspace (- z) z n ! j = - z * ?M ! i ! j + d * (real j * ?M ! i ! j)"
      by (simp only:) (simp add: algebra_simps)
  qed
  also have "\<dots> = - z * (\<Sum>j<n. ?M ! i ! j) + d * (\<Sum>j<n. real j * ?M ! i ! j)"
    by (simp only: sum.distrib sum_distrib_left)
  also have "\<dots> = - z + d * ((real (n - 2) + 1) * (1 - p) + (2 * p - 1) * real i)"
  proof -
    have "(\<Sum>j<n. ?M ! i ! j) = 1"
      using rw_matrix_row_sum [of i "n - 2" p p, unfolded n] assms(2) .
    moreover have "(\<Sum>j<n. real j * ?M ! i ! j) = (real (n - 2) + 1) * (1 - p) + (p + p - 1) * real i"
      using rw_matrix_row_moment [of i "n - 2" p p, unfolded n] assms(2) .
    ultimately show ?thesis by simp
  qed
  also have "\<dots> = (2 * p - 1) * (- z + real i * d)"
  proof -
    have e: "real (n - 2) + 1 = real (n - 1)" using assms(1) by (simp add: of_nat_diff)
    have f: "d * (real (n - 1) * (1 - p)) = 2 * z * (1 - p)" using dn by (simp add: mult.assoc [symmetric])
    show ?thesis by (simp only: e distrib_left f) (simp add: algebra_simps)
  qed
  finally show ?thesis using nth [OF assms(2)] by simp
qed

lemma rw_step_row_moment2:
  fixes p q :: real
  defines "F \<equiv> \<lambda>k r. (real k - 1) * (1 - p) + (p + q - 1) * real r"
  defines "G \<equiv> \<lambda>k r. (F k r)\<^sup>2 + (real k - 1 - real r) * (p * (1 - p)) + real r * (q * (1 - q))"
  assumes "length M = k" "0 < k" "\<And>r. r < k \<Longrightarrow> (\<Sum>j<k. M ! r ! j) = 1"
    and "\<And>r. r < k \<Longrightarrow> (\<Sum>j<k. real j * M ! r ! j) = F k r"
    and "\<And>r. r < k \<Longrightarrow> (\<Sum>j<k. (real j)\<^sup>2 * M ! r ! j) = G k r"
    and "i < Suc k"
  shows "(\<Sum>j<Suc k. (real j)\<^sup>2 * rw_step p q M ! i ! j) = G (Suc k) i"
proof -
  have R: "(\<Sum>j<k. (real (j + b))\<^sup>2 * M ! (i - a) ! j) = G k (i - a) + 2 * real b * F k (i - a) + (real b)\<^sup>2"
    if "a \<le> 1" "b \<le> 1" "a \<le> i" "i < a + k" for a b
  proof -
    have r: "i - a < k" using that by simp
    have "(\<Sum>j<k. (real (j + b))\<^sup>2 * M ! (i - a) ! j) = (\<Sum>j<k. (real j)\<^sup>2 * M ! (i - a) ! j)
        + 2 * real b * (\<Sum>j<k. real j * M ! (i - a) ! j) + (real b)\<^sup>2 * (\<Sum>j<k. M ! (i - a) ! j)"
      by (simp add: power2_eq_square algebra_simps sum.distrib sum_distrib_left)
    then show ?thesis using assms(5-7) [OF r] by simp
  qed
  have "(\<Sum>j<Suc k. (real j)\<^sup>2 * rw_step p q M ! i ! j) = (if 1 \<le> i \<and> i \<le> k - 1 then 0.5 else 1) *
           (p * (if i < k then G k i else 0) + (1 - p) * (if i < k then G k i + 2 * F k i + 1 else 0)
            + (1 - q) * (if 1 \<le> i then G k (i - 1) else 0)
            + q * (if 1 \<le> i then G k (i - 1) + 2 * F k (i - 1) + 1 else 0))"
    using rw_step_row_wsum [OF assms(3,8) R] by simp
  also have "\<dots> = G (Suc k) i"
  proof -
    consider "i = 0" | "i = k" | "1 \<le> i" "i < k" using assms(4,8) by linarith
    then show ?thesis
    proof cases
      case 1
      then show ?thesis using assms(4) by (simp add: F_def G_def power2_eq_square algebra_simps)
    next
      case 2
      moreover have "\<not> k \<le> k - Suc 0" using assms(4) by simp
      ultimately show ?thesis using assms(4)
        by (simp add: F_def G_def power2_eq_square algebra_simps of_nat_diff)
    next
      case 3
      moreover have "i \<le> k - Suc 0" using 3 by simp
      ultimately show ?thesis by (simp add: F_def G_def power2_eq_square algebra_simps of_nat_diff)
    qed
  qed
  finally show ?thesis .
qed

lemma rw_matrix_row_moment2:
  "i < k + 2 \<Longrightarrow> (\<Sum>j<k + 2. (real j)\<^sup>2 * rw_matrix p q k ! i ! j)
     = ((real k + 1) * (1 - p) + (p + q - 1) * real i)\<^sup>2
       + (real k + 1 - real i) * (p * (1 - p)) + real i * (q * (1 - q))"
proof (induction k arbitrary: i)
  case 0
  then show ?case by (auto simp: less_Suc_eq numeral_2_eq_2 power2_eq_square algebra_simps)
next
  case (Suc k)
  have e: "real (k + 2) - 1 = real k + 1" by simp
  have "(\<Sum>j<Suc (k + 2). (real j)\<^sup>2 * rw_step p q (rw_matrix p q k) ! i ! j)
      = ((real (Suc (k + 2)) - 1) * (1 - p) + (p + q - 1) * real i)\<^sup>2
        + (real (Suc (k + 2)) - 1 - real i) * (p * (1 - p)) + real i * (q * (1 - q))"
  proof (rule rw_step_row_moment2)
    show "\<And>r. r < k + 2 \<Longrightarrow> (\<Sum>j<k + 2. real j * rw_matrix p q k ! r ! j)
        = (real (k + 2) - 1) * (1 - p) + (p + q - 1) * real r"
      unfolding e by (rule rw_matrix_row_moment)
    show "\<And>r. r < k + 2 \<Longrightarrow> (\<Sum>j<k + 2. (real j)\<^sup>2 * rw_matrix p q k ! r ! j)
        = ((real (k + 2) - 1) * (1 - p) + (p + q - 1) * real r)\<^sup>2
          + (real (k + 2) - 1 - real r) * (p * (1 - p)) + real r * (q * (1 - q))"
      unfolding e by (rule Suc.IH)
  qed (use Suc.prems rw_matrix_row_sum in auto)
  then show ?case by (simp add: algebra_simps)
qed

lemma rw_grid_var:
  assumes "2 \<le> n" "i < n"
  shows "(\<Sum>j<n. rw_matrix p p (n - 2) ! i ! j * (linspace (- z) z n ! j - (2 * p - 1) * linspace (- z) z n ! i)\<^sup>2)
           = 4 * z\<^sup>2 * (p * (1 - p)) / real (n - 1)"
proof -
  define d where "d = 2 * z / real (n - 1)"
  define \<mu> where "\<mu> = real (n - 1) * (1 - p) + (2 * p - 1) * real i"
  have n: "n - 2 + 2 = n" using assms(1) by simp
  have n1: "real (n - 2) + 1 = real (n - 1)" using assms(1) by (simp add: of_nat_diff)
  have dn: "d * real (n - 1) = 2 * z" using assms(1) by (simp add: d_def)
  have nth: "\<And>j. j < n \<Longrightarrow> linspace (- z) z n ! j = - z + real j * d"
    using linspace_nth [OF assms(1)] by (simp add: d_def)
  let ?M = "rw_matrix p p (n - 2)"
  have dev: "linspace (- z) z n ! j - (2 * p - 1) * linspace (- z) z n ! i = d * (real j - \<mu>)" if "j < n" for j
  proof -
    have z: "z = d * real (n - 1) / 2" using dn by simp
    show ?thesis
      by (simp only: nth [OF that] nth [OF assms(2)], simp only: z, simp add: \<mu>_def field_simps)
  qed
  have S0: "(\<Sum>j<n. ?M ! i ! j) = 1"
    using rw_matrix_row_sum [of i "n - 2" p p, unfolded n] assms(2) .
  have S1: "(\<Sum>j<n. real j * ?M ! i ! j) = \<mu>"
    using rw_matrix_row_moment [of i "n - 2" p p, unfolded n] assms(2) by (simp add: \<mu>_def n1)
  have "(\<Sum>j<n. (real j)\<^sup>2 * ?M ! i ! j) = ((real (n - 2) + 1) * (1 - p) + (p + p - 1) * real i)\<^sup>2
      + (real (n - 2) + 1 - real i) * (p * (1 - p)) + real i * (p * (1 - p))"
    using rw_matrix_row_moment2 [of i "n - 2" p p, unfolded n] assms(2) .
  also have "\<dots> = \<mu>\<^sup>2 + real (n - 1) * (p * (1 - p))"
    unfolding n1 \<mu>_def by (simp add: algebra_simps)
  finally have S2: "(\<Sum>j<n. (real j)\<^sup>2 * ?M ! i ! j) = \<mu>\<^sup>2 + real (n - 1) * (p * (1 - p))" .
  have "(\<Sum>j<n. ?M ! i ! j * (linspace (- z) z n ! j - (2 * p - 1) * linspace (- z) z n ! i)\<^sup>2)
      = (\<Sum>j<n. d\<^sup>2 * ((real j)\<^sup>2 * ?M ! i ! j) - (2 * \<mu> * d\<^sup>2) * (real j * ?M ! i ! j) + (\<mu>\<^sup>2 * d\<^sup>2) * ?M ! i ! j)"
  proof (intro sum.cong refl)
    fix j assume "j \<in> {..<n}"
    then show "?M ! i ! j * (linspace (- z) z n ! j - (2 * p - 1) * linspace (- z) z n ! i)\<^sup>2
        = d\<^sup>2 * ((real j)\<^sup>2 * ?M ! i ! j) - (2 * \<mu> * d\<^sup>2) * (real j * ?M ! i ! j) + (\<mu>\<^sup>2 * d\<^sup>2) * ?M ! i ! j"
      by (simp only: dev lessThan_iff) (simp add: power2_eq_square algebra_simps)
  qed
  also have "\<dots> = d\<^sup>2 * (\<Sum>j<n. (real j)\<^sup>2 * ?M ! i ! j) - (2 * \<mu> * d\<^sup>2) * (\<Sum>j<n. real j * ?M ! i ! j)
      + (\<mu>\<^sup>2 * d\<^sup>2) * (\<Sum>j<n. ?M ! i ! j)"
    by (simp only: sum.distrib sum_subtractf sum_distrib_left)
  also have "\<dots> = d\<^sup>2 * real (n - 1) * (p * (1 - p))"
    by (simp only: S0 S1 S2) (simp add: power2_eq_square algebra_simps)
  also have "\<dots> = 4 * z\<^sup>2 * (p * (1 - p)) / real (n - 1)"
    using assms(1) by (simp add: d_def power2_eq_square)
  finally show ?thesis .
qed

subsection \<open>The boundary rows\<close>

text \<open>
  The first and the last row of the \<open>(k + 2) \<times> (k + 2)\<close> matrix are binomial distributions:
  each step adds one Bernoulli trial (Pascal's rule), and the halving never touches them.
\<close>

lemma rw_matrix_first_row:
  "j < k + 2 \<Longrightarrow> rw_matrix p q k ! 0 ! j = real (Suc k choose j) * p ^ (Suc k - j) * (1 - p) ^ j"
proof (induction k arbitrary: j)
  case 0
  then show ?case by (auto simp: less_Suc_eq numeral_2_eq_2)
next
  case (Suc k)
  let ?M = "rw_matrix p q k"
  have l: "length ?M = k + 2" by simp
  have "rw_matrix p q (Suc k) ! 0 ! j = p * rw_embed ?M 0 0 0 j + (1 - p) * rw_embed ?M 0 1 0 j"
    using Suc.prems by (simp add: rw_step_entry rw_embed_def)
  also have "\<dots> = p * (if j < k + 2 then real (Suc k choose j) * p ^ (Suc k - j) * (1 - p) ^ j else 0)
      + (1 - p) * (if 1 \<le> j then real (Suc k choose (j - 1)) * p ^ (Suc (Suc k) - j) * (1 - p) ^ (j - 1) else 0)"
    using Suc.prems Suc.IH [of j] Suc.IH [of "j - 1"] by (auto simp: rw_embed_def Suc_diff_le)
  also have "\<dots> = real (Suc (Suc k) choose j) * p ^ (Suc (Suc k) - j) * (1 - p) ^ j"
    using Suc.prems by (intro pascal_weighted) simp
  finally show ?case .
qed

lemma rw_matrix_last_row:
  "j < k + 2 \<Longrightarrow> rw_matrix p q k ! Suc k ! j = real (Suc k choose j) * (1 - q) ^ (Suc k - j) * q ^ j"
proof (induction k arbitrary: j)
  case 0
  then show ?case by (auto simp: less_Suc_eq numeral_2_eq_2)
next
  case (Suc k)
  let ?M = "rw_matrix p q k"
  have "rw_matrix p q (Suc k) ! Suc (Suc k) ! j = (1 - q) * rw_embed ?M 1 0 (Suc (Suc k)) j + q * rw_embed ?M 1 1 (Suc (Suc k)) j"
    using Suc.prems by (simp add: rw_step_entry rw_embed_def)
  also have "\<dots> = (1 - q) * (if j < k + 2 then real (Suc k choose j) * (1 - q) ^ (Suc k - j) * q ^ j else 0)
      + q * (if 1 \<le> j then real (Suc k choose (j - 1)) * (1 - q) ^ (Suc (Suc k) - j) * q ^ (j - 1) else 0)"
    using Suc.prems Suc.IH [of j] Suc.IH [of "j - 1"] by (auto simp: rw_embed_def Suc_diff_le)
  also have "\<dots> = real (Suc (Suc k) choose j) * (1 - q) ^ (Suc (Suc k) - j) * q ^ j"
    using Suc.prems by (intro pascal_weighted) simp
  finally show ?case .
qed

text \<open>For \<open>p = q = 1/2\<close> (\<open>rho = 0\<close>) every row is the binomial distribution.\<close>

lemma rw_matrix_half:
  "i < k + 2 \<Longrightarrow> j < k + 2 \<Longrightarrow>
     rw_matrix (1 / 2) (1 / 2) k ! i ! j = real (Suc k choose j) * (1 / 2) ^ (Suc k - j) * (1 / 2) ^ j"
proof (induction k arbitrary: i j)
  case 0
  then show ?case by (auto simp: less_Suc_eq numeral_2_eq_2)
next
  case (Suc k)
  let ?M = "rw_matrix (1 / 2) (1 / 2) k"
  let ?S = "(if j < k + 2 then real (Suc k choose j) * (1 / 2) ^ (Suc k - j) * (1 / 2) ^ j else 0)
       + (if 1 \<le> j then real (Suc k choose (j - 1)) * (1 / 2) ^ (Suc (Suc k) - j) * (1 / 2) ^ (j - 1) else (0::real))"
  have l: "length ?M = k + 2" by simp
  have e0: "rw_embed ?M 0 0 i j + rw_embed ?M 0 1 i j = (if i < k + 2 then ?S else 0)"
    and e1: "rw_embed ?M 1 0 i j + rw_embed ?M 1 1 i j = (if 1 \<le> i then ?S else 0)"
    using Suc.prems Suc.IH by (auto simp: rw_embed_def l Suc_diff_le)
  have "rw_matrix (1 / 2) (1 / 2) (Suc k) ! i ! j = (if 1 \<le> i \<and> i \<le> k + 1 then 0.5 else 1) *
      (1 / 2 * (rw_embed ?M 0 0 i j + rw_embed ?M 0 1 i j) + 1 / 2 * (rw_embed ?M 1 0 i j + rw_embed ?M 1 1 i j))"
    using Suc.prems by (simp add: rw_step_entry l algebra_simps)
  also have "\<dots> = 1 / 2 * ?S" using Suc.prems unfolding e0 e1 by auto
  also have "\<dots> = real (Suc (Suc k) choose j) * (1 / 2) ^ (Suc (Suc k) - j) * (1 / 2) ^ j"
    using pascal_weighted [of j k "1 / 2" "1 / 2"] Suc.prems by (simp add: distrib_left)
  finally show ?case .
qed

subsection \<open>Symmetry for p = q\<close>

text \<open>
  With \<open>p = q\<close> the recursion commutes with reversing the order of the states: the
  four embeddings are exchanged in pairs of equal weight.
\<close>

lemma rw_embed_reflect:
  assumes "length M = m" "\<And>r c. r < m \<Longrightarrow> c < m \<Longrightarrow> M ! (m - 1 - r) ! (m - 1 - c) = M ! r ! c"
    and "a \<le> 1" "b \<le> 1" "i \<le> m" "j \<le> m"
  shows "rw_embed M a b (m - i) (m - j) = rw_embed M (1 - a) (1 - b) i j"
proof -
  have r: "M ! (m - i - a) ! (m - j - b) = M ! (i - (1 - a)) ! (j - (1 - b))"
    if "1 - a \<le> i" "i < 1 - a + m" "1 - b \<le> j" "j < 1 - b + m"
  proof -
    have e: "m - i - a = m - 1 - (i - (1 - a))" "m - j - b = m - 1 - (j - (1 - b))"
      using that assms(3,4) by arith+
    have lt: "i - (1 - a) < m" "j - (1 - b) < m" using that by arith+
    show ?thesis by (simp only: e) (rule assms(2) [OF lt])
  qed
  have "a \<le> m - i \<and> m - i < a + m \<and> b \<le> m - j \<and> m - j < b + m
      \<longleftrightarrow> 1 - a \<le> i \<and> i < 1 - a + m \<and> 1 - b \<le> j \<and> j < 1 - b + m"
    using assms(3-6) by arith
  then show ?thesis using r assms(1) by (auto simp: rw_embed_def)
qed

lemma rw_matrix_reflect:
  "i < k + 2 \<Longrightarrow> j < k + 2 \<Longrightarrow> rw_matrix p p k ! (k + 1 - i) ! (k + 1 - j) = rw_matrix p p k ! i ! j"
proof (induction k arbitrary: i j)
  case 0
  then show ?case by (auto simp: less_Suc_eq numeral_2_eq_2)
next
  case (Suc k)
  let ?M = "rw_matrix p p k"
  have l: "length ?M = k + 2" by simp
  have IH: "\<And>r c. r < k + 2 \<Longrightarrow> c < k + 2 \<Longrightarrow> ?M ! (k + 2 - 1 - r) ! (k + 2 - 1 - c) = ?M ! r ! c"
    using Suc.IH by simp
  have i: "i \<le> k + 2" "j \<le> k + 2" using Suc.prems by simp_all
  have E: "rw_embed ?M a b (k + 2 - i) (k + 2 - j) = rw_embed ?M (1 - a) (1 - b) i j" if "a \<le> 1" "b \<le> 1" for a b
    by (rule rw_embed_reflect [OF l IH that i])
  have h: "(1 \<le> k + 2 - i \<and> k + 2 - i \<le> k + 2 - 1) \<longleftrightarrow> (1 \<le> i \<and> i \<le> k + 2 - 1)"
    using i by arith
  have "rw_matrix p p (Suc k) ! (Suc k + 1 - i) ! (Suc k + 1 - j)
      = (if 1 \<le> k + 2 - i \<and> k + 2 - i \<le> k + 2 - 1 then 0.5 else 1) *
        (p * rw_embed ?M 0 0 (k + 2 - i) (k + 2 - j) + (1 - p) * rw_embed ?M 0 1 (k + 2 - i) (k + 2 - j)
         + (1 - p) * rw_embed ?M 1 0 (k + 2 - i) (k + 2 - j) + p * rw_embed ?M 1 1 (k + 2 - i) (k + 2 - j))"
    using Suc.prems by (simp add: rw_step_entry)
  also have "\<dots> = (if 1 \<le> i \<and> i \<le> k + 2 - 1 then 0.5 else 1) *
        (p * rw_embed ?M 1 1 i j + (1 - p) * rw_embed ?M 1 0 i j
         + (1 - p) * rw_embed ?M 0 1 i j + p * rw_embed ?M 0 0 i j)"
    by (simp only: h E [OF zero_le_one zero_le_one] E [OF zero_le_one order_refl]
        E [OF order_refl zero_le_one] E [OF order_refl order_refl]) simp
  also have "\<dots> = rw_matrix p p (Suc k) ! i ! j"
    using Suc.prems by (simp add: rw_step_entry algebra_simps)
  finally show ?case .
qed

subsection \<open>Properties of the printed chain\<close>

text \<open>C4. For \<open>N \<ge> 3\<close> and \<open>|rho| < 1\<close> the printed matrix is row-stochastic.\<close>

theorem rouwenhorst_stochastic:
  assumes "3 \<le> N" "\<bar>rho\<bar> < 1"
  shows "\<exists>c. rouwenhorst N rho sig_e = Inr c \<and> stochastic (nat N) (mc_trans c)"
proof -
  have p: "0 \<le> (1 + rho) / 2" "(1 + rho) / 2 \<le> 1" using assms(2) by simp_all
  have e: "nat N - 2 + 2 = nat N" using assms(1) by linarith
  have "stochastic (nat N) (rw_matrix ((1 + rho) / 2) ((1 + rho) / 2) (nat N - 2))"
    using rw_matrix_stochastic [OF p p, of "nat N - 2", unfolded e] .
  then show ?thesis
    using rouwenhorst_eq_spec [OF assms, of sig_e] by (simp add: rouwenhorst_spec_def Let_def)
qed

lemma rouwenhorst_stochastic_witness:
  "3 \<le> (5::int) \<and> \<bar>0.95::real\<bar> < 1 \<and>
   (\<exists>c. rouwenhorst 5 0.95 0.007 = Inr c \<and> stochastic 5 (mc_trans c))"
  using rouwenhorst_stochastic [of 5 "0.95" "0.007"] by simp

text \<open>
  C5. The chain matches the conditional mean of the AR(1) process exactly: for
  \<open>N \<ge> 3\<close> and \<open>|rho| < 1\<close>, from every grid point \<open>z\<^sub>i\<close> the expected next grid point
  \<open>\<Sum>\<^sub>j mPI(i, j) z\<^sub>j\<close> is \<open>rho z\<^sub>i\<close>.
\<close>

theorem rouwenhorst_conditional_mean:
  assumes "3 \<le> N" "\<bar>rho\<bar> < 1"
  shows "\<exists>c. rouwenhorst N rho sig_e = Inr c \<and>
           (\<forall>i<nat N. (\<Sum>j<nat N. mc_trans c ! i ! j * mc_grid c ! j) = rho * mc_grid c ! i)"
proof -
  have n: "2 \<le> nat N" using assms(1) by linarith
  have "2 * ((1 + rho) / 2) - 1 = rho" by (simp add: field_simps)
  then show ?thesis
    using rouwenhorst_eq_spec [OF assms, of sig_e] rw_grid_mean [OF n, of _ "(1 + rho) / 2"]
    by (simp add: rouwenhorst_spec_def Let_def)
qed

lemma rouwenhorst_conditional_mean_witness:
  "3 \<le> (5::int) \<and> \<bar>0.95::real\<bar> < 1 \<and>
   (\<exists>c. rouwenhorst 5 0.95 0.007 = Inr c \<and>
      (\<forall>i<5. (\<Sum>j<5. mc_trans c ! i ! j * mc_grid c ! j) = 0.95 * mc_grid c ! i))"
  using rouwenhorst_conditional_mean [of 5 "0.95" "0.007"] by simp

text \<open>
  C6. The chain matches the conditional variance of the AR(1) process exactly: for
  \<open>N \<ge> 3\<close> and \<open>|rho| < 1\<close>, from every grid point \<open>z\<^sub>i\<close> the expected squared deviation of
  the next grid point from \<open>rho z\<^sub>i\<close> is \<open>sig_e\<^sup>2\<close>.
\<close>

theorem rouwenhorst_conditional_variance:
  assumes "3 \<le> N" "\<bar>rho\<bar> < 1"
  shows "\<exists>c. rouwenhorst N rho sig_e = Inr c \<and>
           (\<forall>i<nat N. (\<Sum>j<nat N. mc_trans c ! i ! j * (mc_grid c ! j - rho * mc_grid c ! i)\<^sup>2) = sig_e\<^sup>2)"
proof -
  define p where "p = (1 + rho) / 2"
  define z where "z = sqrt (sig_e ^ 2 / (1 - rho ^ 2)) * sqrt (real_of_int (N - 1))"
  have n: "2 \<le> nat N" using assms(1) by linarith
  have r: "2 * p - 1 = rho" by (simp add: p_def field_simps)
  have pos: "0 < 1 - rho\<^sup>2" using assms(2) abs_square_less_1 [of rho] by simp
  have N1: "real (nat N - 1) = real_of_int (N - 1)" "0 < real_of_int (N - 1)" using assms(1) by simp_all
  have z2: "z\<^sup>2 = sig_e\<^sup>2 / (1 - rho\<^sup>2) * real_of_int (N - 1)"
    using pos N1(2) by (simp add: z_def power_mult_distrib)
  have pp: "4 * (p * (1 - p)) = 1 - rho\<^sup>2" by (simp add: p_def field_simps power2_eq_square)
  have "4 * z\<^sup>2 * (p * (1 - p)) / real (nat N - 1) = z\<^sup>2 * (4 * (p * (1 - p))) / real_of_int (N - 1)"
    by (simp only: N1(1) mult_ac)
  also have "\<dots> = sig_e\<^sup>2 / (1 - rho\<^sup>2) * (1 - rho\<^sup>2) * (real_of_int (N - 1) / real_of_int (N - 1))"
    by (simp only: pp z2) (simp add: ac_simps)
  also have "\<dots> = sig_e\<^sup>2" using pos N1(2) by simp
  finally have v: "4 * z\<^sup>2 * (p * (1 - p)) / real (nat N - 1) = sig_e\<^sup>2" .
  have c: "rouwenhorst N rho sig_e = Inr \<lparr>mc_grid = linspace (- z) z (nat N), mc_trans = rw_matrix p p (nat N - 2)\<rparr>"
    using rouwenhorst_eq_spec [OF assms, of sig_e] by (simp add: rouwenhorst_spec_def Let_def p_def z_def)
  show ?thesis
  proof (intro exI conjI allI impI, fact c)
    fix i assume "i < nat N"
    from rw_grid_var [OF n this, of p z] show "(\<Sum>j<nat N.
        mc_trans \<lparr>mc_grid = linspace (- z) z (nat N), mc_trans = rw_matrix p p (nat N - 2)\<rparr> ! i ! j *
        (mc_grid \<lparr>mc_grid = linspace (- z) z (nat N), mc_trans = rw_matrix p p (nat N - 2)\<rparr> ! j -
         rho * mc_grid \<lparr>mc_grid = linspace (- z) z (nat N), mc_trans = rw_matrix p p (nat N - 2)\<rparr> ! i)\<^sup>2) = sig_e\<^sup>2"
      by (simp only: markov_chain.select_convs r v)
  qed
qed

lemma rouwenhorst_conditional_variance_witness:
  "3 \<le> (5::int) \<and> \<bar>0.95::real\<bar> < 1 \<and>
   (\<exists>c. rouwenhorst 5 0.95 0.007 = Inr c \<and>
      (\<forall>i<5. (\<Sum>j<5. mc_trans c ! i ! j * (mc_grid c ! j - 0.95 * mc_grid c ! i)\<^sup>2) = 0.007\<^sup>2))"
  using rouwenhorst_conditional_variance [of 5 "0.95" "0.007"] by simp

text \<open>
  C7. The first row of the printed matrix is the binomial distribution
  \<open>Bin(N - 1, 1 - p)\<close> and the last row \<open>Bin(N - 1, p)\<close>, \<open>p = (1 + rho) / 2\<close>, for \<open>N \<ge> 3\<close>
  and \<open>|rho| < 1\<close>: Rouwenhorst's closed form of the boundary rows.
\<close>

theorem rouwenhorst_boundary_rows:
  assumes "3 \<le> N" "\<bar>rho\<bar> < 1"
  defines "p \<equiv> (1 + rho) / 2"
  shows "\<exists>c. rouwenhorst N rho sig_e = Inr c \<and>
           (\<forall>j<nat N. mc_trans c ! 0 ! j = real (nat N - 1 choose j) * p ^ (nat N - 1 - j) * (1 - p) ^ j
                    \<and> mc_trans c ! (nat N - 1) ! j = real (nat N - 1 choose j) * (1 - p) ^ (nat N - 1 - j) * p ^ j)"
proof -
  have e: "Suc (nat N - 2) = nat N - 1" "nat N - 2 + 2 = nat N" using assms(1) by linarith+
  show ?thesis
    using rouwenhorst_eq_spec [OF assms(1,2), of sig_e]
      rw_matrix_first_row [of _ "nat N - 2" p p, unfolded e]
      rw_matrix_last_row [of _ "nat N - 2" p p, unfolded e]
    by (simp add: rouwenhorst_spec_def Let_def p_def)
qed

lemma rouwenhorst_boundary_rows_witness:
  "3 \<le> (5::int) \<and> \<bar>0.95::real\<bar> < 1 \<and>
   (\<exists>c. rouwenhorst 5 0.95 0.007 = Inr c \<and>
      (\<forall>j<5. mc_trans c ! 0 ! j = real (4 choose j) * 0.975 ^ (4 - j) * 0.025 ^ j
             \<and> mc_trans c ! 4 ! j = real (4 choose j) * 0.025 ^ (4 - j) * 0.975 ^ j))"
  using rouwenhorst_boundary_rows [of 5 "0.95" "0.007"] by simp

text \<open>
  C8. The chain is symmetric under \<open>z \<mapsto> -z\<close>: for \<open>N \<ge> 3\<close> and \<open>|rho| < 1\<close> the grid
  point opposite \<open>z\<^sub>i\<close> is \<open>-z\<^sub>i\<close>, and moving between the opposite points has the same
  probability as moving between the points themselves (the matrix is centro-symmetric).
\<close>

theorem rouwenhorst_reflection:
  assumes "3 \<le> N" "\<bar>rho\<bar> < 1"
  shows "\<exists>c. rouwenhorst N rho sig_e = Inr c \<and>
           (\<forall>i<nat N. mc_grid c ! (nat N - 1 - i) = - (mc_grid c ! i) \<and>
              (\<forall>j<nat N. mc_trans c ! (nat N - 1 - i) ! (nat N - 1 - j) = mc_trans c ! i ! j))"
proof -
  have n: "2 \<le> nat N" using assms(1) by linarith
  have e: "nat N - 2 + 1 = nat N - 1" "nat N - 2 + 2 = nat N" using n by simp_all
  show ?thesis
    using rouwenhorst_eq_spec [OF assms, of sig_e] linspace_reflect [OF n]
      rw_matrix_reflect [where k = "nat N - 2" and p = "(1 + rho) / 2", unfolded e]
    by (simp add: rouwenhorst_spec_def Let_def)
qed

lemma rouwenhorst_reflection_witness:
  "3 \<le> (5::int) \<and> \<bar>0.95::real\<bar> < 1 \<and>
   (\<exists>c. rouwenhorst 5 0.95 0.007 = Inr c \<and>
      (\<forall>i<5. mc_grid c ! (4 - i) = - (mc_grid c ! i) \<and>
         (\<forall>j<5. mc_trans c ! (4 - i) ! (4 - j) = mc_trans c ! i ! j)))"
  using rouwenhorst_reflection [of 5 "0.95" "0.007"] by simp

text \<open>
  C12. With \<open>rho = 0\<close> the process is i.i.d.: for \<open>N \<ge> 3\<close> the run succeeds and every row
  of the printed matrix is the binomial distribution \<open>C(N-1, j) / 2\<^sup>N\<^sup>-\<^sup>1\<close>.
\<close>

theorem rouwenhorst_iid:
  assumes "3 \<le> N"
  shows "\<exists>c. rouwenhorst N 0 sig_e = Inr c \<and>
           (\<forall>i<nat N. \<forall>j<nat N. mc_trans c ! i ! j = real (nat N - 1 choose j) / 2 ^ (nat N - 1))"
proof -
  have e: "Suc (nat N - 2) = nat N - 1" "nat N - 2 + 2 = nat N" using assms by linarith+
  have h: "real (nat N - 1 choose j) * (1 / 2) ^ (nat N - 1 - j) * (1 / 2) ^ j = real (nat N - 1 choose j) / 2 ^ (nat N - 1)"
    if "j < nat N" for j :: nat
  proof -
    have "(1 / 2 :: real) ^ (nat N - 1 - j) * (1 / 2) ^ j = (1 / 2) ^ (nat N - 1)"
      using that by (simp add: power_add [symmetric])
    then show ?thesis by (simp add: power_one_over)
  qed
  show ?thesis
    using rouwenhorst_eq_spec [OF assms, of 0 sig_e] rw_matrix_half [of _ "nat N - 2", unfolded e] h
    by (simp add: rouwenhorst_spec_def Let_def)
qed

lemma rouwenhorst_iid_witness:
  "3 \<le> (5::int) \<and> (\<exists>c. rouwenhorst 5 0 0.007 = Inr c \<and> (\<forall>i<5. \<forall>j<5. mc_trans c ! i ! j = real (4 choose j) / 16))"
  using rouwenhorst_iid [of 5 "0.007"] by simp

end
