(* ===== verification/RouwenhorstStationary.thy ===== *)
theory RouwenhorstStationary
  imports RouwenhorstChain
begin

text \<open>
  The stationary distribution of Rouwenhorst's chain. A row of the recursion's matrix is
  read as a function on all column indices (\<open>rw_row\<close>, zero outside the matrix);
  \<open>coin_add a\<close> convolves a row with one two-state chain that adds 0 with weight \<open>a\<close> and 1
  with weight \<open>1 - a\<close>. The invariant \<open>rw_coin\<close> says that row \<open>i\<close> plus a chain in its low
  state equals row \<open>i - 1\<close> plus a chain in its high state; it holds of every matrix of the
  recursion because the two convolutions commute. With it, the rows of one step are the
  top half of the sum for \<open>i < n\<close> and the bottom half for \<open>i \<ge> 1\<close>, and Pascal's rule on
  the binomial weights gives stationarity for \<open>p = q\<close>.
\<close>

subsection \<open>Rows as functions and the two-state chain\<close>

definition rw_row :: "mat \<Rightarrow> nat \<Rightarrow> nat \<Rightarrow> real" where
  "rw_row M i j = (if i < length M \<and> j < length M then M ! i ! j else 0)"

definition coin_add :: "real \<Rightarrow> (nat \<Rightarrow> real) \<Rightarrow> nat \<Rightarrow> real" where
  "coin_add a x j = a * x j + (1 - a) * (if 1 \<le> j then x (j - 1) else 0)"

definition rw_coin :: "real \<Rightarrow> real \<Rightarrow> mat \<Rightarrow> bool" where
  "rw_coin p q M \<longleftrightarrow> (\<forall>i. 1 \<le> i \<and> i < length M \<longrightarrow> coin_add p (rw_row M i) = coin_add (1 - q) (rw_row M (i - 1)))"

subsection \<open>The invariant of the recursion\<close>

lemma coin_add_commute: "coin_add a (coin_add b x) = coin_add b (coin_add a x)"
  by (auto simp: fun_eq_iff coin_add_def algebra_simps)

lemma rw_row_step:
  assumes "is_mat n n M" "i < Suc n"
  shows "rw_row (rw_step p q M) i j = (if 1 \<le> i \<and> i \<le> n - 1 then 1 / 2 else 1) *
           (coin_add p (rw_row M i) j + (if 1 \<le> i then coin_add (1 - q) (rw_row M (i - 1)) j else 0))"
proof (cases "j < Suc n")
  case True
  have l: "length M = n" "\<And>r. r < n \<Longrightarrow> length (M ! r) = n" using assms(1) by (auto simp: is_mat_def)
  show ?thesis
    using True assms(2) l by (auto simp: rw_step_entry rw_embed_def rw_row_def coin_add_def algebra_simps)
next
  case False
  have l: "length M = n" using assms(1) by (simp add: is_mat_def)
  moreover have "\<not> j < n" "\<not> j - 1 < n" "\<not> j < Suc n" using False by arith+
  ultimately show ?thesis by (simp add: rw_row_def coin_add_def)
qed

lemma rw_row_out: "length M \<le> i \<Longrightarrow> rw_row M i = (\<lambda>_. 0)"
  by (simp add: rw_row_def fun_eq_iff)

lemma rw_coinD: "rw_coin p q M \<Longrightarrow> 1 \<le> i \<Longrightarrow> i < length M \<Longrightarrow>
    coin_add (1 - q) (rw_row M (i - 1)) = coin_add p (rw_row M i)"
  unfolding rw_coin_def by simp

lemma rw_step_row_down:
  assumes "is_mat n n M" "rw_coin p q M" "i < n"
  shows "rw_row (rw_step p q M) i = coin_add p (rw_row M i)"
proof
  fix j
  have l: "length M = n" using assms(1) by (simp add: is_mat_def)
  show "rw_row (rw_step p q M) i j = coin_add p (rw_row M i) j"
  proof (cases "i = 0")
    case True
    then show ?thesis using rw_row_step [OF assms(1), of i p q j] assms(3) by simp
  next
    case False
    then have "coin_add (1 - q) (rw_row M (i - 1)) j = coin_add p (rw_row M i) j"
      using rw_coinD [OF assms(2), of i] assms(3) l by simp
    moreover have "i \<le> n - 1" using assms(3) by arith
    ultimately show ?thesis using rw_row_step [OF assms(1), of i p q j] assms(3) False by simp
  qed
qed

lemma rw_step_row_up:
  assumes "is_mat n n M" "rw_coin p q M" "1 \<le> i" "i \<le> n"
  shows "rw_row (rw_step p q M) i = coin_add (1 - q) (rw_row M (i - 1))"
proof
  fix j
  have l: "length M = n" using assms(1) by (simp add: is_mat_def)
  show "rw_row (rw_step p q M) i j = coin_add (1 - q) (rw_row M (i - 1)) j"
  proof (cases "i = n")
    case True
    then have "coin_add p (rw_row M i) j = 0" using rw_row_out [of M i] l by (simp add: coin_add_def)
    moreover have "\<not> i \<le> n - 1" using assms(3) True by arith
    ultimately show ?thesis using rw_row_step [OF assms(1), of i p q j] assms(3,4) True by simp
  next
    case False
    then have "coin_add (1 - q) (rw_row M (i - 1)) j = coin_add p (rw_row M i) j"
      using rw_coinD [OF assms(2), of i] assms(3,4) l by simp
    moreover have "i \<le> n - 1" using assms(4) False by arith
    ultimately show ?thesis using rw_row_step [OF assms(1), of i p q j] assms(3,4) False by simp
  qed
qed

lemma rw_coin_step:
  assumes "is_mat n n M" "rw_coin p q M"
  shows "rw_coin p q (rw_step p q M)"
  unfolding rw_coin_def
proof (intro allI impI)
  fix i assume i: "1 \<le> i \<and> i < length (rw_step p q M)"
  have l: "length M = n" using assms(1) by (simp add: is_mat_def)
  have "coin_add p (rw_row (rw_step p q M) i) = coin_add p (coin_add (1 - q) (rw_row M (i - 1)))"
    using rw_step_row_up [OF assms, of i] i l by simp
  also have "\<dots> = coin_add (1 - q) (coin_add p (rw_row M (i - 1)))" by (rule coin_add_commute)
  also have "\<dots> = coin_add (1 - q) (rw_row (rw_step p q M) (i - 1))"
  proof -
    have "1 \<le> i" "i < Suc n" using i l by simp_all
    then have "i - 1 < n" by arith
    then show ?thesis using rw_step_row_down [OF assms, of "i - 1"] by simp
  qed
  finally show "coin_add p (rw_row (rw_step p q M) i) = coin_add (1 - q) (rw_row (rw_step p q M) (i - 1))" .
qed

lemma rw_coin_matrix: "rw_coin p q (rw_matrix p q k)"
proof (induction k)
  case 0
  have "coin_add p (rw_row [[p, 1 - p], [1 - q, q]] 1) j = coin_add (1 - q) (rw_row [[p, 1 - p], [1 - q, q]] 0) j" for j
    by (cases j) (auto simp: coin_add_def rw_row_def less_Suc_eq numeral_2_eq_2 algebra_simps)
  then show ?case by (auto simp: rw_coin_def fun_eq_iff numeral_2_eq_2 less_Suc_eq)
next
  case (Suc k)
  then show ?case using rw_coin_step [OF is_mat_rw_matrix] by simp
qed

subsection \<open>The binomial distribution is stationary\<close>

lemma coin_add_sum:
  "(\<Sum>i\<in>A. w i * coin_add a (f i) j) = coin_add a (\<lambda>j. \<Sum>i\<in>A. w i * f i j) j"
  by (cases "1 \<le> j") (simp_all add: coin_add_def sum.distrib distrib_left sum_distrib_left mult.left_commute)

lemma coin_add_pair: "coin_add a x j + coin_add (1 - a) x j = x j + (if 1 \<le> j then x (j - 1) else 0)"
  by (simp add: coin_add_def algebra_simps)

lemma binomial_half_Suc:
  "real (Suc n choose j) / 2 ^ Suc n =
     (real (n choose j) / 2 ^ n + (if 1 \<le> j then real (n choose (j - 1)) / 2 ^ n else 0)) / 2"
  by (cases j) (simp_all add: add_divide_distrib)

lemma rw_matrix_stationary:
  "(\<Sum>i<k + 2. real (Suc k choose i) / 2 ^ Suc k * rw_row (rw_matrix p p k) i j) = real (Suc k choose j) / 2 ^ Suc k"
proof (induction k arbitrary: j)
  case 0
  show ?case
    by (cases j) (auto simp: rw_row_def numeral_2_eq_2 less_Suc_eq lessThan_Suc field_simps)
next
  case (Suc k)
  let ?M = "rw_matrix p p k" and ?n = "k + 2"
  let ?b = "\<lambda>j. real (Suc k choose j) / 2 ^ Suc k"
  have m: "is_mat ?n ?n ?M" by (rule is_mat_rw_matrix)
  have c: "rw_coin p p ?M" by (rule rw_coin_matrix)
  have ih: "(\<lambda>j. \<Sum>i<?n. ?b i * rw_row ?M i j) = ?b" using Suc.IH by (simp add: fun_eq_iff)
  have "Suc k choose Suc (Suc k) = 0" by (simp add: binomial_eq_0 del: binomial_Suc_Suc)
  then have "(\<Sum>i<Suc ?n. ?b i * rw_row (rw_step p p ?M) i j) = (\<Sum>i<?n. ?b i * rw_row (rw_step p p ?M) i j)"
    by (simp del: binomial_Suc_Suc)
  also have "\<dots> = (\<Sum>i<?n. ?b i * coin_add p (rw_row ?M i) j)"
    using rw_step_row_down [OF m c] by simp
  also have "\<dots> = coin_add p ?b j" unfolding coin_add_sum ih ..
  finally have t: "(\<Sum>i<Suc ?n. ?b i * rw_row (rw_step p p ?M) i j) = coin_add p ?b j" .
  have "(\<Sum>i<Suc ?n. (if 1 \<le> i then ?b (i - 1) else 0) * rw_row (rw_step p p ?M) i j)
      = (\<Sum>i<?n. ?b i * rw_row (rw_step p p ?M) (Suc i) j)"
    by (simp only: sum.lessThan_Suc_shift) simp
  also have "\<dots> = (\<Sum>i<?n. ?b i * coin_add (1 - p) (rw_row ?M i) j)"
    using rw_step_row_up [OF m c] by simp
  also have "\<dots> = coin_add (1 - p) ?b j" unfolding coin_add_sum ih ..
  finally have b: "(\<Sum>i<Suc ?n. (if 1 \<le> i then ?b (i - 1) else 0) * rw_row (rw_step p p ?M) i j)
      = coin_add (1 - p) ?b j" .
  have ring: "\<And>a b x :: real. (a + b) / 2 * x = (a * x + b * x) / 2" by (simp add: field_simps)
  have "(\<Sum>i<Suc k + 2. real (Suc (Suc k) choose i) / 2 ^ Suc (Suc k) * rw_row (rw_matrix p p (Suc k)) i j)
      = (\<Sum>i<Suc ?n. (?b i * rw_row (rw_step p p ?M) i j
          + (if 1 \<le> i then ?b (i - 1) else 0) * rw_row (rw_step p p ?M) i j) / 2)"
  proof (rule sum.cong)
    show "{..<Suc k + 2} = {..<Suc ?n}" by simp
  next
    fix i
    show "real (Suc (Suc k) choose i) / 2 ^ Suc (Suc k) * rw_row (rw_matrix p p (Suc k)) i j
        = (?b i * rw_row (rw_step p p ?M) i j + (if 1 \<le> i then ?b (i - 1) else 0) * rw_row (rw_step p p ?M) i j) / 2"
      unfolding binomial_half_Suc [of "Suc k" i] rw_matrix.simps(2) by (rule ring)
  qed
  also have "\<dots> = (\<Sum>i<Suc ?n. ?b i * rw_row (rw_step p p ?M) i j) / 2
        + (\<Sum>i<Suc ?n. (if 1 \<le> i then ?b (i - 1) else 0) * rw_row (rw_step p p ?M) i j) / 2"
    by (simp only: add_divide_distrib sum.distrib sum_divide_distrib [symmetric])
  also have "\<dots> = real (Suc (Suc k) choose j) / 2 ^ Suc (Suc k)"
    unfolding t b using coin_add_pair [of p ?b j] binomial_half_Suc [of "Suc k" j] by simp
  finally show ?case .
qed

lemma rw_row_nth: "i < k + 2 \<Longrightarrow> j < k + 2 \<Longrightarrow> rw_row (rw_matrix p q k) i j = rw_matrix p q k ! i ! j"
  by (simp add: rw_row_def)

subsection \<open>Properties of the printed chain\<close>

text \<open>
  C13. For \<open>N \<ge> 3\<close> and \<open>|rho| < 1\<close> the run succeeds and the binomial distribution
  \<open>C(N-1, i) / 2\<^sup>N\<^sup>-\<^sup>1\<close> is stationary for the printed chain: started from it, the next
  grid point has the same distribution.
\<close>

theorem rouwenhorst_stationary:
  assumes "3 \<le> N" "\<bar>rho\<bar> < 1"
  shows "\<exists>c. rouwenhorst N rho sig_e = Inr c \<and>
           (\<forall>j<nat N. (\<Sum>i<nat N. real (nat N - 1 choose i) / 2 ^ (nat N - 1) * mc_trans c ! i ! j)
                      = real (nat N - 1 choose j) / 2 ^ (nat N - 1))"
proof -
  define k where "k = nat N - 2"
  define p where "p = (1 + rho) / 2"
  have e: "k + 2 = nat N" "Suc k = nat N - 1" using assms(1) by (simp_all add: k_def)
  have t: "mc_trans (rouwenhorst_spec N rho sig_e) = rw_matrix p p k"
    by (simp add: rouwenhorst_spec_def Let_def k_def p_def)
  have "(\<Sum>i<nat N. real (nat N - 1 choose i) / 2 ^ (nat N - 1) * rw_matrix p p k ! i ! j)
      = real (nat N - 1 choose j) / 2 ^ (nat N - 1)" if "j < nat N" for j
  proof -
    have "(\<Sum>i<nat N. real (nat N - 1 choose i) / 2 ^ (nat N - 1) * rw_matrix p p k ! i ! j)
        = (\<Sum>i<k + 2. real (Suc k choose i) / 2 ^ Suc k * rw_row (rw_matrix p p k) i j)"
      using that unfolding e by (intro sum.cong) (simp_all add: rw_row_nth [of _ k, unfolded e])
    then show ?thesis using rw_matrix_stationary [of k p j] unfolding e by simp
  qed
  then show ?thesis using rouwenhorst_eq_spec [OF assms, of sig_e] t by auto
qed

lemma rouwenhorst_stationary_witness:
  "3 \<le> (5::int) \<and> \<bar>0.95::real\<bar> < 1 \<and> (\<exists>c. rouwenhorst 5 0.95 0.007 = Inr c \<and>
     (\<Sum>i<nat 5. real (nat 5 - 1 choose i) / 2 ^ (nat 5 - 1) * mc_trans c ! i ! 2)
       = real (nat 5 - 1 choose 2) / 2 ^ (nat 5 - 1))"
proof -
  have "\<exists>c. rouwenhorst 5 0.95 0.007 = Inr c \<and>
           (\<forall>j<nat 5. (\<Sum>i<nat 5. real (nat 5 - 1 choose i) / 2 ^ (nat 5 - 1) * mc_trans c ! i ! j)
                      = real (nat 5 - 1 choose j) / 2 ^ (nat 5 - 1))"
    by (rule rouwenhorst_stationary) simp_all
  then obtain c where c: "rouwenhorst 5 0.95 0.007 = Inr c" and r: "\<forall>j<nat 5.
      (\<Sum>i<nat 5. real (nat 5 - 1 choose i) / 2 ^ (nat 5 - 1) * mc_trans c ! i ! j)
        = real (nat 5 - 1 choose j) / 2 ^ (nat 5 - 1)" by blast
  have "(2::nat) < nat 5" by simp
  with c r show ?thesis by simp
qed

text \<open>
  C14. The rows of the printed matrix are those of \<open>N - 1\<close> independent two-state chains
  counted together: for \<open>N \<ge> 3\<close>, \<open>|rho| < 1\<close> and every \<open>1 \<le> i < N\<close>, row \<open>i\<close> with one
  more chain in its low state equals row \<open>i - 1\<close> with one more chain in its high state.
  This is why halving the interior rows (line 79) gives back a stochastic row: the top and
  the bottom blocks contribute the same row.
\<close>

theorem rouwenhorst_coin_rows:
  assumes "3 \<le> N" "\<bar>rho\<bar> < 1"
  defines "p \<equiv> (1 + rho) / 2"
  shows "\<exists>c. rouwenhorst N rho sig_e = Inr c \<and>
           (\<forall>i j. 1 \<le> i \<and> i < nat N \<and> j < nat N \<longrightarrow>
              p * mc_trans c ! i ! j + (1 - p) * (if 1 \<le> j then mc_trans c ! i ! (j - 1) else 0)
              = (1 - p) * mc_trans c ! (i - 1) ! j + p * (if 1 \<le> j then mc_trans c ! (i - 1) ! (j - 1) else 0))"
proof -
  define k where "k = nat N - 2"
  have e: "k + 2 = nat N" using assms(1) by (simp add: k_def)
  have t: "mc_trans (rouwenhorst_spec N rho sig_e) = rw_matrix p p k"
    by (simp add: rouwenhorst_spec_def Let_def k_def p_def)
  have "p * rw_matrix p p k ! i ! j + (1 - p) * (if 1 \<le> j then rw_matrix p p k ! i ! (j - 1) else 0)
      = (1 - p) * rw_matrix p p k ! (i - 1) ! j + p * (if 1 \<le> j then rw_matrix p p k ! (i - 1) ! (j - 1) else 0)"
    if "1 \<le> i" "i < nat N" "j < nat N" for i j
  proof -
    have "coin_add p (rw_row (rw_matrix p p k) i) j = coin_add (1 - p) (rw_row (rw_matrix p p k) (i - 1)) j"
      using rw_coinD [OF rw_coin_matrix [of p p k], of i] that e by simp
    moreover have r: "rw_row (rw_matrix p p k) a b = rw_matrix p p k ! a ! b" if "a < nat N" "b < nat N" for a b
      using that e rw_row_nth [of a k b p p] by simp
    moreover have "i - 1 < nat N" "j - 1 < nat N" using that by arith+
    ultimately show ?thesis using that by (cases "1 \<le> j") (simp_all add: coin_add_def)
  qed
  note rows = this
  show ?thesis
  proof (rule exI [where x = "rouwenhorst_spec N rho sig_e"], rule conjI)
    show "rouwenhorst N rho sig_e = Inr (rouwenhorst_spec N rho sig_e)"
      by (rule rouwenhorst_eq_spec [OF assms(1,2)])
  next
    show "\<forall>i j. 1 \<le> i \<and> i < nat N \<and> j < nat N \<longrightarrow>
        p * mc_trans (rouwenhorst_spec N rho sig_e) ! i ! j
          + (1 - p) * (if 1 \<le> j then mc_trans (rouwenhorst_spec N rho sig_e) ! i ! (j - 1) else 0)
        = (1 - p) * mc_trans (rouwenhorst_spec N rho sig_e) ! (i - 1) ! j
          + p * (if 1 \<le> j then mc_trans (rouwenhorst_spec N rho sig_e) ! (i - 1) ! (j - 1) else 0)"
      unfolding t using rows by blast
  qed
qed

lemma rouwenhorst_coin_rows_witness:
  "3 \<le> (5::int) \<and> \<bar>0.95::real\<bar> < 1 \<and> (\<exists>c. rouwenhorst 5 0.95 0.007 = Inr c \<and>
     0.975 * mc_trans c ! 2 ! 1 + 0.025 * mc_trans c ! 2 ! 0 = 0.025 * mc_trans c ! 1 ! 1 + 0.975 * mc_trans c ! 1 ! 0)"
proof -
  have "\<exists>c. rouwenhorst 5 0.95 0.007 = Inr c \<and>
           (\<forall>i j. 1 \<le> i \<and> i < nat 5 \<and> j < nat 5 \<longrightarrow>
              (1 + 0.95) / 2 * mc_trans c ! i ! j + (1 - (1 + 0.95) / 2) * (if 1 \<le> j then mc_trans c ! i ! (j - 1) else 0)
              = (1 - (1 + 0.95) / 2) * mc_trans c ! (i - 1) ! j + (1 + 0.95) / 2 * (if 1 \<le> j then mc_trans c ! (i - 1) ! (j - 1) else 0))"
    by (rule rouwenhorst_coin_rows) simp_all
  then obtain c where c: "rouwenhorst 5 0.95 0.007 = Inr c" and r: "\<forall>i j. 1 \<le> i \<and> i < nat 5 \<and> j < nat 5 \<longrightarrow>
              (1 + 0.95) / 2 * mc_trans c ! i ! j + (1 - (1 + 0.95) / 2) * (if 1 \<le> j then mc_trans c ! i ! (j - 1) else 0)
              = (1 - (1 + 0.95) / 2) * mc_trans c ! (i - 1) ! j + (1 + 0.95) / 2 * (if 1 \<le> j then mc_trans c ! (i - 1) ! (j - 1) else 0)"
    by blast
  have "1 \<le> (2::nat) \<and> 2 < nat 5 \<and> 1 < nat 5" by simp
  then have "(1 + 0.95) / 2 * mc_trans c ! 2 ! 1 + (1 - (1 + 0.95) / 2) * mc_trans c ! 2 ! 0
      = (1 - (1 + 0.95) / 2) * mc_trans c ! 1 ! 1 + (1 + 0.95) / 2 * mc_trans c ! 1 ! 0"
    using r [rule_format, of 2 1] by simp
  with c show ?thesis by simp
qed

end
