(* ===== verification/Spec2Isabelle.thy ===== *)
theory Spec2Isabelle
  imports TauchenChain RouwenhorstStationary
begin

text \<open>
  \<^bold>\<open>Discretizing an AR(1) process: a verification of the two programs.\<close>

  The repository holds two stand-alone C++ programs that replace the AR(1) process
  \<open>z' = rho z + e\<close>, \<open>e \<sim> N(0, sig_e\<^sup>2)\<close>, by a finite Markov chain: a grid \<open>vZ\<close>
  of \<open>N\<close> points and an \<open>N \<times> N\<close> transition matrix \<open>mPI\<close>.
  \<^item> \<^verbatim>\<open>src/tauchen.cpp\<close>: \<open>main\<close> computes \<open>sig_z\<close>, an equispaced grid over
    \<open>\<plusminus>m sig_z\<close> in a C array, and fills \<open>mPI\<close> with differences of the normal CDF
    \<open>phi\<close> (the Abramowitz--Stegun formula 7.1.26, function \<open>phi\<close> of the same file),
    with both tails added to the first and last columns.
  \<^item> \<^verbatim>\<open>src/rouwenhorst.cpp\<close>: \<open>main\<close> builds the grid with Armadillo's
    \<open>linspace\<close> over \<open>\<plusminus>sig_z sqrt (N - 1)\<close> and the matrix by a loop that embeds the
    \<open>(i-1) \<times> (i-1)\<close> matrix at four offsets of an \<open>i \<times> i\<close> zero matrix, weights them
    and halves the interior rows.
  Both programs end by printing the grid and the matrix.

  \<^bold>\<open>Theories.\<close>
  \<^item> \<open>Prelude\<close>: doubles are reals; a division by zero or the square root of a negative
    number (a \<open>nan\<close>/\<open>inf\<close> in IEEE arithmetic) and an out-of-range array access are the
    error values of \<open>fp_error\<close>, threaded by \<open>bindE\<close> through a run of type
    \<open>'a result = fp_error + 'a\<close>. Matrices are lists of rows, built entry-wise by
    \<open>mat_of\<close>; \<open>stochastic n M\<close> is row-stochasticity. The record \<open>markov_chain\<close>
    (\<open>mc_grid\<close>, \<open>mc_trans\<close>) is the output of both programs.
  \<^item> \<open>NormalCDF\<close>: \<open>phi\<close> is \<open>phi\<close> of \<^verbatim>\<open>tauchen.cpp\<close> (lines 130--151), constant
    for constant and in the code's Horner order. Its lemmas: the polynomial is strictly
    increasing (its derivative is a sum of positive quadratics), so \<open>phi\<close> is strictly
    increasing, takes values in \<open>(0, 1)\<close>, and is point-symmetric away from 0; at 0 the
    symmetry is off by \<open>10\<^sup>-\<^sup>9\<close> (\<open>phi 0 = 0.5000000005\<close>).
  \<^item> \<open>Tauchen\<close>: \<open>tauchen N m rho sig_e\<close> is \<open>main\<close> of \<^verbatim>\<open>tauchen.cpp\<close> up to the
    display (lines 50--88), with the parameters of lines 30--43 as arguments
    (\<open>tauchen_main\<close> is the whole of \<open>main\<close>: these values, the run and the display).
    The grid loop of lines 59--62 is \<open>grid_fill\<close>, the
    body of the inner loop (lines 74--85) is \<open>tauchen_entry\<close>, the inner and outer loops
    are \<open>fill_row\<close> and \<open>fill_rows\<close>; every loop is a terminating recursion on its
    counter. \<open>tauchen_spec\<close> is the closed form of the spec. The lemmas show that the
    loops compute it, that its rows are non-negative and sum to 1 (a telescoping sum of
    \<open>phi\<close> values), which inputs fail, and that negative \<open>sig_e\<close> or \<open>m\<close> produce
    negative entries.
  \<^item> \<open>Display\<close>: the output. \<open>fixed4\<close> is \<open>std::cout << std::fixed <<
    std::setprecision(4)\<close> (a minus sign for every negative value, four decimals, the
    nearest multiple of \<open>10\<^sup>-\<^sup>4\<close> with ties to even); \<open>print_grid\<close>,
    \<open>print_matrix\<close> and \<open>print_chain\<close> are the display loops of both files (lines
    94--114 of \<^verbatim>\<open>tauchen.cpp\<close>, 90--110 of \<^verbatim>\<open>rouwenhorst.cpp\<close>, the same code),
    each element read with its index check. \<open>read_chain\<close> parses the printed text; the
    lemmas show that it gives back the grid and the matrix rounded to four decimals, each
    value within \<open>0.00005\<close> of the one computed.
  \<^item> \<open>Armadillo\<close>: the \<open>arma::mat\<close> operations the Rouwenhorst program calls, with
    Armadillo's bounds and size checks as errors. The library is not in the repository,
    so these follow the spec and the documented behaviour; the constructor \<open>mat(r, c)\<close>
    is taken to zero-fill, as Armadillo does from version 10.5 on.
  \<^item> \<open>Tauchen\<close> also holds \<open>tauchen_output\<close>, the run followed by the display: every
    successful run has \<open>N\<close> grid points and an \<open>N \<times> N\<close> matrix, its text reads back to
    them, the chain is stochastically monotone for \<open>rho \<ge> 0\<close>, and with the file's
    parameters the grid line printed is \<open>-0.0673 -0.0336 0.0000 0.0336 0.0673\<close>.
  \<^item> \<open>Rouwenhorst\<close>: \<open>rouwenhorst N rho sig_e\<close> is \<open>main\<close> of \<^verbatim>\<open>rouwenhorst.cpp\<close>
    (lines 44--84) followed by the \<open>N \<times> N\<close> read-out of \<open>mPI_new\<close> that the display of
    lines 97--110 performs (\<open>read_square\<close>); \<open>rouwenhorst_output\<close> adds the printing.
    The six matrices of the program are the record \<open>rw_state\<close>; one pass of the loop is
    \<open>rw_body\<close> (lines 67--82, statement by statement), the loop is \<open>rw_loop\<close>.
    \<open>rw_matrix\<close> is the recursion of the spec. \<open>rw_reach\<close> is the loop as a state
    machine (an inductive predicate: the declarations, then one rule per pass); by rule
    induction every reachable state holds the recursion's matrix, and by induction on the
    passes left every reachable state runs to the loop's exit. The lemmas show that each
    pass is one step of the recursion, which inputs fail, that no Armadillo check ever throws, the
    shape of every run, and the complete text \<open>rouwenhorst_main\<close> (the whole of
    \<open>main\<close>) prints for the file's parameters, and the text printed for
    \<open>N = 2\<close> (an all-zero matrix).
  \<^item> \<open>TauchenChain\<close>: Tauchen's matrix is centro-symmetric (symmetric under
    \<open>z \<mapsto> -z\<close>) up to \<open>10\<^sup>-\<^sup>9\<close>, the defect of \<open>phi\<close> at 0, and the bound is
    attained when a bin edge falls on 0; for \<open>rho = 0\<close> all rows are equal.
  \<^item> \<open>RouwenhorstChain\<close>: the recursion's matrix, hence the printed one, is
    row-stochastic, has the conditional mean \<open>rho z\<^sub>i\<close> and variance \<open>sig_e\<^sup>2\<close> of the
    AR(1) process exactly, binomial first and last rows, and is symmetric under
    \<open>z \<mapsto> -z\<close> exactly; for \<open>rho = 0\<close> every row is the binomial distribution
    \<open>C(N-1, j) / 2\<^sup>N\<^sup>-\<^sup>1\<close>.
  \<^item> \<open>RouwenhorstStationary\<close>: every matrix of the recursion satisfies the row identity
    of \<open>N - 1\<close> independent two-state chains (row \<open>i\<close> plus a chain in its low state is
    row \<open>i - 1\<close> plus a chain in its high state), which is why halving the interior rows
    is right; from it, for every \<open>N \<ge> 3\<close> the binomial distribution
    \<open>C(N-1, i) / 2\<^sup>N\<^sup>-\<^sup>1\<close> is stationary for the printed chain.
  \<^item> This theory: the property that relates the two programs, that Rouwenhorst's grid is
    Tauchen's grid for \<open>m = sqrt (N - 1)\<close>.

  \<^bold>\<open>Loops and termination.\<close> Every loop of both programs has a counter bounded by \<open>N\<close>
  and is a \<open>function\<close> with a measure; no fuel is needed, and every theorem that a run
  succeeds states the value it returns. That the matrix loop of \<^verbatim>\<open>rouwenhorst.cpp\<close> finishes
  without an exception from every reachable state is the liveness theorem of \<open>rw_reach\<close>.

  \<^bold>\<open>Not modelled.\<close> Rounding: the theorems are about exact real arithmetic, so they
  say what the code computes up to floating-point error, not bit for bit; in particular
  the accuracy of \<open>phi\<close> against the true normal CDF (about \<open>1.5 \<cdot> 10\<^sup>-\<^sup>7\<close>) is a
  fact about the error function that the model does not state. Where a value is 0 only
  in exact arithmetic, the printed sign may differ: the centre grid point of
  \<^verbatim>\<open>tauchen.cpp\<close> is computed as \<open>vZ[1] + d\<close> and prints \<open>0.0000\<close> in the model but
  may print \<open>-0.0000\<close> in doubles. The output stream itself (buffering, \<open>return 0\<close>) is
  not modelled: the model's output is the text written. The parameters are constants of
  \<open>main\<close>; the model takes them as arguments and the \<open>_main\<close> definitions fix the
  file's values.
  The lines of the two files the model does not translate are the file-head comments, the
  \<open>#include\<close> lines, the forward declaration of \<open>phi\<close> (line 22 of
  \<^verbatim>\<open>tauchen.cpp\<close>), and the section-divider comments and braces around \<open>main\<close>; they
  have no behaviour to model. The stationary distribution of Tauchen's chain has no
  closed form (it depends on values of \<open>phi\<close>), so only its symmetry is stated.
\<close>

text \<open>
  C33. For \<open>N \<ge> 2\<close>, \<open>|rho| < 1\<close> and \<open>sig_e \<noteq> 0\<close> both programs succeed, and the grid of
  Rouwenhorst's program is the grid of Tauchen's program run with \<open>m = sqrt (N - 1)\<close>.
\<close>

theorem rouwenhorst_grid_is_tauchen_grid:
  assumes "2 \<le> N" "\<bar>rho\<bar> < 1" "sig_e \<noteq> 0"
  shows "\<exists>c t. rouwenhorst N rho sig_e = Inr c \<and> tauchen N (sqrt (real_of_int (N - 1))) rho sig_e = Inr t
           \<and> mc_grid c = mc_grid t"
proof -
  define n where "n = nat N"
  define z where "z = sqrt (sig_e ^ 2 / (1 - rho ^ 2)) * sqrt (real_of_int (N - 1))"
  obtain c where c: "rouwenhorst N rho sig_e = Inr c" "mc_grid c = linspace (- z) z n"
    using rouwenhorst_grid [of N rho sig_e] assms(1,2) by (auto simp: z_def n_def)
  have t: "tauchen N (sqrt (real_of_int (N - 1))) rho sig_e
      = Inr (tauchen_spec N (sqrt (real_of_int (N - 1))) rho sig_e)"
    using tauchen_eq_spec assms by blast
  have n: "2 \<le> n" "real_of_int (N - 1) = real (n - 1)" "real n = real_of_int N"
    using assms(1) by (simp_all add: n_def of_nat_diff)
  have "linspace (- z) z n = tauchen_grid n (- z) ((z - - z) / real_of_int (N - 1))"
    by (rule nth_equalityI) (simp_all add: linspace_nth [OF n(1)] n(2,3))
  then show ?thesis using c t
    by (simp add: tauchen_spec_def Let_def z_def n_def mult.commute)
qed

lemma rouwenhorst_grid_is_tauchen_grid_witness:
  "2 \<le> (5::int) \<and> \<bar>0.95::real\<bar> < 1 \<and> (0.007::real) \<noteq> 0 \<and>
   (\<exists>c t. rouwenhorst 5 0.95 0.007 = Inr c \<and> tauchen 5 2 0.95 0.007 = Inr t \<and> mc_grid c = mc_grid t)"
  using rouwenhorst_grid_is_tauchen_grid [of 5 "0.95" "0.007"] by (simp add: real_sqrt_four)

end
